theory Spec2Isabelle
  imports Complex_Main "HOL-Library.Signed_Division" "HOL-Library.List_Lexorder"
    "HOL-Library.Char_ord"
begin

section \<open>Data model of the team collection\<close>

text \<open>
  The definitions below embed parts of \<^verbatim>\<open>fdbserver/DataDistribution.actor.cpp\<close>.
  Objects that the C++ code shares through \<^verbatim>\<open>Reference<T>\<close> live in explicit stores
  (total functions from a reference to the object); a field of reference type holds the
  reference, and a reference that may be null is an \<open>option\<close>.  A \<^verbatim>\<open>std::vector\<close> is a
  list, a \<^verbatim>\<open>std::map\<close> that the code iterates over is an association list in key order,
  and a map that is only looked up is a partial function.

  Byte counts and versions are \<^verbatim>\<open>int64_t\<close> in the source.  They are modelled by \<open>int\<close>:
  signed overflow is undefined behaviour in C++, and no function below is meant to be
  evaluated outside the 64-bit range.  Division of such values truncates towards zero
  (\<open>sdiv\<close>).  Values of type \<^verbatim>\<open>double\<close> are only ever compared and sorted by the
  functions modelled here; they are modelled by \<open>real\<close>, and the functions of the source
  that do floating-point arithmetic are parameters of the model.
\<close>

type_synonym UID = nat
type_synonym Version = int
type_synonym Key = string
type_synonym ref = nat

record NetworkAddress =
  ip :: nat
  port :: nat

datatype AddressExclusion = AddressExclusion nat nat

text \<open>\<^verbatim>\<open>StorageServerInterface\<close> is declared outside the two source files; the record holds
  what the functions below read of it.  \<open>zoneId\<close>, \<open>processId\<close> and \<open>ssi_dcId\<close> are the
  entries of its \<^verbatim>\<open>locality\<close>.\<close>

record StorageServerInterface =
  ssi_id :: UID
  address :: NetworkAddress
  secondaryAddress :: "NetworkAddress option"
  stableAddress :: NetworkAddress
  zoneId :: "Key option"
  processId :: "Key option"
  ssi_dcId :: "Key option"
  isTss :: bool
  tssPairID :: "UID option"

record StorageMetrics =
  bytes :: int

record GetStorageMetricsReply =
  load :: StorageMetrics
  available :: StorageMetrics
  capacity :: StorageMetrics

text \<open>\<^verbatim>\<open>struct TCServerInfo\<close>.  \<open>serverMetrics\<close> is an \<^verbatim>\<open>ErrorOr<GetStorageMetricsReply>\<close>;
  \<open>None\<close> stands for a value that is not \<^verbatim>\<open>present()\<close>.  \<open>lastKnownClass\<close> is the
  \<^verbatim>\<open>ProcessClass\<close>, a type declared outside the two source files, as a number.  The
  \<open>tracker\<close> of a server is the \<^verbatim>\<open>storageServerTracker\<close> actor started for it, kept as the
  argument \<^verbatim>\<open>isTss\<close> it was started with.  A \<^verbatim>\<open>Promise<Void>\<close> (\<open>removed\<close>, \<open>killTss\<close>) is
  whether it was sent.  \<open>onTSSPairRemoved\<close> is a future: \<open>None\<close> is \<^verbatim>\<open>Never()\<close>, and \<open>Some r\<close>
  is the future \<^verbatim>\<open>onRemoved\<close> of the server object \<open>r\<close>, ready once the \<open>removed\<close> of \<open>r\<close>
  was sent.\<close>

record TCServerInfo =
  uid :: UID
  addedVersion :: Version
  lastKnownInterface :: StorageServerInterface
  lastKnownClass :: nat
  teams :: "ref list"
  machine :: "ref option"
  tracker :: "bool option"
  dataInFlightToServer :: int
  serverMetrics :: "GetStorageMetricsReply option"
  removed :: bool
  onTSSPairRemoved :: "ref option"
  killTss :: bool
  inDesiredDC :: bool
  localityEntry :: nat
  wrongStoreTypeToRemove :: bool
  ssVersionTooFarBehind :: bool

record TCMachineInfo =
  serversOnMachine :: "ref list"
  machineID :: Key
  machineTeams :: "ref list"

record TCMachineTeamInfo =
  machines :: "ref list"
  machineIDs :: "Key list"
  serverTeams :: "ref list"

text \<open>\<^verbatim>\<open>class TCTeamInfo\<close>; \<open>servers\<close> holds references into the store of server
  objects, \<open>serverIDs\<close> the identifiers copied from them by the constructor.  The
  \<open>tracker\<close> of a team is the \<^verbatim>\<open>teamTracker\<close> actor started for it, kept as the arguments
  \<^verbatim>\<open>badTeam\<close> and \<^verbatim>\<open>redundantTeam\<close> it was started with.\<close>

record TCTeamInfo =
  servers :: "ref list"
  serverIDs :: "UID list"
  healthy :: bool
  wrongConfiguration :: bool
  priority :: int
  machineTeam :: "ref option"
  tracker :: "(bool \<times> bool) option"

record ServerStatus =
  isWiggling :: bool
  isFailed :: bool
  isUndesired :: bool
  isWrongConfiguration :: bool
  initialized :: bool

text \<open>The default constructor \<^verbatim>\<open>ServerStatus()\<close>: a server without a status counts as
  failed.\<close>

definition ServerStatus_default :: ServerStatus where
  "ServerStatus_default =
     \<lparr>isWiggling = False, isFailed = True, isUndesired = False,
      isWrongConfiguration = False, initialized = False\<rparr>"

definition isUnhealthy :: "ServerStatus \<Rightarrow> bool" where
  "isUnhealthy s = (isFailed s \<or> isUndesired s)"


datatype Status = NONE | WIGGLING | EXCLUDED | FAILED

text \<open>\<^verbatim>\<open>ASSERT\<close> throws \<^verbatim>\<open>internal_error\<close>; \<open>invalid_reference\<close> stands for the crash
  of dereferencing a \<^verbatim>\<open>Reference\<close> that is not valid, and \<open>transaction_error\<close> for an error
  of a database transaction.\<close>

datatype Error = internal_error | invalid_reference | transaction_error | movekeys_conflict

text \<open>The knobs read by the functions below.  \<^verbatim>\<open>SERVER_KNOBS\<close> is declared outside the
  two source files, so its values are a parameter of every function that reads one.\<close>

record ServerKnobs =
  PRIORITY_PERPETUAL_STORAGE_WIGGLE :: int
  PRIORITY_TEAM_HEALTHY :: int
  PRIORITY_TEAM_CONTAINS_UNDESIRED_SERVER :: int
  PRIORITY_TEAM_REDUNDANT :: int
  PRIORITY_POPULATE_REGION :: int
  PRIORITY_TEAM_UNHEALTHY :: int
  PRIORITY_TEAM_2_LEFT :: int
  PRIORITY_TEAM_1_LEFT :: int
  PRIORITY_TEAM_0_LEFT :: int
  MIN_AVAILABLE_SPACE_RATIO :: real
  TARGET_AVAILABLE_SPACE_RATIO :: real
  AVAILABLE_SPACE_UPDATE_DELAY :: real
  MIN_AVAILABLE_SPACE :: int
  BEST_TEAM_OPTION_COUNT :: nat
  BEST_TEAM_MAX_TEAM_TRIES :: nat
  DD_EXCLUDE_MIN_REPLICAS :: nat
  MAX_READ_TRANSACTION_LIFE_VERSIONS :: int
  DESIRED_TEAMS_PER_SERVER :: int

record DatabaseConfiguration =
  storageTeamSize :: int
  usableRegions :: int

text \<open>\<^verbatim>\<open>ShardsAffectedByTeamFailure\<close> is an external collaborator; the collection reads it
  through \<^verbatim>\<open>hasShards\<close> (of a team's server identifiers and the region flag) and
  \<^verbatim>\<open>getNumberOfShards\<close>.\<close>

record ShardsAffectedByTeamFailure =
  hasShards :: "UID list \<times> bool \<Rightarrow> bool"
  getNumberOfShards :: "UID \<Rightarrow> int"

text \<open>\<^verbatim>\<open>struct DDTeamCollection\<close>, with the stores of the objects it shares by reference.
  A \<^verbatim>\<open>Debouncer\<close> or \<^verbatim>\<open>AsyncTrigger\<close> is the number of times it was triggered, a
  \<^verbatim>\<open>PromiseStream\<close> is the list of the values sent to it, and the \<^verbatim>\<open>Promise<UID>\<close>
  \<open>removeFailedServer\<close> is the value sent to it, \<open>None\<close> before one was sent.\<close>

record DDTeamCollection =
  serverObj :: "ref \<Rightarrow> TCServerInfo"
  teamObj :: "ref \<Rightarrow> TCTeamInfo"
  machineObj :: "ref \<Rightarrow> TCMachineInfo"
  machineTeamObj :: "ref \<Rightarrow> TCMachineTeamInfo"
  nextRef :: ref
  configuration :: DatabaseConfiguration
  doBuildTeams :: bool
  lastBuildTeamsFailed :: bool
  restartTeamBuilder :: nat
  allServers :: "UID list"
  server_status :: "UID \<rightharpoonup> ServerStatus"
  unhealthyServers :: int
  server_info :: "UID \<rightharpoonup> ref"
  pid2server_info :: "Key \<rightharpoonup> ref list"
  wiggle_addresses :: "AddressExclusion list"
  tss_info_by_pair :: "(UID \<times> ref) list"
  server_and_tss_info :: "(UID \<times> ref) list"
  disableFailingLaggingServers :: bool
  wigglingPid :: "Key option"
  machine_info :: "(Key \<times> ref) list"
  machineTeams :: "ref list"
  teams :: "ref list"
  badTeams :: "ref list"
  shardsAffectedByTeamFailure :: ShardsAffectedByTeamFailure
  removedServers :: "UID list"
  removedTSS :: "UID list"
  recruitingIds :: "UID set"
  recruitingLocalities :: "NetworkAddress set"
  recruitingStream :: int
  restartRecruiting :: nat
  healthyTeamCount :: int
  zeroHealthyTeams :: bool
  optimalTeamCount :: int
  bestTeamKeepStuckCount :: int
  excludedServers :: "AddressExclusion \<rightharpoonup> Status"
  includedDCs :: "Key option list"
  otherTrackedDCs :: "Key option list option"
  primary :: bool
  healthyZone :: "Key option"
  clearHealthyZoneFuture_isReady :: bool
  medianAvailableSpace :: real
  lastMedianAvailableSpaceUpdate :: real
  lowestUtilizationTeam :: nat
  highestUtilizationTeam :: nat
  printDetailedTeamsInfo :: nat
  removeFailedServer :: "UID option"

text \<open>
  Modelled from the spec: \<^verbatim>\<open>AsyncMap\<close> is declared outside the two source files.  The
  exclusion map is ``NONE by default'' and the status map ``erases default constructed
  objects'': \<^verbatim>\<open>get\<close> of a key that is not in the map is the default value, \<^verbatim>\<open>count\<close>
  tells whether the key is in the map, and \<^verbatim>\<open>set\<close> of the default value erases the key.
\<close>

definition AsyncMap_get :: "'v \<Rightarrow> ('k \<rightharpoonup> 'v) \<Rightarrow> 'k \<Rightarrow> 'v" where
  "AsyncMap_get dflt m k = (case m k of None \<Rightarrow> dflt | Some v \<Rightarrow> v)"

definition AsyncMap_count :: "('k \<rightharpoonup> 'v) \<Rightarrow> 'k \<Rightarrow> nat" where
  "AsyncMap_count m k = (case m k of None \<Rightarrow> 0 | Some v \<Rightarrow> 1)"

definition AsyncMap_set :: "'v \<Rightarrow> ('k \<rightharpoonup> 'v) \<Rightarrow> 'k \<Rightarrow> 'v \<Rightarrow> ('k \<rightharpoonup> 'v)" where
  "AsyncMap_set dflt m k v = (if v = dflt then m(k := None) else m(k \<mapsto> v))"

definition server_status_get :: "DDTeamCollection \<Rightarrow> UID \<Rightarrow> ServerStatus" where
  "server_status_get self u = AsyncMap_get ServerStatus_default (server_status self) u"

definition excludedServers_get :: "DDTeamCollection \<Rightarrow> AddressExclusion \<Rightarrow> Status" where
  "excludedServers_get self a = AsyncMap_get NONE (excludedServers self) a"

text \<open>\<^verbatim>\<open>TCTeamInfo::size\<close> asserts that the two member vectors have the same length.\<close>

definition TCTeamInfo_size :: "TCTeamInfo \<Rightarrow> Error + int" where
  "TCTeamInfo_size team =
     (if length (servers team) = length (serverIDs team) then Inr (int (length (servers team)))
      else Inl internal_error)"

section \<open>Team load: \<^verbatim>\<open>TCTeamInfo::getLoadAverage\<close>\<close>


text \<open>The loop over \<^verbatim>\<open>servers\<close> carries \<^verbatim>\<open>added\<close> and \<^verbatim>\<open>bytesSum\<close>.\<close>

fun getLoadAverage_loop :: "(ref \<Rightarrow> TCServerInfo) \<Rightarrow> ref list \<Rightarrow> int \<times> int \<Rightarrow> int \<times> int" where
  "getLoadAverage_loop mem [] (added, bytesSum) = (added, bytesSum)"
| "getLoadAverage_loop mem (s # ss) (added, bytesSum) =
     (case serverMetrics (mem s) of
        Some reply \<Rightarrow> getLoadAverage_loop mem ss (added + 1, bytesSum + bytes (load reply))
      | None \<Rightarrow> getLoadAverage_loop mem ss (added, bytesSum))"

definition getLoadAverage :: "(ref \<Rightarrow> TCServerInfo) \<Rightarrow> TCTeamInfo \<Rightarrow> int" where
  "getLoadAverage mem team =
     (case getLoadAverage_loop mem (servers team) (0, 0) of
        (added, bytesSum) \<Rightarrow>
          let bytesSum' = (if added < int (length (servers team)) then bytesSum * 2 else bytesSum)
          in if added = 0 then 0 else bytesSum' sdiv added)"

text \<open>The metrics replies of the members of a team that reported, in team order.\<close>

definition reportedMetrics :: "(ref \<Rightarrow> TCServerInfo) \<Rightarrow> TCTeamInfo \<Rightarrow> GetStorageMetricsReply list" where
  "reportedMetrics mem team = List.map_filter (\<lambda>s. serverMetrics (mem s)) (servers team)"


section \<open>Team priority: the recomputation in \<^verbatim>\<open>teamTracker\<close>\<close>

text \<open>The loop over \<^verbatim>\<open>team->getServerIDs()\<close> that counts the members by status.\<close>

record TeamCounts =
  anyUndesired :: bool
  anyWrongConfiguration :: bool
  anyWigglingServer :: bool
  serversLeft :: int
  serverUndesired :: int
  serverWrongConf :: int
  serverWiggling :: int

definition TeamCounts_init :: TeamCounts where
  "TeamCounts_init =
     \<lparr>anyUndesired = False, anyWrongConfiguration = False, anyWigglingServer = False,
      serversLeft = 0, serverUndesired = 0, serverWrongConf = 0, serverWiggling = 0\<rparr>"

definition teamTracker_count :: "ServerStatus \<Rightarrow> TeamCounts \<Rightarrow> TeamCounts" where
  "teamTracker_count status c =
     (let c1 = (if \<not> isFailed status then c\<lparr>serversLeft := serversLeft c + 1\<rparr> else c);
          c2 = (if isUndesired status
                then c1\<lparr>anyUndesired := True, serverUndesired := serverUndesired c1 + 1\<rparr> else c1);
          c3 = (if isWrongConfiguration status
                then c2\<lparr>anyWrongConfiguration := True, serverWrongConf := serverWrongConf c2 + 1\<rparr>
                else c2)
      in if isWiggling status
         then c3\<lparr>anyWigglingServer := True, serverWiggling := serverWiggling c3 + 1\<rparr> else c3)"

fun teamTracker_scan :: "DDTeamCollection \<Rightarrow> UID list \<Rightarrow> TeamCounts \<Rightarrow> TeamCounts" where
  "teamTracker_scan self [] c = c"
| "teamTracker_scan self (u # us) c =
     teamTracker_scan self us (teamTracker_count (server_status_get self u) c)"

text \<open>The chain that sets the team's priority (source lines 3677 to 3703), as the
  priority it sets.\<close>

definition teamTracker_priority ::
  "ServerKnobs \<Rightarrow> DDTeamCollection \<Rightarrow> TCTeamInfo \<Rightarrow> bool \<Rightarrow> bool \<Rightarrow> Error + int" where
  "teamTracker_priority knobs self team badTeam redundantTeam =
     (let c = teamTracker_scan self (serverIDs team) TeamCounts_init in
      case TCTeamInfo_size team of
        Inl e \<Rightarrow> Inl e
      | Inr sz \<Rightarrow>
          Inr (if sz = 0 then PRIORITY_POPULATE_REGION knobs
               else if serversLeft c < storageTeamSize (configuration self) then
                 (if serversLeft c = 0 then PRIORITY_TEAM_0_LEFT knobs
                  else if serversLeft c = 1 then PRIORITY_TEAM_1_LEFT knobs
                  else if serversLeft c = 2 then PRIORITY_TEAM_2_LEFT knobs
                  else PRIORITY_TEAM_UNHEALTHY knobs)
               else if \<not> badTeam \<and> anyWigglingServer c \<and> serverWiggling c = serverWrongConf c \<and>
                       serverWiggling c = serverUndesired c
                 then PRIORITY_PERPETUAL_STORAGE_WIGGLE knobs
               else if badTeam \<or> anyWrongConfiguration c then
                 (if redundantTeam then PRIORITY_TEAM_REDUNDANT knobs
                  else PRIORITY_TEAM_UNHEALTHY knobs)
               else if anyUndesired c then PRIORITY_TEAM_CONTAINS_UNDESIRED_SERVER knobs
               else PRIORITY_TEAM_HEALTHY knobs))"

subsection \<open>The priority table as the specification words it\<close>

text \<open>An ordered list of rules; the first rule whose condition holds decides.\<close>

fun first_match :: "(bool \<times> 'a) list \<Rightarrow> 'a \<Rightarrow> 'a" where
  "first_match [] d = d"
| "first_match ((c, v) # rs) d = (if c then v else first_match rs d)"

definition membersWith :: "DDTeamCollection \<Rightarrow> TCTeamInfo \<Rightarrow> (ServerStatus \<Rightarrow> bool) \<Rightarrow> UID list" where
  "membersWith self team p = filter (\<lambda>u. p (server_status_get self u)) (serverIDs team)"

definition countWith :: "DDTeamCollection \<Rightarrow> TCTeamInfo \<Rightarrow> (ServerStatus \<Rightarrow> bool) \<Rightarrow> int" where
  "countWith self team p = int (length (membersWith self team p))"

text \<open>The table of the claim, word for word: the rules on \<open>serversLeft\<close> stand alone, and
  the wiggle rule compares the members.\<close>

definition priority_table_claimed ::
  "ServerKnobs \<Rightarrow> DDTeamCollection \<Rightarrow> TCTeamInfo \<Rightarrow> bool \<Rightarrow> bool \<Rightarrow> int" where
  "priority_table_claimed knobs self team badTeam redundantTeam =
     (let left = countWith self team (\<lambda>s. \<not> isFailed s);
          teamSize = storageTeamSize (configuration self)
      in first_match
        [(length (serverIDs team) = 0, PRIORITY_POPULATE_REGION knobs),
         (left = 0, PRIORITY_TEAM_0_LEFT knobs),
         (left = 1, PRIORITY_TEAM_1_LEFT knobs),
         (left = 2, PRIORITY_TEAM_2_LEFT knobs),
         (2 < left \<and> left < teamSize, PRIORITY_TEAM_UNHEALTHY knobs),
         (\<not> badTeam \<and> membersWith self team isWiggling \<noteq> [] \<and>
            membersWith self team isWiggling = membersWith self team isUndesired \<and>
            membersWith self team isWiggling = membersWith self team isWrongConfiguration,
          PRIORITY_PERPETUAL_STORAGE_WIGGLE knobs),
         (badTeam \<or> membersWith self team isWrongConfiguration \<noteq> [],
          if redundantTeam then PRIORITY_TEAM_REDUNDANT knobs else PRIORITY_TEAM_UNHEALTHY knobs),
         (membersWith self team isUndesired \<noteq> [], PRIORITY_TEAM_CONTAINS_UNDESIRED_SERVER knobs)]
        (PRIORITY_TEAM_HEALTHY knobs))"

text \<open>The table of the claim with one change: the rules for 0, 1 and 2 servers left
  apply only while \<open>serversLeft\<close> is below the configured team size.\<close>

definition priority_table ::
  "ServerKnobs \<Rightarrow> DDTeamCollection \<Rightarrow> TCTeamInfo \<Rightarrow> bool \<Rightarrow> bool \<Rightarrow> int" where
  "priority_table knobs self team badTeam redundantTeam =
     (let left = countWith self team (\<lambda>s. \<not> isFailed s);
          teamSize = storageTeamSize (configuration self)
      in first_match
        [(length (serverIDs team) = 0, PRIORITY_POPULATE_REGION knobs),
         (left < teamSize \<and> left = 0, PRIORITY_TEAM_0_LEFT knobs),
         (left < teamSize \<and> left = 1, PRIORITY_TEAM_1_LEFT knobs),
         (left < teamSize \<and> left = 2, PRIORITY_TEAM_2_LEFT knobs),
         (2 < left \<and> left < teamSize, PRIORITY_TEAM_UNHEALTHY knobs),
         (\<not> badTeam \<and> membersWith self team isWiggling \<noteq> [] \<and>
            membersWith self team isWiggling = membersWith self team isUndesired \<and>
            membersWith self team isWiggling = membersWith self team isWrongConfiguration,
          PRIORITY_PERPETUAL_STORAGE_WIGGLE knobs),
         (badTeam \<or> membersWith self team isWrongConfiguration \<noteq> [],
          if redundantTeam then PRIORITY_TEAM_REDUNDANT knobs else PRIORITY_TEAM_UNHEALTHY knobs),
         (membersWith self team isUndesired \<noteq> [], PRIORITY_TEAM_CONTAINS_UNDESIRED_SERVER knobs)]
        (PRIORITY_TEAM_HEALTHY knobs))"

text \<open>A status in which a wiggling server is also undesired and wrongly configured.\<close>

definition wigglingIsExcluded :: "ServerStatus \<Rightarrow> bool" where
  "wigglingIsExcluded status =
     (isWiggling status \<longrightarrow> isUndesired status \<and> isWrongConfiguration status)"

section \<open>Machine health: \<^verbatim>\<open>DDTeamCollection::isMachineHealthy\<close> and the snapshot task\<close>

fun isMachineHealthy_loop :: "DDTeamCollection \<Rightarrow> ref list \<Rightarrow> bool" where
  "isMachineHealthy_loop self [] = False"
| "isMachineHealthy_loop self (s # ss) =
     (if \<not> isUnhealthy (server_status_get self (uid (serverObj self s))) then True
      else isMachineHealthy_loop self ss)"

definition isMachineHealthy :: "DDTeamCollection \<Rightarrow> ref option \<Rightarrow> bool" where
  "isMachineHealthy self machineRef =
     (case machineRef of
        None \<Rightarrow> False
      | Some m \<Rightarrow>
          if map_of (machine_info self) (machineID (machineObj self m)) = None \<or>
             serversOnMachine (machineObj self m) = []
          then False
          else isMachineHealthy_loop self (serversOnMachine (machineObj self m)))"

text \<open>
  \<^verbatim>\<open>printSnapshotTeamsInfo\<close> copies the status map into a \<^verbatim>\<open>std::map\<close> and clones every
  machine, then logs one \<^verbatim>\<open>MachineInfo\<close> event per machine.  The helper \<^verbatim>\<open>get\<close> of the
  source asserts that the key is in the map.  The model keeps, per event, the machine
  identifier and the \<^verbatim>\<open>Healthy\<close> detail; the variable \<^verbatim>\<open>isMachineHealthy\<close> is declared
  before the loop and carried through it.  The result is the events logged and the error
  that ended the pass, if any.
\<close>

definition map_get :: "('k \<rightharpoonup> 'v) \<Rightarrow> 'k \<Rightarrow> Error + 'v" where
  "map_get m k = (case m k of None \<Rightarrow> Inl internal_error | Some v \<Rightarrow> Inr v)"

fun printSnapshot_serverLoop ::
  "(UID \<rightharpoonup> ServerStatus) \<Rightarrow> (ref \<Rightarrow> TCServerInfo) \<Rightarrow> ref list \<Rightarrow> bool \<Rightarrow> Error + bool" where
  "printSnapshot_serverLoop status mem [] h = Inr h"
| "printSnapshot_serverLoop status mem (s # ss) h =
     (case map_get status (uid (mem s)) of
        Inl e \<Rightarrow> Inl e
      | Inr st \<Rightarrow> printSnapshot_serverLoop status mem ss (if \<not> isUnhealthy st then True else h))"

fun printSnapshot_machineLoop ::
  "(UID \<rightharpoonup> ServerStatus) \<Rightarrow> (ref \<Rightarrow> TCServerInfo) \<Rightarrow> (Key \<times> TCMachineInfo) list \<Rightarrow>
   (Key \<times> TCMachineInfo) list \<Rightarrow> bool \<Rightarrow> (Key \<times> bool) list \<times> Error option" where
  "printSnapshot_machineLoop status mem snapshot [] h = ([], None)"
| "printSnapshot_machineLoop status mem snapshot ((k, m) # ms) h =
     (let h1 = (if map_of snapshot (machineID m) = None \<or> serversOnMachine m = [] then False else h)
      in case printSnapshot_serverLoop status mem (serversOnMachine m) h1 of
           Inl e \<Rightarrow> ([], Some e)
         | Inr h2 \<Rightarrow>
             let h3 = False;
                 rest = printSnapshot_machineLoop status mem snapshot ms h3
             in ((k, h3) # fst rest, snd rest))"

definition printSnapshotTeamsInfo_MachineInfo ::
  "DDTeamCollection \<Rightarrow> (Key \<times> bool) list \<times> Error option" where
  "printSnapshotTeamsInfo_MachineInfo self =
     (let snapshot = map (\<lambda>(k, r). (k, machineObj self r)) (machine_info self)
      in printSnapshot_machineLoop (server_status self) (serverObj self) snapshot snapshot False)"

section \<open>Recruitment: \<^verbatim>\<open>storageRecruiter\<close> and \<^verbatim>\<open>initializeStorage\<close>\<close>

record LocalityData =
  dcId :: "Key option"
  dataHallId :: "Key option"

record WorkerInterface =
  workerStableAddress :: NetworkAddress
  workerLocality :: LocalityData

record TSSPairState =
  tssDcId :: "Key option"
  tssDataHallId :: "Key option"
  active :: bool

definition inDataZone :: "TSSPairState \<Rightarrow> LocalityData \<Rightarrow> bool" where
  "inDataZone tss locality = (dcId locality = tssDcId tss \<and> dataHallId locality = tssDataHallId tss)"

definition addressExclusionOf :: "NetworkAddress \<Rightarrow> AddressExclusion" where
  "addressExclusionOf a = AddressExclusion (ip a) (port a)"

fun numExistingSSOnAddr_loop :: "(ref \<Rightarrow> TCServerInfo) \<Rightarrow> (UID \<times> ref) list \<Rightarrow> AddressExclusion \<Rightarrow> int \<Rightarrow> int" where
  "numExistingSSOnAddr_loop mem [] addr n = n"
| "numExistingSSOnAddr_loop mem ((u, r) # rest) addr n =
     numExistingSSOnAddr_loop mem rest addr
       (if addressExclusionOf (stableAddress (lastKnownInterface (mem r))) = addr then n + 1 else n)"

definition numExistingSSOnAddr :: "DDTeamCollection \<Rightarrow> AddressExclusion \<Rightarrow> int" where
  "numExistingSSOnAddr self addr =
     numExistingSSOnAddr_loop (serverObj self) (server_and_tss_info self) addr 0"

text \<open>The guard at the head of \<^verbatim>\<open>initializeStorage\<close>: only inside it is the candidate asked
  to initialize a storage server.\<close>

definition initializeStorage_guard :: "DDTeamCollection \<Rightarrow> WorkerInterface \<Rightarrow> bool" where
  "initializeStorage_guard self worker =
     (numExistingSSOnAddr self (addressExclusionOf (workerStableAddress worker)) \<le> 2 \<and>
      workerStableAddress worker \<notin> recruitingLocalities self)"

text \<open>
  Whether \<^verbatim>\<open>initializeStorage\<close> sends the initialize-storage request to the candidate.
  Inside the guard the request is sent when \<^verbatim>\<open>doRecruit\<close> holds: always for a storage
  server, and for a test storage server when its pair reported its identifier
  (\<open>ssPairInfoResult\<close>).
\<close>

definition initializeStorage_sendsRequest ::
  "DDTeamCollection \<Rightarrow> WorkerInterface \<Rightarrow> bool \<Rightarrow> (UID \<times> Version) option \<Rightarrow> bool" where
  "initializeStorage_sendsRequest self worker recruitTss ssPairInfoResult =
     (if initializeStorage_guard self worker
      then (if recruitTss then ssPairInfoResult \<noteq> None else True)
      else False)"

text \<open>The state of the collection when \<^verbatim>\<open>initializeStorage\<close> reaches its first wait or
  its end: the recruiting stream is counted, and inside the guard the interface identifier
  and the address are registered as being recruited.\<close>

definition initializeStorage_register ::
  "DDTeamCollection \<Rightarrow> WorkerInterface \<Rightarrow> UID \<Rightarrow> DDTeamCollection" where
  "initializeStorage_register self worker interfaceId =
     (let self1 = self\<lparr>recruitingStream := recruitingStream self + 1\<rparr>
      in if initializeStorage_guard self1 worker
         then self1\<lparr>recruitingIds := insert interfaceId (recruitingIds self1),
                    recruitingLocalities := insert (workerStableAddress worker) (recruitingLocalities self1)\<rparr>
         else self1)"

text \<open>
  The recruiter counts, per address, the servers whose status is \<^verbatim>\<open>excludeOnRecruit\<close>,
  and on a candidate it compares that count with 2 only to log a warning.  In each of its
  three branches it then starts \<^verbatim>\<open>initializeStorage\<close> for the candidate; the model returns
  whether the warning is logged and the \<^verbatim>\<open>recruitTss\<close> argument of that call.
\<close>

definition excludeOnRecruit :: "ServerStatus \<Rightarrow> bool" where
  "excludeOnRecruit s = (\<not> isFailed s \<and> \<not> isWrongConfiguration s)"

fun numSSPerAddr_loop :: "DDTeamCollection \<Rightarrow> (UID \<times> ref) list \<Rightarrow> AddressExclusion \<Rightarrow> int \<Rightarrow> int" where
  "numSSPerAddr_loop self [] addr n = n"
| "numSSPerAddr_loop self ((u, r) # rest) addr n =
     numSSPerAddr_loop self rest addr
       (if excludeOnRecruit (server_status_get self (ssi_id (lastKnownInterface (serverObj self r)))) \<and>
           addressExclusionOf (stableAddress (lastKnownInterface (serverObj self r))) = addr
        then n + 1 else n)"

definition storageRecruiter_candidate ::
  "DDTeamCollection \<Rightarrow> TSSPairState \<Rightarrow> int \<Rightarrow> WorkerInterface \<Rightarrow> bool \<times> bool" where
  "storageRecruiter_candidate self tssState tssToRecruit worker =
     (let hasHealthyTeam = (healthyTeamCount self \<noteq> 0);
          numExistingSS =
            numSSPerAddr_loop self (server_and_tss_info self)
              (addressExclusionOf (workerStableAddress worker)) 0;
          warned = (numExistingSS \<ge> 2)
      in if hasHealthyTeam \<and> \<not> active tssState \<and> tssToRecruit > 0 then (warned, True)
         else if active tssState \<and> inDataZone tssState (workerLocality worker) then (warned, False)
         else (warned, False))"

section \<open>Exclusion safety: \<^verbatim>\<open>_exclusionSafetyCheck\<close> and \<^verbatim>\<open>ddExclusionSafetyCheck\<close>\<close>

text \<open>\<^verbatim>\<open>std::set_intersection\<close> of two sorted ranges: a merge that keeps an element once
  for every time it occurs in both ranges.\<close>

fun set_intersection :: "'a::linorder list \<Rightarrow> 'a list \<Rightarrow> 'a list" where
  "set_intersection [] ys = []"
| "set_intersection (x # xs) [] = []"
| "set_intersection (x # xs) (y # ys) =
     (if x < y then set_intersection xs (y # ys)
      else if y < x then set_intersection (x # xs) ys
      else x # set_intersection xs ys)"

text \<open>
  The loop over the teams, with the excluded identifiers already sorted.  The difference
  of the two sizes is computed in \<^verbatim>\<open>size_t\<close>; the intersection is never longer than the
  team (lemma \<open>length_set_intersection_le\<close>), so the subtraction does not wrap.
\<close>

fun exclusionSafetyCheck_loop :: "ServerKnobs \<Rightarrow> UID list \<Rightarrow> (ref \<Rightarrow> TCTeamInfo) \<Rightarrow> ref list \<Rightarrow> bool" where
  "exclusionSafetyCheck_loop knobs excludeServerIDs mem [] = True"
| "exclusionSafetyCheck_loop knobs excludeServerIDs mem (t # ts) =
     (let teamServerIDs = sort (serverIDs (mem t));
          intersectSet = set_intersection excludeServerIDs teamServerIDs
      in if length teamServerIDs - length intersectSet < DD_EXCLUDE_MIN_REPLICAS knobs then False
         else exclusionSafetyCheck_loop knobs excludeServerIDs mem ts)"

definition exclusionSafetyCheck :: "ServerKnobs \<Rightarrow> UID list \<Rightarrow> DDTeamCollection \<Rightarrow> bool" where
  "exclusionSafetyCheck knobs excludeServerIDs teamCollection =
     exclusionSafetyCheck_loop knobs (sort excludeServerIDs) (teamObj teamCollection)
       (teams teamCollection)"

text \<open>The translation of the requested exclusions into server identifiers: for every
  exclusion, in order, every storage server one of whose addresses it excludes.
  \<^verbatim>\<open>AddressExclusion::excludes\<close> is declared outside the two source files and is a
  parameter.\<close>

fun excludedIDs_inner ::
  "(AddressExclusion \<Rightarrow> NetworkAddress \<Rightarrow> bool) \<Rightarrow> AddressExclusion \<Rightarrow> StorageServerInterface list \<Rightarrow> UID list" where
  "excludedIDs_inner excludes excl [] = []"
| "excludedIDs_inner excludes excl (ssi # ssis) =
     (if excludes excl (address ssi) \<or>
         (case secondaryAddress ssi of None \<Rightarrow> False | Some a \<Rightarrow> excludes excl a)
      then ssi_id ssi # excludedIDs_inner excludes excl ssis
      else excludedIDs_inner excludes excl ssis)"

fun excludedIDs ::
  "(AddressExclusion \<Rightarrow> NetworkAddress \<Rightarrow> bool) \<Rightarrow> AddressExclusion list \<Rightarrow> StorageServerInterface list \<Rightarrow> UID list" where
  "excludedIDs excludes [] ssis = []"
| "excludedIDs excludes (excl # excls) ssis =
     excludedIDs_inner excludes excl ssis @ excludedIDs excludes excls ssis"

text \<open>The handler; \<open>teamCollection\<close> is the distributor's pointer to the collection, null
  when absent.  The result is \<^verbatim>\<open>reply.safe\<close>.\<close>

definition ddExclusionSafetyCheck ::
  "ServerKnobs \<Rightarrow> (AddressExclusion \<Rightarrow> NetworkAddress \<Rightarrow> bool) \<Rightarrow> AddressExclusion list \<Rightarrow>
   StorageServerInterface list \<Rightarrow> DDTeamCollection option \<Rightarrow> bool" where
  "ddExclusionSafetyCheck knobs excludes exclusions ssis teamCollection =
     (case teamCollection of
        None \<Rightarrow> False
      | Some tc \<Rightarrow>
          if length (teams tc) \<le> 1 then False
          else exclusionSafetyCheck knobs (excludedIDs excludes exclusions ssis) tc)"

section \<open>Perpetual wiggle: \<^verbatim>\<open>DDTeamCollection::excludeStorageServersForWiggle\<close>\<close>

text \<open>The loop over the servers of the process.  The futures collected in
  \<^verbatim>\<open>moveFutures\<close> are the \<^verbatim>\<open>onRemoved\<close> futures of servers; the model collects the
  references of these servers.\<close>

definition wiggleAddress :: "DDTeamCollection \<Rightarrow> ref \<Rightarrow> AddressExclusion" where
  "wiggleAddress self info =
     AddressExclusion (ip (address (lastKnownInterface (serverObj self info))))
                      (port (address (lastKnownInterface (serverObj self info))))"

fun excludeStorageServersForWiggle_loop ::
  "DDTeamCollection \<Rightarrow> ref list \<Rightarrow> ref list \<Rightarrow> DDTeamCollection \<times> ref list" where
  "excludeStorageServersForWiggle_loop self [] moveFutures = (self, moveFutures)"
| "excludeStorageServersForWiggle_loop self (info # infos) moveFutures =
     (let addr = wiggleAddress self info
      in if AsyncMap_count (excludedServers self) addr \<noteq> 0 \<and> excludedServers_get self addr \<noteq> NONE
         then excludeStorageServersForWiggle_loop self infos moveFutures
         else excludeStorageServersForWiggle_loop
                (self\<lparr>wiggle_addresses := wiggle_addresses self @ [addr],
                       excludedServers := AsyncMap_set NONE (excludedServers self) addr WIGGLING\<rparr>)
                infos (moveFutures @ [info]))"

definition excludeStorageServersForWiggle ::
  "DDTeamCollection \<Rightarrow> Key \<Rightarrow> DDTeamCollection \<times> ref list" where
  "excludeStorageServersForWiggle self pid =
     (case pid2server_info self pid of
        None \<Rightarrow> (self, [])
      | Some infos \<Rightarrow>
          (case excludeStorageServersForWiggle_loop self infos [] of
             (self', moveFutures) \<Rightarrow>
               (if moveFutures \<noteq> [] then self'\<lparr>restartRecruiting := restartRecruiting self' + 1\<rparr>
                else self',
                moveFutures)))"

text \<open>The addresses (IP and port of the primary address) of the storage servers on a
  process.\<close>

definition addressesOfProcess :: "DDTeamCollection \<Rightarrow> Key \<Rightarrow> AddressExclusion set" where
  "addressesOfProcess self pid =
     (case pid2server_info self pid of
        None \<Rightarrow> {}
      | Some infos \<Rightarrow> set (map (wiggleAddress self) infos))"

section \<open>Adding a team: \<^verbatim>\<open>DDTeamCollection::addTeam\<close>\<close>

text \<open>The constructor of \<^verbatim>\<open>TCTeamInfo\<close>.\<close>

definition TCTeamInfo_new :: "ServerKnobs \<Rightarrow> (ref \<Rightarrow> TCServerInfo) \<Rightarrow> ref list \<Rightarrow> TCTeamInfo" where
  "TCTeamInfo_new knobs mem newServers =
     \<lparr>servers = newServers, serverIDs = map (\<lambda>s. uid (mem s)) newServers, healthy = True,
      wrongConfiguration = False, priority = PRIORITY_TEAM_HEALTHY knobs, machineTeam = None,
      tracker = None\<rparr>"

text \<open>
  \<^verbatim>\<open>satisfiesPolicy\<close>.  The replication policy evaluator is an external collaborator: the
  parameter \<open>selectReplicas\<close> stands for
  \<^verbatim>\<open>storageServerSet->selectReplicas(configuration.storagePolicy, forcedEntries, resultEntries)\<close>
  and returns the result flag together with \<^verbatim>\<open>resultEntries\<close>.  An \<open>amount\<close> of \<open>-1\<close> is
  the whole team.
\<close>

definition satisfiesPolicy ::
  "(nat list \<Rightarrow> bool \<times> nat list) \<Rightarrow> (ref \<Rightarrow> TCServerInfo) \<Rightarrow> ref list \<Rightarrow> int \<Rightarrow> bool" where
  "satisfiesPolicy selectReplicas mem team amount =
     (let amount' = (if amount = -1 then int (length team) else amount);
          forcedEntries = map (\<lambda>s. localityEntry (mem s)) (take (nat amount') team)
      in case selectReplicas forcedEntries of
           (result, resultEntries) \<Rightarrow> result \<and> length resultEntries = 0)"

definition findMachineTeam :: "DDTeamCollection \<Rightarrow> Key list \<Rightarrow> Error + ref option" where
  "findMachineTeam self ids =
     (case ids of
        [] \<Rightarrow> Inr None
      | mid # rest \<Rightarrow>
          (case map_get (map_of (machine_info self)) mid of
             Inl e \<Rightarrow> Inl e
           | Inr m \<Rightarrow>
               Inr (find (\<lambda>mt. machineIDs (machineTeamObj self mt) = ids)
                      (TCMachineInfo.machineTeams (machineObj self m)))))"

fun addMachineTeam_assign :: "(ref \<Rightarrow> TCMachineInfo) \<Rightarrow> ref list \<Rightarrow> ref \<Rightarrow> (ref \<Rightarrow> TCMachineInfo)" where
  "addMachineTeam_assign mem [] mt = mem"
| "addMachineTeam_assign mem (m # ms) mt =
     addMachineTeam_assign (mem(m := (mem m)\<lparr>TCMachineInfo.machineTeams := TCMachineInfo.machineTeams (mem m) @ [mt]\<rparr>)) ms mt"

text \<open>\<^verbatim>\<open>addMachineTeam\<close> of a vector of machines; the new object takes the next free
  reference.\<close>

definition addMachineTeam :: "DDTeamCollection \<Rightarrow> ref list \<Rightarrow> DDTeamCollection \<times> ref" where
  "addMachineTeam self ms =
     (let r = nextRef self;
          machineTeamInfo =
            \<lparr>machines = ms, machineIDs = sort (map (\<lambda>m. machineID (machineObj self m)) ms),
             serverTeams = []\<rparr>
      in (self\<lparr>nextRef := r + 1,
               machineTeamObj := (machineTeamObj self)(r := machineTeamInfo),
               machineTeams := machineTeams self @ [r],
               machineObj := addMachineTeam_assign (machineObj self) ms r\<rparr>, r))"

text \<open>\<^verbatim>\<open>addMachineTeam\<close> of a range of machine identifiers: the identifiers that are not in
  the registry are skipped.\<close>

definition addMachineTeam_ids :: "DDTeamCollection \<Rightarrow> Key list \<Rightarrow> DDTeamCollection \<times> ref" where
  "addMachineTeam_ids self ids = addMachineTeam self (List.map_filter (map_of (machine_info self)) ids)"

fun addTeam_assign :: "(ref \<Rightarrow> TCServerInfo) \<Rightarrow> ref list \<Rightarrow> ref \<Rightarrow> (ref \<Rightarrow> TCServerInfo)" where
  "addTeam_assign mem [] t = mem"
| "addTeam_assign mem (s # ss) t =
     addTeam_assign (mem(s := (mem s)\<lparr>TCServerInfo.teams := TCServerInfo.teams (mem s) @ [t]\<rparr>)) ss t"

fun addTeam_machineIDs :: "DDTeamCollection \<Rightarrow> ref list \<Rightarrow> Error + Key list" where
  "addTeam_machineIDs self [] = Inr []"
| "addTeam_machineIDs self (s # ss) =
     (case machine (serverObj self s) of
        None \<Rightarrow> Inl invalid_reference
      | Some m \<Rightarrow>
          (case addTeam_machineIDs self ss of
             Inl e \<Rightarrow> Inl e
           | Inr ids \<Rightarrow> Inr (machineID (machineObj self m) # ids)))"

text \<open>
  The second half of \<^verbatim>\<open>addTeam\<close>, for a team that is not bad: find the machine team of
  the sorted machine identifiers of the members, create it when it does not exist, and
  link the team and its machine team.  \<open>r\<close> is the reference of the new team.
\<close>

definition addTeam_findOrCreate ::
  "DDTeamCollection \<Rightarrow> Key list \<Rightarrow> ref option \<Rightarrow> DDTeamCollection \<times> ref option" where
  "addTeam_findOrCreate self ids found =
     (if found = None \<and> ids \<noteq> []
      then (case addMachineTeam_ids self ids of (s, m) \<Rightarrow> (s, Some m))
      else (self, found))"

definition addTeam_link :: "DDTeamCollection \<Rightarrow> ref \<Rightarrow> ref option \<Rightarrow> DDTeamCollection \<times> Error option" where
  "addTeam_link self r machineTeamInfo =
     (case machineTeamInfo of
        None \<Rightarrow> (self, Some invalid_reference)
      | Some m \<Rightarrow>
          (self\<lparr>teamObj := (teamObj self)(r := (teamObj self r)\<lparr>machineTeam := Some m\<rparr>),
                machineTeamObj :=
                  (machineTeamObj self)
                    (m := (machineTeamObj self m)
                       \<lparr>serverTeams := serverTeams (machineTeamObj self m) @ [r]\<rparr>)\<rparr>,
           None))"

definition addTeam_machineTeam ::
  "DDTeamCollection \<Rightarrow> ref \<Rightarrow> ref list \<Rightarrow> bool \<Rightarrow> DDTeamCollection \<times> Error option" where
  "addTeam_machineTeam self r newTeamServers isInitialTeam =
     (case addTeam_machineIDs self newTeamServers of
        Inl e \<Rightarrow> (self, Some e)
      | Inr ids \<Rightarrow>
          (case findMachineTeam self (sort ids) of
             Inl e \<Rightarrow> (self, Some e)
           | Inr found \<Rightarrow>
               if \<not> (isInitialTeam \<or> found \<noteq> None) then (self, Some internal_error)
               else (case addTeam_findOrCreate self (sort ids) found of
                       (self3, machineTeamInfo) \<Rightarrow> addTeam_link self3 r machineTeamInfo)))"

text \<open>
  \<^verbatim>\<open>addTeam\<close> of a vector of servers.  The result is the collection when the function
  returns or throws, and the error thrown, if any.  The team tracker that is started for
  the new team is kept as its arguments; what the tracker itself does to the collection
  is outside this function.
\<close>

definition addTeam ::
  "ServerKnobs \<Rightarrow> (nat list \<Rightarrow> bool \<times> nat list) \<Rightarrow> DDTeamCollection \<Rightarrow> ref list \<Rightarrow> bool \<Rightarrow> bool \<Rightarrow>
   DDTeamCollection \<times> Error option" where
  "addTeam knobs selectReplicas self newTeamServers isInitialTeam redundantTeam =
     (let r = nextRef self;
          teamInfo = TCTeamInfo_new knobs (serverObj self) newTeamServers;
          self0 = self\<lparr>nextRef := r + 1, teamObj := (teamObj self)(r := teamInfo)\<rparr>
      in case TCTeamInfo_size teamInfo of
           Inl e \<Rightarrow> (self0, Some e)
         | Inr sz \<Rightarrow>
             let badTeam = (redundantTeam \<or> sz \<noteq> storageTeamSize (configuration self) \<or>
                            \<not> satisfiesPolicy selectReplicas (serverObj self) (servers teamInfo) (-1));
                 self1 = self0\<lparr>teamObj := (teamObj self0)(r := teamInfo\<lparr>tracker := Some (badTeam, redundantTeam)\<rparr>)\<rparr>
             in if badTeam then (self1\<lparr>badTeams := badTeams self1 @ [r]\<rparr>, None)
                else addTeam_machineTeam
                       (self1\<lparr>teams := teams self1 @ [r],
                              serverObj := addTeam_assign (serverObj self1) newTeamServers r\<rparr>)
                       r newTeamServers isInitialTeam)"

section \<open>Server removal: \<^verbatim>\<open>waitForAllDataRemoved\<close> and \<^verbatim>\<open>storageServerFailureTracker\<close>\<close>

text \<open>
  \<^verbatim>\<open>waitForAllDataRemoved\<close> polls the database in a loop.  What the outside answers in one
  pass of the loop is a \<open>Poll\<close>: the read version (\<open>None\<close> when \<^verbatim>\<open>getReadVersion\<close>
  throws), the answer of \<^verbatim>\<open>canRemoveStorageServer\<close> (\<open>None\<close> when it throws), the value of
  \<^verbatim>\<open>getNumberOfShards(serverID)\<close>, and whether \<^verbatim>\<open>tr->onError\<close> rethrows the error it is
  given.  The loop runs on the polls it is given; \<open>Waiting\<close> is the actor that has not
  finished after them.
\<close>

record Poll =
  readVersion :: "Version option"
  canRemove :: "bool option"
  numberOfShards :: int
  onErrorRethrows :: bool

datatype WaitResult = Returned | Thrown Error | Waiting

fun waitForAllDataRemoved :: "ServerKnobs \<Rightarrow> Version \<Rightarrow> Poll list \<Rightarrow> WaitResult" where
  "waitForAllDataRemoved knobs addedVer [] = Waiting"
| "waitForAllDataRemoved knobs addedVer (p # ps) =
     (case readVersion p of
        None \<Rightarrow>
          if onErrorRethrows p then Thrown transaction_error
          else waitForAllDataRemoved knobs addedVer ps
      | Some ver \<Rightarrow>
          if ver > addedVer + MAX_READ_TRANSACTION_LIFE_VERSIONS knobs then
            (case canRemove p of
               None \<Rightarrow>
                 if onErrorRethrows p then Thrown transaction_error
                 else waitForAllDataRemoved knobs addedVer ps
             | Some can \<Rightarrow>
                 if \<not> numberOfShards p \<ge> 0 then
                   (if onErrorRethrows p then Thrown internal_error
                    else waitForAllDataRemoved knobs addedVer ps)
                 else if can \<and> numberOfShards p = 0 then Returned
                 else waitForAllDataRemoved knobs addedVer ps)
          else waitForAllDataRemoved knobs addedVer ps)"

text \<open>A poll at which the server is drained and its added version has aged.\<close>

definition drainedAndAged :: "ServerKnobs \<Rightarrow> Version \<Rightarrow> Poll \<Rightarrow> bool" where
  "drainedAndAged knobs addedVer p =
     (case readVersion p of
        None \<Rightarrow> False
      | Some ver \<Rightarrow>
          ver > addedVer + MAX_READ_TRANSACTION_LIFE_VERSIONS knobs \<and>
          canRemove p = Some True \<and> numberOfShards p = 0)"

text \<open>A poll after which the loop goes round again.\<close>

definition pollAgain :: "ServerKnobs \<Rightarrow> Version \<Rightarrow> Poll \<Rightarrow> bool" where
  "pollAgain knobs addedVer p =
     (waitForAllDataRemoved knobs addedVer [p] = Waiting)"

text \<open>
  One round of the loop of \<^verbatim>\<open>storageServerFailureTracker\<close>.  The round updates the status
  of the server and the collection, then waits in \<^verbatim>\<open>choose\<close> for one of three futures.
  The event is the future that fires, with what the outside supplies for it: the polls
  answered to the \<^verbatim>\<open>waitForAllDataRemoved\<close> started in this round, or the new value of
  the healthy zone.  An event whose future is not ready (\<^verbatim>\<open>Never()\<close>, or an actor still
  waiting) is \<open>NotEnabled\<close>.  \<open>ignoreZone\<close> is \<^verbatim>\<open>ignoreSSFailuresZoneString\<close>, a constant
  declared outside the two source files.
\<close>

datatype TrackerEvent = HealthChanged | AllDataRemoved "Poll list" | HealthyZoneChanged "Key option"

datatype TrackerStep =
  Continue DDTeamCollection ServerStatus
  | Break DDTeamCollection ServerStatus
  | Throw Error
  | NotEnabled

definition failureTracker_enter ::
  "Key \<Rightarrow> DDTeamCollection \<Rightarrow> StorageServerInterface \<Rightarrow> ServerStatus \<Rightarrow>
   DDTeamCollection \<times> ServerStatus \<times> bool" where
  "failureTracker_enter ignoreZone self interf status =
     (let inZone =
            (case healthyZone self of
               None \<Rightarrow> False
             | Some z \<Rightarrow> zoneId interf = healthyZone self \<or> z = ignoreZone);
          status1 = (if inZone then status\<lparr>isFailed := False\<rparr> else status);
          old = server_status_get self (ssi_id interf);
          self1 =
            (if \<not> isTss interf then
               (if initialized old then
                  (let u1 = (if isUnhealthy old \<and> \<not> isUnhealthy status1
                             then unhealthyServers self - 1 else unhealthyServers self);
                       u2 = (if \<not> isUnhealthy old \<and> isUnhealthy status1 then u1 + 1 else u1)
                   in self\<lparr>unhealthyServers := u2\<rparr>)
                else if isUnhealthy status1 then self\<lparr>unhealthyServers := unhealthyServers self + 1\<rparr>
                else self)
             else self);
          self2 = self1\<lparr>server_status :=
                          AsyncMap_set ServerStatus_default (server_status self1) (ssi_id interf) status1\<rparr>;
          self3 = (if isFailed status1 then self2\<lparr>restartRecruiting := restartRecruiting self2 + 1\<rparr>
                   else self2)
      in (self3, status1, inZone))"

definition failureTracker_healthChanged ::
  "ServerKnobs \<Rightarrow> Key \<Rightarrow> DDTeamCollection \<Rightarrow> ref \<Rightarrow> ServerStatus \<Rightarrow> DDTeamCollection \<times> ServerStatus" where
  "failureTracker_healthChanged knobs ignoreZone self server status =
     (let targetTeamNumPerServer =
            (DESIRED_TEAMS_PER_SERVER knobs * (storageTeamSize (configuration self) + 1)) sdiv 2;
          status1 = status\<lparr>isFailed := \<not> isFailed status\<rparr>;
          self1 =
            (if \<not> isFailed status1 \<and> \<not> isTss (lastKnownInterface (serverObj self server)) \<and>
                (int (length (TCServerInfo.teams (serverObj self server))) < targetTeamNumPerServer \<or>
                 lastBuildTeamsFailed self)
             then self\<lparr>doBuildTeams := True\<rparr> else self)
      in case healthyZone self1 of
           None \<Rightarrow> (self1, status1)
         | Some z \<Rightarrow>
             if isFailed status1 then
               (if z = ignoreZone then (self1, status1\<lparr>isFailed := False\<rparr>)
                else if clearHealthyZoneFuture_isReady self1
                  then (self1\<lparr>clearHealthyZoneFuture_isReady := False, healthyZone := None\<rparr>, status1)
                else (self1, status1))
             else (self1, status1))"

definition storageServerFailureTracker_round ::
  "ServerKnobs \<Rightarrow> Key \<Rightarrow> DDTeamCollection \<Rightarrow> ref \<Rightarrow> StorageServerInterface \<Rightarrow> ServerStatus \<Rightarrow>
   Version \<Rightarrow> TrackerEvent \<Rightarrow> TrackerStep" where
  "storageServerFailureTracker_round knobs ignoreZone self server interf status addedVer ev =
     (case failureTracker_enter ignoreZone self interf status of
        (self1, status1, inZone) \<Rightarrow>
          if isFailed status1 \<and> inZone then Throw internal_error
          else
            (case ev of
               HealthChanged \<Rightarrow>
                 if isFailed status1 \<or> \<not> inZone
                 then (case failureTracker_healthChanged knobs ignoreZone self1 server status1 of
                         (self2, status2) \<Rightarrow> Continue self2 status2)
                 else NotEnabled
             | AllDataRemoved polls \<Rightarrow>
                 if isUnhealthy status1 then
                   (case waitForAllDataRemoved knobs addedVer polls of
                      Returned \<Rightarrow> Break self1 status1
                    | Thrown e \<Rightarrow> Throw e
                    | Waiting \<Rightarrow> NotEnabled)
                 else NotEnabled
             | HealthyZoneChanged z \<Rightarrow> Continue (self1\<lparr>healthyZone := z\<rparr>) status1))"

text \<open>The tracker over a sequence of events; it returns when a round breaks out of the
  loop.  \<open>None\<close> is the tracker that is still in its loop after the events.\<close>

datatype TrackerResult = TrackerReturned DDTeamCollection ServerStatus | TrackerThrew Error

fun storageServerFailureTracker ::
  "ServerKnobs \<Rightarrow> Key \<Rightarrow> DDTeamCollection \<Rightarrow> ref \<Rightarrow> StorageServerInterface \<Rightarrow> ServerStatus \<Rightarrow>
   Version \<Rightarrow> TrackerEvent list \<Rightarrow> TrackerResult option" where
  "storageServerFailureTracker knobs ignoreZone self server interf status addedVer [] = None"
| "storageServerFailureTracker knobs ignoreZone self server interf status addedVer (ev # evs) =
     (case storageServerFailureTracker_round knobs ignoreZone self server interf status addedVer ev of
        Continue self' status' \<Rightarrow>
          storageServerFailureTracker knobs ignoreZone self' server interf status' addedVer evs
      | Break self' status' \<Rightarrow> Some (TrackerReturned self' status')
      | Throw e \<Rightarrow> Some (TrackerThrew e)
      | NotEnabled \<Rightarrow> storageServerFailureTracker knobs ignoreZone self server interf status addedVer evs)"

section \<open>Server tracker: \<^verbatim>\<open>storageServerTracker\<close>\<close>

subsection \<open>Adding a server: \<^verbatim>\<open>DDTeamCollection::addServer\<close>\<close>

text \<open>Assignment to an entry of a \<^verbatim>\<open>std::map\<close> that the code iterates over, and \<^verbatim>\<open>erase\<close>;
  the association list stays in key order.\<close>

fun map_set :: "('k::linorder \<times> 'v) list \<Rightarrow> 'k \<Rightarrow> 'v \<Rightarrow> ('k \<times> 'v) list" where
  "map_set [] k v = [(k, v)]"
| "map_set ((k', v') # m) k v =
     (if k < k' then (k, v) # (k', v') # m
      else if k = k' then (k, v) # m
      else (k', v') # map_set m k v)"

definition map_erase :: "('k \<times> 'v) list \<Rightarrow> 'k \<Rightarrow> ('k \<times> 'v) list" where
  "map_erase m k = filter (\<lambda>(k', v). k' \<noteq> k) m"

definition shouldHandleServer :: "DDTeamCollection \<Rightarrow> StorageServerInterface \<Rightarrow> bool" where
  "shouldHandleServer self newServer =
     (includedDCs self = [] \<or> ssi_dcId newServer \<in> set (includedDCs self) \<or>
      (case otherTrackedDCs self of
         None \<Rightarrow> False
       | Some dcs \<Rightarrow> ssi_dcId newServer \<notin> set dcs))"

text \<open>
  The constructor of \<^verbatim>\<open>TCServerInfo\<close> (source lines 99 to 113).  The future
  \<open>onTSSPairRemoved\<close> starts as \<^verbatim>\<open>Never()\<close> and no promise is sent.  \<open>entry\<close> is the
  \<^verbatim>\<open>localityEntry\<close> of the new object: what \<^verbatim>\<open>storageServerSet->add\<close> returns for a storage
  server, and the default entry for a test storage server; both are declared outside
  the two source files.
\<close>

definition TCServerInfo_new ::
  "StorageServerInterface \<Rightarrow> nat \<Rightarrow> bool \<Rightarrow> nat \<Rightarrow> Version \<Rightarrow> TCServerInfo" where
  "TCServerInfo_new ssi processClass inDC entry addedVer =
     \<lparr>uid = ssi_id ssi, addedVersion = addedVer, lastKnownInterface = ssi,
      lastKnownClass = processClass, teams = [], machine = None, tracker = None,
      dataInFlightToServer = 0, serverMetrics = None, removed = False, onTSSPairRemoved = None,
      killTss = False, inDesiredDC = inDC, localityEntry = entry,
      wrongStoreTypeToRemove = False, ssVersionTooFarBehind = False\<rparr>"

text \<open>\<^verbatim>\<open>checkAndCreateMachine\<close>: the machine of the server's zone is created with the next
  free reference when the registry does not hold it.  \<^verbatim>\<open>get()\<close> of an \<^verbatim>\<open>Optional\<close> that is
  not present fails like an assertion.\<close>

definition checkAndCreateMachine :: "DDTeamCollection \<Rightarrow> ref \<Rightarrow> DDTeamCollection \<times> Error option" where
  "checkAndCreateMachine self server =
     (if server_info self (uid (serverObj self server)) = None then (self, Some internal_error)
      else
        (case zoneId (lastKnownInterface (serverObj self server)) of
           None \<Rightarrow> (self, Some internal_error)
         | Some machine_id \<Rightarrow>
             (case map_of (machine_info self) machine_id of
                None \<Rightarrow>
                  (let m = nextRef self;
                       machineInfo =
                         \<lparr>serversOnMachine = [server], machineID = machine_id, machineTeams = []\<rparr>;
                       self1 = self\<lparr>nextRef := m + 1,
                                    machineObj := (machineObj self)(m := machineInfo),
                                    machine_info := map_set (machine_info self) machine_id m\<rparr>
                   in (self1\<lparr>serverObj :=
                               (serverObj self1)(server := (serverObj self1 server)\<lparr>machine := Some m\<rparr>)\<rparr>,
                       None))
              | Some m \<Rightarrow>
                  (let self1 =
                         self\<lparr>machineObj :=
                                (machineObj self)
                                  (m := (machineObj self m)
                                     \<lparr>serversOnMachine := serversOnMachine (machineObj self m) @ [server]\<rparr>)\<rparr>
                   in (self1\<lparr>serverObj :=
                               (serverObj self1)(server := (serverObj self1 server)\<lparr>machine := Some m\<rparr>)\<rparr>,
                       None)))))"

text \<open>
  The branch of \<^verbatim>\<open>addServer\<close> for a test storage server (source lines 2517 to 2522 and
  2533): the new object \<open>r\<close> is registered under its pair, waits for the removal of the
  pair when the pair is a known server, and its tracker is started.
\<close>

definition addServer_tss ::
  "DDTeamCollection \<Rightarrow> StorageServerInterface \<Rightarrow> ref \<Rightarrow> DDTeamCollection \<times> Error option" where
  "addServer_tss self newServer r =
     (case tssPairID newServer of
        None \<Rightarrow> (self, Some internal_error)
      | Some pair \<Rightarrow>
          (let self1 = self\<lparr>tss_info_by_pair := map_set (tss_info_by_pair self) pair r\<rparr>;
               self2 =
                 (case server_info self1 pair of
                    None \<Rightarrow> self1
                  | Some p \<Rightarrow>
                      self1\<lparr>serverObj :=
                              (serverObj self1)(r := (serverObj self1 r)\<lparr>onTSSPairRemoved := Some p\<rparr>)\<rparr>)
           in (self2\<lparr>serverObj :=
                       (serverObj self2)(r := (serverObj self2 r)\<lparr>TCServerInfo.tracker := Some (isTss newServer)\<rparr>)\<rparr>,
               None)))"

text \<open>
  The branch of \<^verbatim>\<open>addServer\<close> for a storage server (source lines 2524 to 2549): the new
  object \<open>r\<close> is registered, attached to its machine and its process, its tracker is
  started, and the test storage server paired with it, if there is one, now waits for the
  removal of \<open>r\<close>.  The promise \<^verbatim>\<open>wakeUpTracker\<close> that is sent to
  that tracker is not part of the model.
\<close>

definition addServer_storage ::
  "DDTeamCollection \<Rightarrow> StorageServerInterface \<Rightarrow> ref \<Rightarrow> DDTeamCollection \<times> Error option" where
  "addServer_storage self newServer r =
     (let self1 = self\<lparr>server_info := (server_info self)(ssi_id newServer \<mapsto> r)\<rparr>
      in case checkAndCreateMachine self1 r of
           (self2, Some e) \<Rightarrow> (self2, Some e)
         | (self2, None) \<Rightarrow>
             (case processId (lastKnownInterface (serverObj self2 r)) of
                None \<Rightarrow> (self2, Some internal_error)
              | Some pid \<Rightarrow>
                  (let self3 =
                         self2\<lparr>pid2server_info :=
                                 (pid2server_info self2)
                                   (pid \<mapsto> (case pid2server_info self2 pid of
                                                None \<Rightarrow> []
                                              | Some infos \<Rightarrow> infos) @ [r])\<rparr>;
                       self4 =
                         self3\<lparr>serverObj :=
                                 (serverObj self3)
                                   (r := (serverObj self3 r)
                                      \<lparr>TCServerInfo.tracker := Some (isTss newServer)\<rparr>)\<rparr>;
                       self5 =
                         (case map_of (tss_info_by_pair self4) (ssi_id newServer) of
                            None \<Rightarrow> self4
                          | Some t \<Rightarrow>
                              self4\<lparr>serverObj :=
                                      (serverObj self4)
                                        (t := (serverObj self4 t)\<lparr>onTSSPairRemoved := Some r\<rparr>)\<rparr>)
                   in (self5\<lparr>doBuildTeams := True,
                              restartTeamBuilder := restartTeamBuilder self5 + 1\<rparr>,
                       None))))"

text \<open>\<^verbatim>\<open>addServer\<close>.  The result is the collection when the function returns or throws,
  and the error thrown, if any.  The new object takes the next free reference.\<close>

definition addServer ::
  "DDTeamCollection \<Rightarrow> StorageServerInterface \<Rightarrow> nat \<Rightarrow> nat \<Rightarrow> Version \<Rightarrow>
   DDTeamCollection \<times> Error option" where
  "addServer self newServer processClass entry addedVer =
     (if \<not> shouldHandleServer self newServer then (self, None)
      else
        (let self1 =
               (if \<not> isTss newServer
                then self\<lparr>allServers := allServers self @ [ssi_id newServer]\<rparr> else self);
             r = nextRef self1;
             info =
               TCServerInfo_new newServer processClass
                 (includedDCs self1 = [] \<or> ssi_dcId newServer \<in> set (includedDCs self1))
                 entry addedVer;
             self2 =
               self1\<lparr>nextRef := r + 1,
                      serverObj := (serverObj self1)(r := info),
                      server_and_tss_info :=
                        map_set (server_and_tss_info self1) (ssi_id newServer) r\<rparr>
         in if isTss newServer then addServer_tss self2 newServer r
            else addServer_storage self2 newServer r))"

text \<open>\<^verbatim>\<open>removeTSS\<close>.  \<^verbatim>\<open>server_status.clear\<close> sets the entry to the default status, which
  erases it.  Looking up a server that is not registered yields a null reference, and
  the function crashes on it.\<close>

definition removeTSS :: "DDTeamCollection \<Rightarrow> UID \<Rightarrow> DDTeamCollection \<times> Error option" where
  "removeTSS self removedServer =
     (case map_of (server_and_tss_info self) removedServer of
        None \<Rightarrow> (self, Some invalid_reference)
      | Some removedServerInfo \<Rightarrow>
          (case tssPairID (lastKnownInterface (serverObj self removedServerInfo)) of
             None \<Rightarrow> (self, Some internal_error)
           | Some pair \<Rightarrow>
               (self\<lparr>tss_info_by_pair := map_erase (tss_info_by_pair self) pair,
                      server_and_tss_info := map_erase (server_and_tss_info self) removedServer,
                      server_status :=
                        AsyncMap_set ServerStatus_default (server_status self) removedServer
                          ServerStatus_default\<rparr>,
                None)))"

subsection \<open>Killing test storage servers: the recruiter\<close>

text \<open>
  The loop of \<^verbatim>\<open>storageRecruiter\<close> that kills test storage servers (source lines 5466 to
  5483): it walks the first \<^verbatim>\<open>tssToKill\<close> entries of \<^verbatim>\<open>tss_info_by_pair\<close> and sends the
  promise \<^verbatim>\<open>killTss\<close> of each, when it can still be set.
\<close>

fun storageRecruiter_killLoop :: "DDTeamCollection \<Rightarrow> (UID \<times> ref) list \<Rightarrow> nat \<Rightarrow> DDTeamCollection" where
  "storageRecruiter_killLoop self itr 0 = self"
| "storageRecruiter_killLoop self [] (Suc n) = self"
| "storageRecruiter_killLoop self ((pair, r) # itr) (Suc n) =
     (let tssId = uid (serverObj self r);
          tssi = lastKnownInterface (serverObj self r);
          self1 =
            (if shouldHandleServer self tssi \<and> map_of (server_and_tss_info self) tssId \<noteq> None \<and>
                \<not> killTss (serverObj self r)
             then self\<lparr>serverObj := (serverObj self)(r := (serverObj self r)\<lparr>killTss := True\<rparr>)\<rparr>
             else self)
      in storageRecruiter_killLoop self1 itr n)"

text \<open>The number of test storage servers to kill (source line 5451) and the branch
  \<^verbatim>\<open>else if (tssToKill > 0)\<close>; \<open>tssToRecruit\<close> is a local variable of the recruiter.\<close>

definition storageRecruiter_killTss :: "DDTeamCollection \<Rightarrow> int \<Rightarrow> DDTeamCollection" where
  "storageRecruiter_killTss self tssToRecruit =
     (let tssToKill = min (int (length (tss_info_by_pair self)))
                          (max (- tssToRecruit) (if zeroHealthyTeams self then 1 else 0))
      in if tssToKill > 0
         then storageRecruiter_killLoop self (tss_info_by_pair self) (nat tssToKill)
         else self)"

subsection \<open>One pass of the tracker's loop\<close>

text \<open>
  What the tracker reads through code that is declared outside the two source files:
  \<^verbatim>\<open>isValidLocality\<close> asks the replication policy for its attribute keys, and
  \<^verbatim>\<open>machineClassFitness(ProcessClass::Storage)\<close> and \<^verbatim>\<open>ProcessClass::UnsetFit\<close> belong to
  \<^verbatim>\<open>ProcessClass\<close>.
\<close>

record TrackerFunctions =
  isValidLocality :: "StorageServerInterface \<Rightarrow> bool"
  machineClassFitness :: "nat \<Rightarrow> nat"
  UnsetFit :: nat

definition isCorrectDC :: "DDTeamCollection \<Rightarrow> ref \<Rightarrow> bool" where
  "isCorrectDC self server =
     (includedDCs self = [] \<or>
      ssi_dcId (lastKnownInterface (serverObj self server)) \<in> set (includedDCs self))"

text \<open>The loop over \<^verbatim>\<open>server_and_tss_info\<close> (source lines 4555 to 4586): another healthy
  server on the same address with at least as many shards makes this server undesired.
  The promises \<^verbatim>\<open>wakeUpTracker\<close> that the loop collects are not part of the model.\<close>

fun storageServerTracker_sameAddress ::
  "DDTeamCollection \<Rightarrow> ref \<Rightarrow> (UID \<times> ref) list \<Rightarrow> bool \<Rightarrow> bool" where
  "storageServerTracker_sameAddress self server [] undesired = undesired"
| "storageServerTracker_sameAddress self server ((u, r) # rest) undesired =
     storageServerTracker_sameAddress self server rest
       (if r \<noteq> server \<and>
           address (lastKnownInterface (serverObj self r)) =
             address (lastKnownInterface (serverObj self server)) \<and>
           \<not> isUnhealthy (server_status_get self (uid (serverObj self r))) \<and>
           getNumberOfShards (shardsAffectedByTeamFailure self) (uid (serverObj self r)) \<ge>
             getNumberOfShards (shardsAffectedByTeamFailure self) (uid (serverObj self server))
        then True else undesired)"

text \<open>The status flags the pass sets before it looks at the exclusions (source lines
  4543 to 4623); \<^verbatim>\<open>isFailed\<close> is left as the failure tracker set it.\<close>

definition storageServerTracker_requirements ::
  "TrackerFunctions \<Rightarrow> DDTeamCollection \<Rightarrow> ref \<Rightarrow> ServerStatus \<Rightarrow> ServerStatus" where
  "storageServerTracker_requirements fns self server status =
     (let s = serverObj self server;
          status0 = status\<lparr>isUndesired := \<not> disableFailingLaggingServers self \<and> ssVersionTooFarBehind s,
                          isWrongConfiguration := False, isWiggling := False\<rparr>;
          hasWrongDC = \<not> isCorrectDC self server;
          hasInvalidLocality = \<not> isValidLocality fns (lastKnownInterface s);
          status1 = status0\<lparr>isUndesired :=
                      storageServerTracker_sameAddress self server (server_and_tss_info self)
                        (isUndesired status0)\<rparr>;
          status2 = (if machineClassFitness fns (lastKnownClass s) > UnsetFit fns \<and>
                        optimalTeamCount self > 0
                     then status1\<lparr>isUndesired := True\<rparr> else status1);
          status3 = (if hasWrongDC \<or> hasInvalidLocality
                     then status2\<lparr>isUndesired := True, isWrongConfiguration := True\<rparr> else status2)
      in if wrongStoreTypeToRemove s
         then status3\<lparr>isUndesired := True, isWrongConfiguration := True\<rparr> else status3)"

text \<open>The values of \<^verbatim>\<open>enum class Status\<close>, which the pass compares.\<close>

fun Status_value :: "Status \<Rightarrow> nat" where
  "Status_value NONE = 0"
| "Status_value WIGGLING = 1"
| "Status_value EXCLUDED = 2"
| "Status_value FAILED = 3"

text \<open>An exclusion of a whole address, \<^verbatim>\<open>AddressExclusion(ip)\<close>, has port 0; the type is
  declared outside the two source files.\<close>

definition AddressExclusion_ip :: "nat \<Rightarrow> AddressExclusion" where
  "AddressExclusion_ip i = AddressExclusion i 0"

definition invalidWiggleServer :: "DDTeamCollection \<Rightarrow> ref \<Rightarrow> bool" where
  "invalidWiggleServer tc server =
     (processId (lastKnownInterface (serverObj tc server)) \<noteq> wigglingPid tc)"

text \<open>The status of one address of the server; a wiggling status that is not for the
  wiggling process is reset to \<open>NONE\<close> in the exclusion map.\<close>

definition storageServerTracker_testStatus ::
  "DDTeamCollection \<Rightarrow> ref \<Rightarrow> AddressExclusion \<Rightarrow> DDTeamCollection \<times> Status" where
  "storageServerTracker_testStatus self server addr =
     (if excludedServers_get self addr = WIGGLING \<and> invalidWiggleServer self server
      then (self\<lparr>excludedServers := AsyncMap_set NONE (excludedServers self) addr NONE\<rparr>, NONE)
      else (self, excludedServers_get self addr))"

text \<open>The addresses that the loop \<^verbatim>\<open>for (int i = 0; i < 3; i++)\<close> tests.\<close>

definition storageServerTracker_testAddrs :: "StorageServerInterface \<Rightarrow> AddressExclusion list" where
  "storageServerTracker_testAddrs ssi =
     AddressExclusion_ip (ip (address ssi)) #
     (case secondaryAddress ssi of
        None \<Rightarrow> []
      | Some a \<Rightarrow> [AddressExclusion (ip a) (port a), AddressExclusion_ip (ip a)])"

fun storageServerTracker_worse ::
  "DDTeamCollection \<Rightarrow> ref \<Rightarrow> AddressExclusion list \<Rightarrow> Status \<times> AddressExclusion \<Rightarrow>
   DDTeamCollection \<times> Status \<times> AddressExclusion" where
  "storageServerTracker_worse self server [] worst = (self, worst)"
| "storageServerTracker_worse self server (testAddr # rest) (worstStatus, worstAddr) =
     (case storageServerTracker_testStatus self server testAddr of
        (self1, testStatus) \<Rightarrow>
          storageServerTracker_worse self1 server rest
            (if Status_value testStatus > Status_value worstStatus then (testStatus, testAddr)
             else (worstStatus, worstAddr)))"

text \<open>The worst exclusion status of the addresses of the server (source lines 4632 to
  4674).\<close>

definition storageServerTracker_worstStatus ::
  "DDTeamCollection \<Rightarrow> ref \<Rightarrow> DDTeamCollection \<times> Status \<times> AddressExclusion" where
  "storageServerTracker_worstStatus self server =
     (let ssi = lastKnownInterface (serverObj self server);
          worstAddr = AddressExclusion (ip (address ssi)) (port (address ssi))
      in case storageServerTracker_testStatus self server worstAddr of
           (self1, worstStatus) \<Rightarrow>
             storageServerTracker_worse self1 server (storageServerTracker_testAddrs ssi)
               (worstStatus, worstAddr))"

text \<open>
  The pass from the top of the loop to the start of the failure tracker (source lines
  4543 to 4703).  \<open>isTssArg\<close> is the argument \<^verbatim>\<open>isTss\<close> of the tracker and \<open>ddEnabled\<close> are
  the answers of \<^verbatim>\<open>ddEnabledState->isDDEnabled()\<close> to the loop that waits for it.  The
  pass goes on to track the server with the status it computed (\<open>Tracking\<close>), or it sends
  the server to \<^verbatim>\<open>removeFailedServer\<close>, when that promise can still be set, and throws
  \<^verbatim>\<open>movekeys_conflict\<close> (\<open>Conflict\<close>), or it is still waiting for the data distribution to
  be enabled (\<open>Disabled\<close>).  Between the start of the failure tracker and the \<^verbatim>\<open>choose\<close> the
  pass only triggers the recruitment and the team builder (source lines 4707 to 4715);
  that is not part of the model.
\<close>

datatype TrackerEntry =
  Tracking DDTeamCollection ServerStatus
  | Conflict DDTeamCollection
  | Disabled DDTeamCollection

definition storageServerTracker_enter ::
  "TrackerFunctions \<Rightarrow> DDTeamCollection \<Rightarrow> ref \<Rightarrow> bool \<Rightarrow> ServerStatus \<Rightarrow> bool list \<Rightarrow> TrackerEntry" where
  "storageServerTracker_enter fns self server isTssArg status ddEnabled =
     (let status4 = storageServerTracker_requirements fns self server status
      in case storageServerTracker_worstStatus self server of
           (self1, worstStatus, worstAddr) \<Rightarrow>
             if worstStatus \<noteq> NONE then
               (let status5 = status4\<lparr>isUndesired := True, isWrongConfiguration := True\<rparr>
                in if worstStatus = WIGGLING \<and> \<not> isTssArg
                   then Tracking self1 (status5\<lparr>isWiggling := True\<rparr>)
                   else if worstStatus = FAILED \<and> \<not> isTssArg then
                     (if True \<in> set ddEnabled then
                        Conflict
                          (if removeFailedServer self1 = None
                           then self1\<lparr>removeFailedServer := Some (uid (serverObj self1 server))\<rparr>
                           else self1)
                      else Disabled self1)
                   else Tracking self1 status5)
             else Tracking self1 status4)"

subsection \<open>The removal of the server\<close>

text \<open>
  The first branch of the \<^verbatim>\<open>choose\<close> of \<^verbatim>\<open>storageServerTracker\<close> (source line 4720)
  removes the server: it calls \<^verbatim>\<open>removeStorageServer\<close> for \<^verbatim>\<open>server->id\<close>.  Its future is
  \<^verbatim>\<open>failureTracker || server->onTSSPairRemoved || server->killTss.getFuture()\<close>: the branch
  fires when the failure tracker has returned, when the future \<open>onTSSPairRemoved\<close> of
  the server is ready, or when its promise \<open>killTss\<close> was sent.
\<close>

definition onTSSPairRemoved_isReady :: "DDTeamCollection \<Rightarrow> ref \<Rightarrow> bool" where
  "onTSSPairRemoved_isReady self server =
     (case onTSSPairRemoved (serverObj self server) of
        None \<Rightarrow> False
      | Some r \<Rightarrow> removed (serverObj self r))"

definition storageServerTracker_removalFires ::
  "DDTeamCollection \<Rightarrow> ref \<Rightarrow> TrackerResult option \<Rightarrow> Error + bool" where
  "storageServerTracker_removalFires self server failureTracker =
     (case failureTracker of
        Some (TrackerThrew e) \<Rightarrow> Inl e
      | Some (TrackerReturned self' status') \<Rightarrow> Inr True
      | None \<Rightarrow> Inr (onTSSPairRemoved_isReady self server \<or> killTss (serverObj self server)))"

text \<open>What the branch does to the collection once \<^verbatim>\<open>removeStorageServer\<close> has returned
  (source lines 4739 to 4744).\<close>

definition storageServerTracker_removed :: "DDTeamCollection \<Rightarrow> ref \<Rightarrow> bool \<Rightarrow> DDTeamCollection" where
  "storageServerTracker_removed self server isTssArg =
     (let self1 = self\<lparr>serverObj := (serverObj self)(server := (serverObj self server)\<lparr>removed := True\<rparr>)\<rparr>
      in if isTssArg
         then self1\<lparr>removedTSS := removedTSS self1 @ [uid (serverObj self1 server)]\<rparr>
         else self1\<lparr>removedServers := removedServers self1 @ [uid (serverObj self1 server)]\<rparr>)"

text \<open>
  The other call of \<^verbatim>\<open>removeStorageServer\<close> is in the error handler of
  \<^verbatim>\<open>dataDistribution\<close> (source lines 6151 to 6176), which runs when one of its actors has
  thrown.
  \<open>sent\<close> is the value of the promise \<^verbatim>\<open>removeFailedServer\<close> and \<open>ddEnabled\<close> the answer of
  \<^verbatim>\<open>isDataDistributionEnabled\<close>.  The result is the calls that the handler makes to the
  database, and the error it rethrows, if any.
\<close>

datatype DatabaseCall = RemoveKeysFromFailedServer UID | RemoveStorageServer UID

definition dataDistribution_catch :: "UID option \<Rightarrow> Error \<Rightarrow> bool \<Rightarrow> DatabaseCall list \<times> Error option" where
  "dataDistribution_catch sent err ddEnabled =
     (case sent of
        Some failedServer \<Rightarrow>
          ([RemoveKeysFromFailedServer failedServer, RemoveStorageServer failedServer], None)
      | None \<Rightarrow>
          if err \<noteq> movekeys_conflict then ([], Some err)
          else if ddEnabled then ([], Some err)
          else ([], None))"

text \<open>
  The test storage servers and their links.  Every registered server object was
  allocated, and one that waits for the removal of its pair, or whose \<open>killTss\<close> was
  sent, has a tracker that was started with \<^verbatim>\<open>isTss\<close> true; every object registered
  under a pair has such a tracker.
\<close>

definition tssLinks :: "DDTeamCollection \<Rightarrow> bool" where
  "tssLinks self =
     ((\<forall>(u, r) \<in> set (server_and_tss_info self).
         r < nextRef self \<and>
         (onTSSPairRemoved (serverObj self r) \<noteq> None \<or> killTss (serverObj self r) \<longrightarrow>
          TCServerInfo.tracker (serverObj self r) = Some True)) \<and>
      (\<forall>(pair, r) \<in> set (tss_info_by_pair self).
         r < nextRef self \<and> TCServerInfo.tracker (serverObj self r) = Some True))"

text \<open>An address of the server is excluded as failed: one of the addresses that the pass
  of the tracker looks up has the status \<open>FAILED\<close> in the exclusion map.\<close>

definition excludedAsFailed :: "DDTeamCollection \<Rightarrow> ref \<Rightarrow> bool" where
  "excludedAsFailed self server =
     (let ssi = lastKnownInterface (serverObj self server)
      in \<exists>a \<in> set (AddressExclusion (ip (address ssi)) (port (address ssi)) #
                     storageServerTracker_testAddrs ssi).
           excludedServers_get self a = FAILED)"

section \<open>Team selection: \<^verbatim>\<open>DDTeamCollection::getTeam\<close>\<close>

record GetTeamRequest =
  wantsNewServers :: bool
  wantsTrueBest :: bool
  preferLowerUtilization :: bool
  teamMustHaveShards :: bool
  inflightPenalty :: real
  src :: "UID list"
  completeSources :: "UID list"

text \<open>
  The two functions of a team that compute with \<^verbatim>\<open>double\<close> values are parameters of the
  model: \<^verbatim>\<open>getMinAvailableSpaceRatio()\<close> and \<^verbatim>\<open>getLoadBytes(true, inflightPenalty)\<close>, each
  a function of the store of server objects and of the team.  Both contain assertions and
  may throw.
\<close>

record TeamArithmetic =
  getMinAvailableSpaceRatio :: "(ref \<Rightarrow> TCServerInfo) \<Rightarrow> TCTeamInfo \<Rightarrow> Error + real"
  getLoadBytes :: "(ref \<Rightarrow> TCServerInfo) \<Rightarrow> TCTeamInfo \<Rightarrow> real \<Rightarrow> Error + int"

fun getMinAvailableSpace_loop :: "(ref \<Rightarrow> TCServerInfo) \<Rightarrow> bool \<Rightarrow> ref list \<Rightarrow> int \<Rightarrow> Error + int" where
  "getMinAvailableSpace_loop mem includeInFlight [] minAvailableSpace = Inr minAvailableSpace"
| "getMinAvailableSpace_loop mem includeInFlight (s # ss) minAvailableSpace =
     (case serverMetrics (mem s) of
        None \<Rightarrow> getMinAvailableSpace_loop mem includeInFlight ss minAvailableSpace
      | Some replyValue \<Rightarrow>
          if bytes (available replyValue) < 0 then Inl internal_error
          else if bytes (capacity replyValue) < 0 then Inl internal_error
          else
            (let bytesAvailable =
                   (if includeInFlight
                    then bytes (available replyValue) - dataInFlightToServer (mem s)
                    else bytes (available replyValue))
             in getMinAvailableSpace_loop mem includeInFlight ss (min bytesAvailable minAvailableSpace)))"

definition getMinAvailableSpace :: "(ref \<Rightarrow> TCServerInfo) \<Rightarrow> TCTeamInfo \<Rightarrow> bool \<Rightarrow> Error + int" where
  "getMinAvailableSpace mem team includeInFlight =
     getMinAvailableSpace_loop mem includeInFlight (servers team) (2 ^ 63 - 1)"

definition hasHealthyAvailableSpace ::
  "TeamArithmetic \<Rightarrow> ServerKnobs \<Rightarrow> (ref \<Rightarrow> TCServerInfo) \<Rightarrow> TCTeamInfo \<Rightarrow> real \<Rightarrow> Error + bool" where
  "hasHealthyAvailableSpace fp knobs mem team minRatio =
     (case getMinAvailableSpaceRatio fp mem team of
        Inl e \<Rightarrow> Inl e
      | Inr ratio \<Rightarrow>
          if ratio \<ge> minRatio then
            (case getMinAvailableSpace mem team True of
               Inl e \<Rightarrow> Inl e
             | Inr space \<Rightarrow> Inr (space > MIN_AVAILABLE_SPACE knobs))
          else Inr False)"

subsection \<open>The refresh of the median available space\<close>

text \<open>The loop that collects the ratio of every healthy team.\<close>

fun getTeam_teamAvailableSpace ::
  "TeamArithmetic \<Rightarrow> DDTeamCollection \<Rightarrow> ref list \<Rightarrow> Error + real list" where
  "getTeam_teamAvailableSpace fp self [] = Inr []"
| "getTeam_teamAvailableSpace fp self (t # ts) =
     (if healthy (teamObj self t) then
        (case getMinAvailableSpaceRatio fp (serverObj self) (teamObj self t) of
           Inl e \<Rightarrow> Inl e
         | Inr ratio \<Rightarrow>
             (case getTeam_teamAvailableSpace fp self ts of
                Inl e \<Rightarrow> Inl e
              | Inr rest \<Rightarrow> Inr (ratio # rest)))
      else getTeam_teamAvailableSpace fp self ts)"

text \<open>
  \<^verbatim>\<open>std::nth_element\<close> leaves at the pivot the element that a full sort would put there;
  the model reads that element from the sorted vector.  \<open>now\<close> is the value of \<^verbatim>\<open>now()\<close>.
  The result is the collection and the error thrown, if any.
\<close>

definition medianOf :: "ServerKnobs \<Rightarrow> real list \<Rightarrow> real" where
  "medianOf knobs teamAvailableSpace =
     (let pivot = length teamAvailableSpace div 2
      in if length teamAvailableSpace > 1
         then max (MIN_AVAILABLE_SPACE_RATIO knobs)
                (min (TARGET_AVAILABLE_SPACE_RATIO knobs) (sort teamAvailableSpace ! pivot))
         else MIN_AVAILABLE_SPACE_RATIO knobs)"

definition getTeam_refreshMedian ::
  "TeamArithmetic \<Rightarrow> ServerKnobs \<Rightarrow> real \<Rightarrow> DDTeamCollection \<Rightarrow> DDTeamCollection \<times> Error option" where
  "getTeam_refreshMedian fp knobs now self =
     (if now - lastMedianAvailableSpaceUpdate self > AVAILABLE_SPACE_UPDATE_DELAY knobs then
        (let self1 = self\<lparr>lastMedianAvailableSpaceUpdate := now\<rparr>
         in case getTeam_teamAvailableSpace fp self1 (teams self1) of
              Inl e \<Rightarrow> (self1, Some e)
            | Inr teamAvailableSpace \<Rightarrow>
                (let self2 = self1\<lparr>medianAvailableSpace := medianOf knobs teamAvailableSpace\<rparr>
                 in if medianAvailableSpace self2 < TARGET_AVAILABLE_SPACE_RATIO knobs
                    then (self2\<lparr>printDetailedTeamsInfo := printDetailedTeamsInfo self2 + 1\<rparr>, None)
                    else (self2, None)))
      else (self, None))"

subsection \<open>The team of the complete sources\<close>

fun getTeam_sourceTeams :: "DDTeamCollection \<Rightarrow> UID list \<Rightarrow> bool \<Rightarrow> ref list \<Rightarrow> Error + ref option" where
  "getTeam_sourceTeams self cs onlyHealthy [] = Inr None"
| "getTeam_sourceTeams self cs onlyHealthy (t # ts) =
     (case TCTeamInfo_size (teamObj self t) of
        Inl e \<Rightarrow> Inl e
      | Inr sz \<Rightarrow>
          if list_all (\<lambda>u. u \<in> set cs) (serverIDs (teamObj self t)) \<and>
             (if onlyHealthy then healthy (teamObj self t) else True)
          then Inr (Some t)
          else getTeam_sourceTeams self cs onlyHealthy ts)"

fun getTeam_completeSources ::
  "DDTeamCollection \<Rightarrow> UID list \<Rightarrow> bool \<Rightarrow> UID list \<Rightarrow> Error + ref option" where
  "getTeam_completeSources self cs onlyHealthy [] = Inr None"
| "getTeam_completeSources self cs onlyHealthy (u # us) =
     (case server_info self u of
        None \<Rightarrow> getTeam_completeSources self cs onlyHealthy us
      | Some s \<Rightarrow>
          (case getTeam_sourceTeams self cs onlyHealthy (TCServerInfo.teams (serverObj self s)) of
             Inl e \<Rightarrow> Inl e
           | Inr (Some t) \<Rightarrow> Inr (Some t)
           | Inr None \<Rightarrow> getTeam_completeSources self cs onlyHealthy us))"

subsection \<open>The true best team\<close>

text \<open>Whether a team may be chosen at all: it is healthy and, when lower utilization is
  preferred, has healthy available space.\<close>

definition getTeam_eligible ::
  "TeamArithmetic \<Rightarrow> ServerKnobs \<Rightarrow> DDTeamCollection \<Rightarrow> GetTeamRequest \<Rightarrow> ref \<Rightarrow> Error + bool" where
  "getTeam_eligible fp knobs self req t =
     (if healthy (teamObj self t) then
        (if preferLowerUtilization req
         then hasHealthyAvailableSpace fp knobs (serverObj self) (teamObj self t) (medianAvailableSpace self)
         else Inr True)
      else Inr False)"

definition getTeam_hasShards :: "DDTeamCollection \<Rightarrow> GetTeamRequest \<Rightarrow> ref \<Rightarrow> bool" where
  "getTeam_hasShards self req t =
     (if teamMustHaveShards req
      then hasShards (shardsAffectedByTeamFailure self) (serverIDs (teamObj self t), primary self)
      else True)"

definition getTeam_better :: "GetTeamRequest \<Rightarrow> int \<Rightarrow> int \<Rightarrow> bool" where
  "getTeam_better req loadBytes bestLoadBytes =
     ((preferLowerUtilization req \<and> loadBytes < bestLoadBytes) \<or>
      (\<not> preferLowerUtilization req \<and> loadBytes > bestLoadBytes))"

text \<open>The scan over the indices \<open>(startIndex + i) % teams.size()\<close>; its state is
  \<^verbatim>\<open>bestOption\<close>, \<^verbatim>\<open>bestLoadBytes\<close> and \<^verbatim>\<open>bestIndex\<close>.\<close>

fun getTeam_scan ::
  "TeamArithmetic \<Rightarrow> ServerKnobs \<Rightarrow> DDTeamCollection \<Rightarrow> GetTeamRequest \<Rightarrow> nat list \<Rightarrow>
   ref option \<times> int \<times> nat \<Rightarrow> Error + (ref option \<times> int \<times> nat)" where
  "getTeam_scan fp knobs self req [] st = Inr st"
| "getTeam_scan fp knobs self req (currentIndex # rest) (bestOption, bestLoadBytes, bestIndex) =
     (case getTeam_eligible fp knobs self req (teams self ! currentIndex) of
        Inl e \<Rightarrow> Inl e
      | Inr False \<Rightarrow> getTeam_scan fp knobs self req rest (bestOption, bestLoadBytes, bestIndex)
      | Inr True \<Rightarrow>
          (case getLoadBytes fp (serverObj self) (teamObj self (teams self ! currentIndex))
                  (inflightPenalty req) of
             Inl e \<Rightarrow> Inl e
           | Inr loadBytes \<Rightarrow>
               if (bestOption = None \<or> getTeam_better req loadBytes bestLoadBytes) \<and>
                  getTeam_hasShards self req (teams self ! currentIndex)
               then getTeam_scan fp knobs self req rest
                      (Some (teams self ! currentIndex), loadBytes, currentIndex)
               else getTeam_scan fp knobs self req rest (bestOption, bestLoadBytes, bestIndex)))"

definition getStartIndex :: "GetTeamRequest \<Rightarrow> DDTeamCollection \<Rightarrow> nat" where
  "getStartIndex req self =
     (if preferLowerUtilization req then lowestUtilizationTeam self else highestUtilizationTeam self)"

definition setStartIndex :: "GetTeamRequest \<Rightarrow> nat \<Rightarrow> DDTeamCollection \<Rightarrow> DDTeamCollection" where
  "setStartIndex req i self =
     (if preferLowerUtilization req then self\<lparr>lowestUtilizationTeam := i\<rparr>
      else self\<lparr>highestUtilizationTeam := i\<rparr>)"

definition scanOrder :: "nat \<Rightarrow> nat \<Rightarrow> nat list" where
  "scanOrder startIndex n = map (\<lambda>i. (startIndex + i) mod n) [0..<n]"

definition getTeam_trueBest ::
  "TeamArithmetic \<Rightarrow> ServerKnobs \<Rightarrow> DDTeamCollection \<Rightarrow> GetTeamRequest \<Rightarrow>
   DDTeamCollection \<times> (Error + ref option)" where
  "getTeam_trueBest fp knobs self req =
     (let n = length (teams self);
          startIndex = (if getStartIndex req self \<ge> n then 0 else getStartIndex req self);
          self1 = setStartIndex req startIndex self
      in case getTeam_scan fp knobs self1 req (scanOrder startIndex n) (None, 0, startIndex) of
           Inl e \<Rightarrow> (self1, Inl e)
         | Inr (bestOption, bestLoadBytes, bestIndex) \<Rightarrow>
             (setStartIndex req bestIndex self1, Inr bestOption))"

subsection \<open>The best of some random teams\<close>

text \<open>
  \<open>rnd k\<close> is the \<open>k\<close>-th number drawn from \<^verbatim>\<open>deterministicRandom()\<close>; \<^verbatim>\<open>randomChoice\<close>
  reads the team at that number, reduced to an index of the vector.  Every round of the
  loop either adds a team or counts a try, so the loop ends.
\<close>

function getTeam_randomTeams ::
  "TeamArithmetic \<Rightarrow> ServerKnobs \<Rightarrow> DDTeamCollection \<Rightarrow> GetTeamRequest \<Rightarrow> (nat \<Rightarrow> nat) \<Rightarrow>
   nat \<Rightarrow> ref list \<Rightarrow> nat \<Rightarrow> Error + ref list" where
  "getTeam_randomTeams fp knobs self req rnd k randomTeams nTries =
     (if length randomTeams < BEST_TEAM_OPTION_COUNT knobs \<and> nTries < BEST_TEAM_MAX_TEAM_TRIES knobs
      then
        (case getTeam_eligible fp knobs self req (teams self ! (rnd k mod length (teams self))) of
           Inl e \<Rightarrow> Inl e
         | Inr ok \<Rightarrow>
             if ok \<and>
                \<not> list_ex (\<lambda>t. serverIDs (teamObj self t) =
                               serverIDs (teamObj self (teams self ! (rnd k mod length (teams self)))))
                     randomTeams \<and>
                getTeam_hasShards self req (teams self ! (rnd k mod length (teams self)))
             then getTeam_randomTeams fp knobs self req rnd (k + 1)
                    (randomTeams @ [teams self ! (rnd k mod length (teams self))]) nTries
             else getTeam_randomTeams fp knobs self req rnd (k + 1) randomTeams (nTries + 1))
      else Inr randomTeams)"
  by pat_completeness auto
termination
  by (relation "measure (\<lambda>(fp, knobs, self, req, rnd, k, randomTeams, nTries).
        (BEST_TEAM_OPTION_COUNT knobs - length randomTeams) +
        (BEST_TEAM_MAX_TEAM_TRIES knobs - nTries))") auto

fun getTeam_bestOfRandom ::
  "TeamArithmetic \<Rightarrow> DDTeamCollection \<Rightarrow> GetTeamRequest \<Rightarrow> ref list \<Rightarrow> ref option \<times> int \<Rightarrow>
   Error + (ref option \<times> int)" where
  "getTeam_bestOfRandom fp self req [] st = Inr st"
| "getTeam_bestOfRandom fp self req (t # ts) (bestOption, bestLoadBytes) =
     (case getLoadBytes fp (serverObj self) (teamObj self t) (inflightPenalty req) of
        Inl e \<Rightarrow> Inl e
      | Inr loadBytes \<Rightarrow>
          if bestOption = None \<or> getTeam_better req loadBytes bestLoadBytes
          then getTeam_bestOfRandom fp self req ts (Some t, loadBytes)
          else getTeam_bestOfRandom fp self req ts (bestOption, bestLoadBytes))"

definition getTeam_random ::
  "TeamArithmetic \<Rightarrow> ServerKnobs \<Rightarrow> (nat \<Rightarrow> nat) \<Rightarrow> DDTeamCollection \<Rightarrow> GetTeamRequest \<Rightarrow>
   DDTeamCollection \<times> (Error + ref option)" where
  "getTeam_random fp knobs rnd self req =
     (case getTeam_randomTeams fp knobs self req rnd 0 [] 0 of
        Inl e \<Rightarrow> (self, Inl e)
      | Inr randomTeams \<Rightarrow>
          (let self1 =
                 (if randomTeams = [] \<and> \<not> zeroHealthyTeams self
                  then self\<lparr>bestTeamKeepStuckCount := bestTeamKeepStuckCount self + 1\<rparr>
                  else self\<lparr>bestTeamKeepStuckCount := 0\<rparr>)
           in case getTeam_bestOfRandom fp self1 req randomTeams (None, 0) of
                Inl e \<Rightarrow> (self1, Inl e)
              | Inr (bestOption, bestLoadBytes) \<Rightarrow> (self1, Inr bestOption)))"

subsection \<open>The whole request\<close>

text \<open>
  \<^verbatim>\<open>getTeam\<close> from the point where \<^verbatim>\<open>checkBuildTeams\<close> has returned.  The result is the
  collection afterwards and the reply: the error sent, or the pair of the chosen team and
  the \<^verbatim>\<open>foundSrc\<close> flag.
\<close>

text \<open>The last block of \<^verbatim>\<open>getTeam\<close>: with no best option and no healthy team, the first
  team of the complete sources is returned, healthy or not.\<close>

definition getTeam_fallback ::
  "DDTeamCollection \<Rightarrow> GetTeamRequest \<Rightarrow> bool \<Rightarrow> ref option \<Rightarrow>
   DDTeamCollection \<times> (Error + ref option \<times> bool)" where
  "getTeam_fallback self req foundSrc bestOption =
     (if bestOption = None \<and> zeroHealthyTeams self then
        (case getTeam_completeSources self (completeSources req) False (completeSources req) of
           Inl e \<Rightarrow> (self, Inl e)
         | Inr found \<Rightarrow> (self, Inr (found, foundSrc)))
      else (self, Inr (bestOption, foundSrc)))"

text \<open>The choice between the scan for the true best team and the best of some random
  teams, followed by the last block.\<close>

definition getTeam_choose ::
  "TeamArithmetic \<Rightarrow> ServerKnobs \<Rightarrow> (nat \<Rightarrow> nat) \<Rightarrow> DDTeamCollection \<Rightarrow> GetTeamRequest \<Rightarrow> bool \<Rightarrow>
   DDTeamCollection \<times> (Error + ref option \<times> bool)" where
  "getTeam_choose fp knobs rnd self req foundSrc =
     (case (if wantsTrueBest req then getTeam_trueBest fp knobs self req
            else getTeam_random fp knobs rnd self req) of
        (self1, Inl e) \<Rightarrow> (self1, Inl e)
      | (self1, Inr bestOption) \<Rightarrow> getTeam_fallback self1 req foundSrc bestOption)"

definition getTeam_select ::
  "TeamArithmetic \<Rightarrow> ServerKnobs \<Rightarrow> (nat \<Rightarrow> nat) \<Rightarrow> DDTeamCollection \<Rightarrow> GetTeamRequest \<Rightarrow>
   DDTeamCollection \<times> (Error + ref option \<times> bool)" where
  "getTeam_select fp knobs rnd self req =
     (let foundSrc = list_ex (\<lambda>u. server_info self u \<noteq> None) (src req)
      in if teams self = [] then (self, Inr (None, foundSrc))
         else
           (case (if \<not> wantsNewServers req
                  then getTeam_completeSources self (completeSources req) True (completeSources req)
                  else Inr None) of
              Inl e \<Rightarrow> (self, Inl e)
            | Inr (Some t) \<Rightarrow> (self, Inr (Some t, foundSrc))
            | Inr None \<Rightarrow> getTeam_choose fp knobs rnd self req foundSrc))"

definition getTeam ::
  "TeamArithmetic \<Rightarrow> ServerKnobs \<Rightarrow> (nat \<Rightarrow> nat) \<Rightarrow> real \<Rightarrow> DDTeamCollection \<Rightarrow> GetTeamRequest \<Rightarrow>
   DDTeamCollection \<times> (Error + ref option \<times> bool)" where
  "getTeam fp knobs rnd now self req =
     (case getTeam_refreshMedian fp knobs now self of
        (self1, Some e) \<Rightarrow> (self1, Inl e)
      | (self1, None) \<Rightarrow> getTeam_select fp knobs rnd self1 req)"

text \<open>Two collections in which \<^verbatim>\<open>getTeam\<close> selects from the same data: the same teams in
  the same order with the same objects, the same servers, the same median available
  space and time of its last refresh, the same shard assignments and the same health of
  the cluster.  The two start indices of the scan are not compared.\<close>

definition sameSelectionData :: "DDTeamCollection \<Rightarrow> DDTeamCollection \<Rightarrow> bool" where
  "sameSelectionData self' self =
     (teams self' = teams self \<and> teamObj self' = teamObj self \<and>
      serverObj self' = serverObj self \<and> server_info self' = server_info self \<and>
      medianAvailableSpace self' = medianAvailableSpace self \<and>
      lastMedianAvailableSpaceUpdate self' = lastMedianAvailableSpaceUpdate self \<and>
      shardsAffectedByTeamFailure self' = shardsAffectedByTeamFailure self \<and>
      primary self' = primary self \<and> zeroHealthyTeams self' = zeroHealthyTeams self)"

text \<open>What the scan finds at an index: a team it may choose, with the load it reads for
  it; and an index at which it reads without an error.\<close>

definition scanSelectable ::
  "TeamArithmetic \<Rightarrow> ServerKnobs \<Rightarrow> DDTeamCollection \<Rightarrow> GetTeamRequest \<Rightarrow> nat \<Rightarrow> int \<Rightarrow> bool" where
  "scanSelectable fp knobs self req i loadBytes =
     (getTeam_eligible fp knobs self req (teams self ! i) = Inr True \<and>
      getLoadBytes fp (serverObj self) (teamObj self (teams self ! i)) (inflightPenalty req) = Inr loadBytes \<and>
      getTeam_hasShards self req (teams self ! i))"

definition scanReadable ::
  "TeamArithmetic \<Rightarrow> ServerKnobs \<Rightarrow> DDTeamCollection \<Rightarrow> GetTeamRequest \<Rightarrow> nat \<Rightarrow> bool" where
  "scanReadable fp knobs self req i =
     (getTeam_eligible fp knobs self req (teams self ! i) = Inr False \<or>
      (getTeam_eligible fp knobs self req (teams self ! i) = Inr True \<and>
       (\<exists>loadBytes. getLoadBytes fp (serverObj self) (teamObj self (teams self ! i)) (inflightPenalty req)
            = Inr loadBytes)))"

section \<open>Concrete values for evaluating the model\<close>

text \<open>A setting of the knobs with pairwise different priorities.\<close>

definition knobs0 :: ServerKnobs where
  "knobs0 =
     \<lparr>PRIORITY_PERPETUAL_STORAGE_WIGGLE = 139, PRIORITY_TEAM_HEALTHY = 140,
      PRIORITY_TEAM_CONTAINS_UNDESIRED_SERVER = 150, PRIORITY_TEAM_REDUNDANT = 200,
      PRIORITY_POPULATE_REGION = 600, PRIORITY_TEAM_UNHEALTHY = 700,
      PRIORITY_TEAM_2_LEFT = 709, PRIORITY_TEAM_1_LEFT = 800, PRIORITY_TEAM_0_LEFT = 809,
      MIN_AVAILABLE_SPACE_RATIO = 5 / 100, TARGET_AVAILABLE_SPACE_RATIO = 30 / 100,
      AVAILABLE_SPACE_UPDATE_DELAY = 5, MIN_AVAILABLE_SPACE = 100000000,
      BEST_TEAM_OPTION_COUNT = 4, BEST_TEAM_MAX_TEAM_TRIES = 10,
      DD_EXCLUDE_MIN_REPLICAS = 1, MAX_READ_TRANSACTION_LIFE_VERSIONS = 5000000,
      DESIRED_TEAMS_PER_SERVER = 5\<rparr>"

definition ssi0 :: "UID \<Rightarrow> nat \<Rightarrow> nat \<Rightarrow> StorageServerInterface" where
  "ssi0 u i p =
     \<lparr>ssi_id = u, address = \<lparr>ip = i, port = p\<rparr>, secondaryAddress = None,
      stableAddress = \<lparr>ip = i, port = p\<rparr>, zoneId = None, processId = None, ssi_dcId = None,
      isTss = False, tssPairID = None\<rparr>"

definition server0 :: "UID \<Rightarrow> TCServerInfo" where
  "server0 u =
     \<lparr>uid = u, addedVersion = 0, lastKnownInterface = ssi0 u u 4500, lastKnownClass = 0,
      teams = [], machine = None, tracker = None, dataInFlightToServer = 0, serverMetrics = None,
      removed = False, onTSSPairRemoved = None, killTss = False, inDesiredDC = True,
      localityEntry = u, wrongStoreTypeToRemove = False, ssVersionTooFarBehind = False\<rparr>"

definition team0 :: "UID list \<Rightarrow> TCTeamInfo" where
  "team0 us =
     \<lparr>servers = us, serverIDs = us, healthy = True, wrongConfiguration = False,
      priority = 140, machineTeam = None, tracker = None\<rparr>"

definition status0 :: ServerStatus where
  "status0 =
     \<lparr>isWiggling = False, isFailed = False, isUndesired = False,
      isWrongConfiguration = False, initialized = True\<rparr>"

text \<open>An empty collection configured for teams of two.\<close>

definition collection0 :: DDTeamCollection where
  "collection0 =
     \<lparr>serverObj = server0, teamObj = (\<lambda>r. team0 []),
      machineObj = (\<lambda>r. \<lparr>serversOnMachine = [], machineID = [], machineTeams = []\<rparr>),
      machineTeamObj = (\<lambda>r. \<lparr>machines = [], machineIDs = [], serverTeams = []\<rparr>),
      nextRef = 0,
      configuration = \<lparr>storageTeamSize = 2, usableRegions = 1\<rparr>,
      doBuildTeams = True, lastBuildTeamsFailed = False, restartTeamBuilder = 0, allServers = [],
      server_status = Map.empty, unhealthyServers = 0, server_info = Map.empty,
      pid2server_info = Map.empty, wiggle_addresses = [], tss_info_by_pair = [],
      server_and_tss_info = [], disableFailingLaggingServers = False, wigglingPid = None,
      machine_info = [], machineTeams = [], teams = [], badTeams = [],
      shardsAffectedByTeamFailure = \<lparr>hasShards = (\<lambda>t. False), getNumberOfShards = (\<lambda>u. 0)\<rparr>,
      removedServers = [], removedTSS = [],
      recruitingIds = {}, recruitingLocalities = {}, recruitingStream = 0, restartRecruiting = 0,
      healthyTeamCount = 0, zeroHealthyTeams = True, optimalTeamCount = 0,
      bestTeamKeepStuckCount = 0,
      excludedServers = Map.empty, includedDCs = [], otherTrackedDCs = None, primary = True,
      healthyZone = None, clearHealthyZoneFuture_isReady = True,
      medianAvailableSpace = 5 / 100, lastMedianAvailableSpaceUpdate = 0,
      lowestUtilizationTeam = 0, highestUtilizationTeam = 0, printDetailedTeamsInfo = 0,
      removeFailedServer = None\<rparr>"

text \<open>A collection with one machine \<open>m1\<close> that holds one server, alive and desired.\<close>

definition collection_one_machine :: DDTeamCollection where
  "collection_one_machine =
     collection0\<lparr>machineObj := (\<lambda>r. \<lparr>serversOnMachine = [1], machineID = ''m1'', machineTeams = []\<rparr>),
                 machine_info := [(''m1'', 0)],
                 server_status := [1 \<mapsto> status0]\<rparr>"

text \<open>A collection whose servers 1 and 2 both have the stable address 10:4500, with no
  recruitment in flight, and a candidate worker at that address.\<close>

definition collection_two_on_address :: DDTeamCollection where
  "collection_two_on_address =
     collection0\<lparr>serverObj := (\<lambda>r. (server0 r)\<lparr>lastKnownInterface := ssi0 r 10 4500\<rparr>),
                 server_and_tss_info := [(1, 1), (2, 2)],
                 server_status := [1 \<mapsto> status0, 2 \<mapsto> status0]\<rparr>"

definition worker0 :: WorkerInterface where
  "worker0 =
     \<lparr>workerStableAddress = \<lparr>ip = 10, port = 4500\<rparr>,
      workerLocality = \<lparr>dcId = None, dataHallId = None\<rparr>\<rparr>"

definition tssState0 :: TSSPairState where
  "tssState0 = \<lparr>tssDcId = None, tssDataHallId = None, active = False\<rparr>"

text \<open>A collection with the teams \<open>[1, 2, 3]\<close> and \<open>[2, 3, 4]\<close>.\<close>

definition collection_two_teams :: DDTeamCollection where
  "collection_two_teams =
     collection0\<lparr>teamObj := (\<lambda>r. if r = 0 then team0 [3, 1, 2] else team0 [2, 3, 4]),
                 teams := [0, 1]\<rparr>"

text \<open>A collection of single-server teams with one server on machine \<open>m1\<close>, and two
  policy evaluators: one that accepts every team and one that rejects every team.\<close>

definition collection_single :: DDTeamCollection where
  "collection_single =
     collection0\<lparr>configuration := \<lparr>storageTeamSize = 1, usableRegions = 1\<rparr>,
                 serverObj := (\<lambda>r. (server0 r)\<lparr>machine := Some 0\<rparr>),
                 machineObj := (\<lambda>r. \<lparr>serversOnMachine = [1], machineID = ''m1'', machineTeams = []\<rparr>),
                 machine_info := [(''m1'', 0)],
                 server_status := [1 \<mapsto> status0]\<rparr>"

definition policy_accepts :: "nat list \<Rightarrow> bool \<times> nat list" where
  "policy_accepts forced = (True, [])"

definition policy_rejects :: "nat list \<Rightarrow> bool \<times> nat list" where
  "policy_rejects forced = (False, [])"

text \<open>Polls of a server added at version 0: one that still has three shards at a young
  read version, and one that is drained at an aged read version.  A failed status.\<close>

definition poll_busy :: Poll where
  "poll_busy = \<lparr>readVersion = Some 1, canRemove = Some False, numberOfShards = 3, onErrorRethrows = False\<rparr>"

definition poll_done :: Poll where
  "poll_done =
     \<lparr>readVersion = Some 5000001, canRemove = Some True, numberOfShards = 0, onErrorRethrows = False\<rparr>"

definition status_failed :: ServerStatus where
  "status_failed = status0\<lparr>isFailed := True\<rparr>"

text \<open>
  Team arithmetic for evaluating the model: the ratio of a team is a tenth of the number
  of its members, and its load is its load average.  A collection with the healthy teams
  \<open>[1, 2, 3, 4, 5]\<close>, \<open>[1]\<close> and \<open>[1, 2]\<close>.
\<close>

definition fp0 :: TeamArithmetic where
  "fp0 =
     \<lparr>getMinAvailableSpaceRatio = (\<lambda>mem team. Inr (real (length (servers team)) / 10)),
      getLoadBytes = (\<lambda>mem team penalty. Inr (getLoadAverage mem team))\<rparr>"

definition collection_three_teams :: DDTeamCollection where
  "collection_three_teams =
     collection0\<lparr>teamObj := (\<lambda>r. if r = 0 then team0 [1, 2, 3, 4, 5]
                                  else if r = 1 then team0 [1] else team0 [1, 2]),
                 teams := [0, 1, 2]\<rparr>"

text \<open>Team arithmetic in which the load of a team is the number of its members, and a
  request for the true best team of lower utilization.\<close>

definition fp_members :: TeamArithmetic where
  "fp_members =
     \<lparr>getMinAvailableSpaceRatio = (\<lambda>mem team. Inr (real (length (servers team)) / 10)),
      getLoadBytes = (\<lambda>mem team penalty. Inr (int (length (servers team))))\<rparr>"

definition request_trueBest :: GetTeamRequest where
  "request_trueBest =
     \<lparr>wantsNewServers = True, wantsTrueBest = True, preferLowerUtilization = True,
      teamMustHaveShards = False, inflightPenalty = 1, src = [], completeSources = []\<rparr>"

text \<open>A wiggling server, as the pass of its tracker marks it, and a collection with a
  team of it and a healthy server.\<close>

definition status_wiggling :: ServerStatus where
  "status_wiggling = status0\<lparr>isWiggling := True, isUndesired := True, isWrongConfiguration := True\<rparr>"

definition collection_wiggling :: DDTeamCollection where
  "collection_wiggling = collection0\<lparr>server_status := [1 \<mapsto> status_wiggling, 2 \<mapsto> status0]\<rparr>"


text \<open>
  Values for the server tracker: a storage server in zone \<open>z1\<close> and the test storage
  server paired with it; the collection after the first and after both were added; the
  collection after the recruiter has killed the test storage server, and the one after
  the storage server was removed instead; and the collection with the storage server
  alone, three shards on it and its address excluded as failed.
\<close>

definition fns0 :: TrackerFunctions where
  "fns0 = \<lparr>isValidLocality = (\<lambda>ssi. True), machineClassFitness = (\<lambda>c. c), UnsetFit = 2\<rparr>"

definition ssi1 :: StorageServerInterface where
  "ssi1 = (ssi0 1 1 4500)\<lparr>zoneId := Some ''z1'', processId := Some ''p1''\<rparr>"

definition tss2 :: StorageServerInterface where
  "tss2 = (ssi0 2 2 4500)\<lparr>zoneId := Some ''z2'', processId := Some ''p2'', isTss := True,
                          tssPairID := Some 1\<rparr>"

definition collection_server :: DDTeamCollection where
  "collection_server = fst (addServer collection0 ssi1 0 0 0)"

definition collection_tss :: DDTeamCollection where
  "collection_tss = fst (addServer collection_server tss2 0 0 0)"

definition collection_killed :: DDTeamCollection where
  "collection_killed = storageRecruiter_killTss collection_tss 0"

definition collection_pair_removed :: DDTeamCollection where
  "collection_pair_removed = storageServerTracker_removed collection_tss 0 False"

definition collection_excluded :: DDTeamCollection where
  "collection_excluded =
     collection_server
       \<lparr>excludedServers := [AddressExclusion 1 4500 \<mapsto> FAILED],
        shardsAffectedByTeamFailure := \<lparr>hasShards = (\<lambda>t. True), getNumberOfShards = (\<lambda>u. 3)\<rparr>\<rparr>"

section \<open>Properties of the team load\<close>

lemma getLoadAverage_loop_eq:
  "getLoadAverage_loop mem ss (added, bytesSum) =
     (added + int (length (List.map_filter (\<lambda>s. serverMetrics (mem s)) ss)),
      bytesSum + sum_list (map (\<lambda>r. bytes (load r)) (List.map_filter (\<lambda>s. serverMetrics (mem s)) ss)))"
proof (induction ss arbitrary: added bytesSum)
  case Nil
  show ?case by simp
next
  case (Cons s ss)
  show ?case
  proof (cases "serverMetrics (mem s)")
    case None
    then show ?thesis using Cons.IH by simp
  next
    case (Some reply)
    then show ?thesis using Cons.IH by simp
  qed
qed

lemma length_map_filter_le: "length (List.map_filter f xs) \<le> length xs"
  by (induction xs) (auto split: option.splits)

text \<open>
  Claim C8.  The load average of a team is 0 when no member has reported metrics.
  Otherwise it is the truncating integer quotient of the sum of the reporting members'
  \<^verbatim>\<open>load.bytes\<close>, doubled first when at least one member did not report, by the number of
  members that reported.
\<close>

theorem getLoadAverage_quotient:
  "getLoadAverage mem team =
     (let reported = reportedMetrics mem team;
          total = sum_list (map (\<lambda>r. bytes (load r)) reported)
      in if reported = [] then 0
         else (if length reported < length (servers team) then 2 * total else total)
                sdiv int (length reported))"
  by (simp add: getLoadAverage_def getLoadAverage_loop_eq reportedMetrics_def Let_def mult.commute)


section \<open>Properties of the team priority\<close>

lemma teamTracker_scan_counts:
  "teamTracker_scan self us c =
     c\<lparr>anyUndesired := anyUndesired c \<or> filter (\<lambda>u. isUndesired (server_status_get self u)) us \<noteq> [],
       anyWrongConfiguration :=
         anyWrongConfiguration c \<or> filter (\<lambda>u. isWrongConfiguration (server_status_get self u)) us \<noteq> [],
       anyWigglingServer :=
         anyWigglingServer c \<or> filter (\<lambda>u. isWiggling (server_status_get self u)) us \<noteq> [],
       serversLeft :=
         serversLeft c + int (length (filter (\<lambda>u. \<not> isFailed (server_status_get self u)) us)),
       serverUndesired :=
         serverUndesired c + int (length (filter (\<lambda>u. isUndesired (server_status_get self u)) us)),
       serverWrongConf :=
         serverWrongConf c + int (length (filter (\<lambda>u. isWrongConfiguration (server_status_get self u)) us)),
       serverWiggling :=
         serverWiggling c + int (length (filter (\<lambda>u. isWiggling (server_status_get self u)) us))\<rparr>"
proof (induction us arbitrary: c)
  case Nil
  show ?case by simp
next
  case (Cons u us)
  show ?case
    unfolding teamTracker_scan.simps Cons.IH
    by (simp add: teamTracker_count_def Let_def)
qed

lemma teamTracker_scan_init:
  "teamTracker_scan self (serverIDs team) TeamCounts_init =
     \<lparr>anyUndesired = countWith self team isUndesired \<noteq> 0,
      anyWrongConfiguration = countWith self team isWrongConfiguration \<noteq> 0,
      anyWigglingServer = countWith self team isWiggling \<noteq> 0,
      serversLeft = countWith self team (\<lambda>s. \<not> isFailed s),
      serverUndesired = countWith self team isUndesired,
      serverWrongConf = countWith self team isWrongConfiguration,
      serverWiggling = countWith self team isWiggling\<rparr>"
  by (simp add: teamTracker_scan_counts TeamCounts_init_def countWith_def membersWith_def)

lemma countWith_nonneg: "0 \<le> countWith self team p"
  by (simp add: countWith_def)

lemma filter_length_le:
  "(\<And>x. x \<in> set xs \<Longrightarrow> P x \<Longrightarrow> Q x) \<Longrightarrow> length (filter P xs) \<le> length (filter Q xs)"
proof (induction xs)
  case Nil
  show ?case by simp
next
  case (Cons x xs)
  have "length (filter P xs) \<le> length (filter Q xs)"
    using Cons.IH Cons.prems by simp
  then show ?case using Cons.prems [of x] by auto
qed

lemma filter_eq_iff_length:
  "(\<And>x. x \<in> set xs \<Longrightarrow> P x \<Longrightarrow> Q x) \<Longrightarrow>
   (filter P xs = filter Q xs) = (length (filter P xs) = length (filter Q xs))"
proof (induction xs)
  case Nil
  show ?case by simp
next
  case (Cons x xs)
  have ih: "(filter P xs = filter Q xs) = (length (filter P xs) = length (filter Q xs))"
    using Cons.IH Cons.prems by simp
  have le: "length (filter P xs) \<le> length (filter Q xs)"
    using filter_length_le [of xs P Q] Cons.prems by simp
  show ?case
  proof (cases "P x")
    case True
    then have "Q x" using Cons.prems [of x] by simp
    then show ?thesis using True ih by simp
  next
    case False
    show ?thesis
    proof (cases "Q x")
      case True
      have "filter P xs \<noteq> x # filter Q xs"
      proof
        assume "filter P xs = x # filter Q xs"
        then have "length (filter P xs) = Suc (length (filter Q xs))" by simp
        then show False using le by simp
      qed
      then show ?thesis using False True le by simp
    next
      case nq: False
      show ?thesis using False nq ih by simp
    qed
  qed
qed

text \<open>For the statuses of a team in which a wiggling member is also undesired and
  wrongly configured, the wiggling members are the undesired and the wrongly configured
  members exactly when there are as many of each.\<close>

lemma membersWith_wiggling:
  assumes "\<forall>u \<in> set (serverIDs team). wigglingIsExcluded (server_status_get self u)"
  shows "(membersWith self team isWiggling = membersWith self team isUndesired) =
           (countWith self team isWiggling = countWith self team isUndesired)"
    and "(membersWith self team isWiggling = membersWith self team isWrongConfiguration) =
           (countWith self team isWiggling = countWith self team isWrongConfiguration)"
proof -
  have u: "\<And>x. x \<in> set (serverIDs team) \<Longrightarrow> isWiggling (server_status_get self x) \<Longrightarrow>
              isUndesired (server_status_get self x)"
    using assms by (simp add: wigglingIsExcluded_def)
  have w: "\<And>x. x \<in> set (serverIDs team) \<Longrightarrow> isWiggling (server_status_get self x) \<Longrightarrow>
              isWrongConfiguration (server_status_get self x)"
    using assms by (simp add: wigglingIsExcluded_def)
  show "(membersWith self team isWiggling = membersWith self team isUndesired) =
           (countWith self team isWiggling = countWith self team isUndesired)"
    using filter_eq_iff_length
      [of "serverIDs team" "\<lambda>x. isWiggling (server_status_get self x)"
          "\<lambda>x. isUndesired (server_status_get self x)"] u
    by (simp add: membersWith_def countWith_def)
  show "(membersWith self team isWiggling = membersWith self team isWrongConfiguration) =
           (countWith self team isWiggling = countWith self team isWrongConfiguration)"
    using filter_eq_iff_length
      [of "serverIDs team" "\<lambda>x. isWiggling (server_status_get self x)"
          "\<lambda>x. isWrongConfiguration (server_status_get self x)"] w
    by (simp add: membersWith_def countWith_def)
qed

lemma countWith_zero: "(countWith self team p = 0) = (membersWith self team p = [])"
  by (simp add: countWith_def)

text \<open>
  The statuses that the program stores are of this kind.  The pass of the server tracker
  sets \<open>isWiggling\<close> only right after it has set \<open>isUndesired\<close> and \<open>isWrongConfiguration\<close>
  (source lines 4680 to 4684), the failure tracker changes only \<open>isFailed\<close> before it
  stores the status (source line 4463), and the default status is not wiggling.
\<close>

lemma storageServerTracker_enter_wiggling:
  "storageServerTracker_enter fns self server isTssArg status ddEnabled = Tracking self1 status1 \<Longrightarrow>
   wigglingIsExcluded status1"
  by (auto simp add: storageServerTracker_enter_def storageServerTracker_requirements_def
      wigglingIsExcluded_def Let_def split: prod.splits if_splits)

lemma failureTracker_enter_wiggling:
  assumes "failureTracker_enter ignoreZone self interf status = (self1, status1, inZone)"
    and "wigglingIsExcluded status"
    and "\<And>u. wigglingIsExcluded (server_status_get self u)"
  shows "wigglingIsExcluded status1"
    and "wigglingIsExcluded (server_status_get self1 u)"
proof -
  show s1: "wigglingIsExcluded status1"
    using assms(1,2)
    by (auto simp add: failureTracker_enter_def wigglingIsExcluded_def Let_def split: if_splits)
  have d: "wigglingIsExcluded ServerStatus_default"
    by (simp add: wigglingIsExcluded_def ServerStatus_default_def)
  have st: "server_status self1 =
          AsyncMap_set ServerStatus_default (server_status self) (ssi_id interf) status1"
    using assms(1)
    by (auto simp add: failureTracker_enter_def Let_def split: if_splits)
  show "wigglingIsExcluded (server_status_get self1 u)"
    using assms(3) [of u] s1 d
    by (simp add: server_status_get_def st AsyncMap_set_def AsyncMap_get_def)
qed

lemma failureTracker_healthChanged_wiggling:
  assumes "failureTracker_healthChanged knobs ignoreZone self server status = (self1, status1)"
    and "wigglingIsExcluded status"
    and "\<And>u. wigglingIsExcluded (server_status_get self u)"
  shows "wigglingIsExcluded status1"
    and "wigglingIsExcluded (server_status_get self1 u)"
proof -
  show "wigglingIsExcluded status1"
    using assms(1,2)
    by (auto simp add: failureTracker_healthChanged_def wigglingIsExcluded_def Let_def
        split: if_splits option.splits)
  have "server_status self1 = server_status self"
    using assms(1)
    by (auto simp add: failureTracker_healthChanged_def Let_def split: if_splits option.splits)
  then show "wigglingIsExcluded (server_status_get self1 u)"
    using assms(3) [of u] by (simp add: server_status_get_def)
qed

lemma storageServerFailureTracker_round_wiggling:
  assumes "storageServerFailureTracker_round knobs ignoreZone self server interf status addedVer ev = step"
    and "step = Continue self1 status1 \<or> step = Break self1 status1"
    and "wigglingIsExcluded status"
    and "\<And>u. wigglingIsExcluded (server_status_get self u)"
  shows "wigglingIsExcluded status1"
    and "wigglingIsExcluded (server_status_get self1 u)"
proof -
  obtain s2 st2 z where e: "failureTracker_enter ignoreZone self interf status = (s2, st2, z)"
    by (cases "failureTracker_enter ignoreZone self interf status") auto
  have w2: "wigglingIsExcluded st2"
    using failureTracker_enter_wiggling(1) [OF e assms(3) assms(4)] .
  have m2: "\<And>u. wigglingIsExcluded (server_status_get s2 u)"
    using failureTracker_enter_wiggling(2) [OF e assms(3) assms(4)] .
  have "wigglingIsExcluded status1 \<and> wigglingIsExcluded (server_status_get self1 u)"
  proof (cases ev)
    case HealthChanged
    obtain s3 st3 where h: "failureTracker_healthChanged knobs ignoreZone s2 server st2 = (s3, st3)"
      by (cases "failureTracker_healthChanged knobs ignoreZone s2 server st2") auto
    have "self1 = s3 \<and> status1 = st3"
      using assms(1,2) e h HealthChanged
      by (auto simp add: storageServerFailureTracker_round_def split: if_splits)
    then show ?thesis
      using failureTracker_healthChanged_wiggling [OF h w2 m2] by simp
  next
    case (AllDataRemoved polls)
    have "self1 = s2 \<and> status1 = st2"
      using assms(1,2) e AllDataRemoved
      by (auto simp add: storageServerFailureTracker_round_def split: if_splits WaitResult.splits)
    then show ?thesis using w2 m2 by simp
  next
    case (HealthyZoneChanged z')
    have "self1 = s2\<lparr>healthyZone := z'\<rparr> \<and> status1 = st2"
      using assms(1,2) e HealthyZoneChanged
      by (auto simp add: storageServerFailureTracker_round_def split: if_splits)
    then show ?thesis using w2 m2 [of u] by (simp add: server_status_get_def)
  qed
  then show "wigglingIsExcluded status1" and "wigglingIsExcluded (server_status_get self1 u)"
    by simp_all
qed

lemma storageServerFailureTracker_wiggling:
  "storageServerFailureTracker knobs ignoreZone self server interf status addedVer evs =
     Some (TrackerReturned self1 status1) \<Longrightarrow>
   wigglingIsExcluded status \<Longrightarrow> (\<And>u. wigglingIsExcluded (server_status_get self u)) \<Longrightarrow>
   wigglingIsExcluded status1 \<and> wigglingIsExcluded (server_status_get self1 u)"
proof (induction evs arbitrary: self status)
  case Nil
  then show ?case by simp
next
  case (Cons ev evs)
  show ?case
  proof (cases "storageServerFailureTracker_round knobs ignoreZone self server interf status addedVer ev")
    case (Continue s2 st2)
    have w: "wigglingIsExcluded st2"
      using storageServerFailureTracker_round_wiggling(1) [OF Continue _ Cons.prems(2) Cons.prems(3)]
      by simp
    have m: "\<And>u. wigglingIsExcluded (server_status_get s2 u)"
      using storageServerFailureTracker_round_wiggling(2) [OF Continue _ Cons.prems(2) Cons.prems(3)]
      by simp
    show ?thesis
      using Cons.IH [of s2 st2] Cons.prems(1) Continue w m by simp
  next
    case (Break s2 st2)
    have "self1 = s2 \<and> status1 = st2" using Cons.prems(1) Break by simp
    moreover have "wigglingIsExcluded st2"
      using storageServerFailureTracker_round_wiggling(1) [OF Break _ Cons.prems(2) Cons.prems(3)]
      by simp
    moreover have "wigglingIsExcluded (server_status_get s2 u)"
      using storageServerFailureTracker_round_wiggling(2) [OF Break _ Cons.prems(2) Cons.prems(3)]
      by simp
    ultimately show ?thesis by simp
  next
    case (Throw e)
    then show ?thesis using Cons.prems(1) by simp
  next
    case NotEnabled
    then show ?thesis using Cons.IH [of self status] Cons.prems by simp
  qed
qed

text \<open>
  Claim C3, as the code has it.  When the team tracker recomputes a team's priority, the
  first matching rule of this list decides: a team of size 0 is \<open>POPULATE_REGION\<close>; while
  \<open>serversLeft\<close> (the members that are not failed) is below the configured team size, 0,
  1 and 2 servers left give \<open>TEAM_0_LEFT\<close>, \<open>TEAM_1_LEFT\<close> and \<open>TEAM_2_LEFT\<close> and more than 2
  give \<open>TEAM_UNHEALTHY\<close>; otherwise a team that is not bad, has a wiggling member and
  whose wiggling members are its undesired and its wrongly configured members is
  \<open>PERPETUAL_STORAGE_WIGGLE\<close>; otherwise a bad team or one with a wrongly configured
  member is \<open>TEAM_REDUNDANT\<close> when marked redundant and \<open>TEAM_UNHEALTHY\<close> when not;
  otherwise a team with an undesired member is \<open>CONTAINS_UNDESIRED_SERVER\<close>; otherwise
  the team is \<open>TEAM_HEALTHY\<close>.  The statuses of the members are statuses as the trackers
  store them: a wiggling member is also undesired and wrongly configured.  The size
  assertion of the team is the only failure.
\<close>

theorem teamTracker_priority_table:
  assumes "\<forall>u \<in> set (serverIDs team). wigglingIsExcluded (server_status_get self u)"
  shows "teamTracker_priority knobs self team badTeam redundantTeam =
     (if length (servers team) = length (serverIDs team)
      then Inr (priority_table knobs self team badTeam redundantTeam)
      else Inl internal_error)"
proof (cases "length (servers team) = length (serverIDs team)")
  case False
  then show ?thesis
    by (simp add: teamTracker_priority_def TCTeamInfo_size_def)
next
  case True
  have nn: "0 \<le> countWith self team (\<lambda>s. \<not> isFailed s)"
    by (rule countWith_nonneg)
  have z: "\<And>p. (membersWith self team p = []) = (countWith self team p = 0)"
    by (simp add: countWith_zero)
  show ?thesis
    using True nn
    by (auto simp add: teamTracker_priority_def TCTeamInfo_size_def teamTracker_scan_init
        priority_table_def Let_def membersWith_wiggling [OF assms] z)
qed

theorem teamTracker_priority_table_witness:
  "teamTracker_priority knobs0 collection_wiggling (team0 [1, 2]) False False = Inr 139 \<and>
   priority_table knobs0 collection_wiggling (team0 [1, 2]) False False = 139 \<and>
   membersWith collection_wiggling (team0 [1, 2]) isWiggling = [1]"
proof -
  have h: "\<forall>u \<in> set (serverIDs (team0 [1, 2])).
             wigglingIsExcluded (server_status_get collection_wiggling u)"
    by (simp add: team0_def collection_wiggling_def server_status_get_def AsyncMap_get_def
        wigglingIsExcluded_def status_wiggling_def status0_def)
  have p: "priority_table knobs0 collection_wiggling (team0 [1, 2]) False False = 139"
    by (simp add: priority_table_def countWith_def membersWith_def
        server_status_get_def AsyncMap_get_def collection_wiggling_def collection0_def team0_def
        status_wiggling_def status0_def knobs0_def Let_def)
  have m: "membersWith collection_wiggling (team0 [1, 2]) isWiggling = [1]"
    by (simp add: membersWith_def server_status_get_def AsyncMap_get_def collection_wiggling_def
        team0_def status_wiggling_def status0_def)
  show ?thesis
    using teamTracker_priority_table [OF h, of knobs0 False False] p m
    by (simp add: team0_def)
qed

text \<open>
  Claim C3 as stated fails on the code.  With a configured team size of 2, a team of two
  members that are both alive, desired and rightly configured has two servers left and is
  \<open>TEAM_HEALTHY\<close>, where the table of the claim gives \<open>TEAM_2_LEFT\<close>.
\<close>

theorem teamTracker_priority_claimed_counterexample:
  "teamTracker_priority knobs0
      (collection0\<lparr>server_status := [1 \<mapsto> status0, 2 \<mapsto> status0]\<rparr>) (team0 [1, 2]) False False
     = Inr 140 \<and>
   priority_table_claimed knobs0
      (collection0\<lparr>server_status := [1 \<mapsto> status0, 2 \<mapsto> status0]\<rparr>) (team0 [1, 2]) False False
     = 709"
  by (simp add: teamTracker_priority_def TCTeamInfo_size_def priority_table_claimed_def
      teamTracker_count_def TeamCounts_init_def countWith_def membersWith_def
      server_status_get_def AsyncMap_get_def collection0_def team0_def status0_def knobs0_def
      Let_def)

section \<open>Properties of the machine health\<close>

lemma isMachineHealthy_loop_iff:
  "isMachineHealthy_loop self ss \<longleftrightarrow>
     (\<exists>s \<in> set ss. \<not> isUnhealthy (server_status_get self (uid (serverObj self s))))"
  by (induction ss) auto

text \<open>The predicate of the collection: a machine is healthy exactly when its reference is
  valid, its identifier is in the machine registry, and one of its servers is neither
  failed nor undesired.\<close>

lemma isMachineHealthy_iff:
  "isMachineHealthy self machineRef \<longleftrightarrow>
     (\<exists>m. machineRef = Some m \<and>
          map_of (machine_info self) (machineID (machineObj self m)) \<noteq> None \<and>
          (\<exists>s \<in> set (serversOnMachine (machineObj self m)).
              \<not> isFailed (server_status_get self (uid (serverObj self s))) \<and>
              \<not> isUndesired (server_status_get self (uid (serverObj self s)))))"
  by (cases machineRef) (auto simp: isMachineHealthy_def isMachineHealthy_loop_iff isUnhealthy_def)

text \<open>The snapshot task logs \<open>Healthy = false\<close> for every machine, whatever its servers.\<close>

lemma printSnapshot_machineLoop_false:
  "(k, h') \<in> set (fst (printSnapshot_machineLoop status mem snapshot ms h)) \<Longrightarrow> h' = False"
  by (induction ms arbitrary: h) (auto simp: Let_def split: sum.splits)

text \<open>
  Claim C4 on the code.  The machine \<open>m1\<close> is in the registry and its only server is
  neither failed nor undesired: the predicate of the collection holds for it, and the
  snapshot task logs \<open>Healthy = false\<close> for it.
\<close>

theorem printSnapshotTeamsInfo_Healthy_differs:
  "isMachineHealthy collection_one_machine (Some 0) = True \<and>
   printSnapshotTeamsInfo_MachineInfo collection_one_machine = ([(''m1'', False)], None)"
  by (simp add: isMachineHealthy_def printSnapshotTeamsInfo_MachineInfo_def
      collection_one_machine_def collection0_def server0_def status0_def isUnhealthy_def
      server_status_get_def AsyncMap_get_def map_get_def Let_def)

section \<open>Properties of the recruitment\<close>

lemma numExistingSSOnAddr_loop_count:
  "numExistingSSOnAddr_loop mem xs addr n =
     n + int (length (filter (\<lambda>(u, r). addressExclusionOf (stableAddress (lastKnownInterface (mem r))) = addr) xs))"
  by (induction xs arbitrary: n) auto

text \<open>With a recruitment in flight for the candidate's address, or with more than two
  servers on it, no request is sent.\<close>

lemma initializeStorage_no_request:
  "workerStableAddress worker \<in> recruitingLocalities self \<or>
   2 < numExistingSSOnAddr self (addressExclusionOf (workerStableAddress worker)) \<Longrightarrow>
   \<not> initializeStorage_sendsRequest self worker recruitTss ssPairInfoResult"
  by (auto simp: initializeStorage_sendsRequest_def initializeStorage_guard_def)

text \<open>
  Claim C5 on the code.  The candidate's stable address hosts exactly two storage
  servers and no recruitment is in flight for it.  The recruiter logs its warning and
  starts \<^verbatim>\<open>initializeStorage\<close> as for any candidate, and \<^verbatim>\<open>initializeStorage\<close>, whose guard
  is \<open>\<le> 2\<close>, sends the initialize-storage request.
\<close>

theorem initializeStorage_two_on_address:
  "numExistingSSOnAddr collection_two_on_address (addressExclusionOf (workerStableAddress worker0)) = 2 \<and>
   storageRecruiter_candidate collection_two_on_address tssState0 0 worker0 = (True, False) \<and>
   initializeStorage_sendsRequest collection_two_on_address worker0 False None = True"
  by (simp add: numExistingSSOnAddr_def storageRecruiter_candidate_def
      initializeStorage_sendsRequest_def initializeStorage_guard_def
      collection_two_on_address_def collection0_def server0_def ssi0_def worker0_def
      tssState0_def status0_def addressExclusionOf_def excludeOnRecruit_def
      server_status_get_def AsyncMap_get_def inDataZone_def Let_def)

section \<open>Properties of the exclusion safety check\<close>

lemma length_set_intersection_le: "length (set_intersection xs ys) \<le> length ys"
  by (induction xs ys rule: set_intersection.induct) auto

lemma set_intersection_length_filter:
  "sorted xs \<Longrightarrow> sorted ys \<Longrightarrow> distinct ys \<Longrightarrow>
   length (set_intersection xs ys) = length (filter (\<lambda>y. y \<in> set xs) ys)"
proof (induction xs ys rule: set_intersection.induct)
  case (1 ys)
  show ?case by simp
next
  case (2 x xs)
  show ?case by simp
next
  case (3 x xs y ys)
  consider (lt) "x < y" | (gt) "y < x" | (eq) "x = y"
    by (metis less_linear)
  then show ?case
  proof cases
    case lt
    have notin: "\<forall>z \<in> set (y # ys). z \<noteq> x"
      using lt "3.prems"(2) by auto
    have f: "filter (\<lambda>z. z \<in> set (x # xs)) (y # ys) = filter (\<lambda>z. z \<in> set xs) (y # ys)"
      by (rule filter_cong) (use notin in auto)
    have sx: "sorted xs" using "3.prems"(1) by simp
    have "length (set_intersection xs (y # ys)) = length (filter (\<lambda>z. z \<in> set xs) (y # ys))"
      by (rule "3.IH"(1) [OF lt sx "3.prems"(2) "3.prems"(3)])
    moreover have "set_intersection (x # xs) (y # ys) = set_intersection xs (y # ys)"
      using lt by simp
    ultimately show ?thesis using f by presburger
  next
    case gt
    have nlt: "\<not> x < y" using gt by simp
    have "y \<notin> set (x # xs)"
      using gt "3.prems"(1) by auto
    then have f: "filter (\<lambda>z. z \<in> set (x # xs)) (y # ys) = filter (\<lambda>z. z \<in> set (x # xs)) ys"
      by simp
    have sy: "sorted ys" and dy: "distinct ys" using "3.prems" by simp_all
    have "length (set_intersection (x # xs) ys) = length (filter (\<lambda>z. z \<in> set (x # xs)) ys)"
      by (rule "3.IH"(2) [OF nlt gt "3.prems"(1) sy dy])
    moreover have "set_intersection (x # xs) (y # ys) = set_intersection (x # xs) ys"
      using gt nlt by simp
    ultimately show ?thesis using f by presburger
  next
    case eq
    have notin: "\<forall>z \<in> set ys. z \<noteq> x"
      using eq "3.prems"(3) by auto
    have "filter (\<lambda>z. z \<in> set (x # xs)) ys = filter (\<lambda>z. z \<in> set xs) ys"
      by (rule filter_cong) (use notin in auto)
    then have f: "filter (\<lambda>z. z \<in> set (x # xs)) (y # ys) = y # filter (\<lambda>z. z \<in> set xs) ys"
      using eq by simp
    have n1: "\<not> x < y" and n2: "\<not> y < x" using eq by simp_all
    have sx: "sorted xs" and sy: "sorted ys" and dy: "distinct ys" using "3.prems" by simp_all
    have "length (set_intersection xs ys) = length (filter (\<lambda>z. z \<in> set xs) ys)"
      by (rule "3.IH"(3) [OF n1 n2 sx sy dy])
    moreover have "set_intersection (x # xs) (y # ys) = x # set_intersection xs ys"
      using n1 n2 by simp
    ultimately show ?thesis using f by simp
  qed
qed

lemma length_filter_sort: "length (filter P (sort xs)) = length (filter P xs)"
  by (simp add: filter_sort)

text \<open>What one round of the loop computes for a team of distinct members: the number of
  members outside the excluded identifiers.\<close>

lemma team_left_after_exclusion:
  assumes "distinct ids"
  shows "length (sort ids) - length (set_intersection (sort ex) (sort ids)) =
         length (filter (\<lambda>u. u \<notin> set ex) ids)"
proof -
  have "length (set_intersection (sort ex) (sort ids)) =
        length (filter (\<lambda>u. u \<in> set (sort ex)) (sort ids))"
    by (rule set_intersection_length_filter) (use assms in simp_all)
  also have "\<dots> = length (filter (\<lambda>u. u \<in> set ex) ids)"
    by (simp add: length_filter_sort)
  finally have "length (set_intersection (sort ex) (sort ids)) =
                length (filter (\<lambda>u. u \<in> set ex) ids)" .
  moreover have "length ids =
      length (filter (\<lambda>u. u \<in> set ex) ids) + length (filter (\<lambda>u. u \<notin> set ex) ids)"
    using sum_length_filter_compl [of "\<lambda>u. u \<in> set ex" ids] by simp
  ultimately show ?thesis by simp
qed

lemma exclusionSafetyCheck_loop_iff:
  "\<forall>t \<in> set ts. distinct (serverIDs (mem t)) \<Longrightarrow>
   exclusionSafetyCheck_loop knobs (sort ex) mem ts \<longleftrightarrow>
     (\<forall>t \<in> set ts. DD_EXCLUDE_MIN_REPLICAS knobs \<le> length (filter (\<lambda>u. u \<notin> set ex) (serverIDs (mem t))))"
proof (induction ts)
  case Nil
  show ?case by simp
next
  case (Cons t ts)
  have d: "distinct (serverIDs (mem t))" using Cons.prems by simp
  show ?case
    using Cons.IH Cons.prems team_left_after_exclusion [OF d, of ex]
    by (auto simp add: Let_def)
qed

text \<open>
  Claim C9.  For every list of server identifiers to exclude, and teams whose members
  are distinct, the safety check returns true exactly when every team of the collection
  keeps at least \<open>DD_EXCLUDE_MIN_REPLICAS\<close> members outside the excluded identifiers.  The
  request handler replies unsafe when the team collection is absent or holds at most one
  team, whatever the exclusions.
\<close>

theorem exclusionSafetyCheck_min_replicas:
  assumes "\<forall>t \<in> set (teams tc). distinct (serverIDs (teamObj tc t))"
  shows "(exclusionSafetyCheck knobs ex tc \<longleftrightarrow>
            (\<forall>t \<in> set (teams tc).
               DD_EXCLUDE_MIN_REPLICAS knobs \<le> length (filter (\<lambda>u. u \<notin> set ex) (serverIDs (teamObj tc t))))) \<and>
         ddExclusionSafetyCheck knobs excludes exclusions ssis None = False \<and>
         (length (teams tc') \<le> 1 \<longrightarrow> ddExclusionSafetyCheck knobs excludes exclusions ssis (Some tc') = False)"
  using exclusionSafetyCheck_loop_iff [OF assms, of knobs ex]
  by (simp add: exclusionSafetyCheck_def ddExclusionSafetyCheck_def)

theorem exclusionSafetyCheck_min_replicas_witness:
  "exclusionSafetyCheck knobs0 [3, 3] collection_two_teams = True \<and>
   exclusionSafetyCheck (knobs0\<lparr>DD_EXCLUDE_MIN_REPLICAS := 2\<rparr>) [3, 2] collection_two_teams = False \<and>
   ddExclusionSafetyCheck knobs0 (\<lambda>e a. True) [] [] (Some collection0) = False"
proof -
  have d: "\<forall>t \<in> set (teams collection_two_teams). distinct (serverIDs (teamObj collection_two_teams t))"
    by (simp add: collection_two_teams_def collection0_def team0_def)
  have l: "length (teams collection0) \<le> 1"
    by (simp add: collection0_def)
  show ?thesis
    using exclusionSafetyCheck_min_replicas [OF d, of knobs0 "[3, 3]" "\<lambda>e a. True" "[]" "[]" collection0]
      exclusionSafetyCheck_min_replicas [OF d, of "knobs0\<lparr>DD_EXCLUDE_MIN_REPLICAS := 2\<rparr>" "[3, 2]"] l
    by (simp add: collection_two_teams_def collection0_def team0_def knobs0_def)
qed

section \<open>Properties of the wiggle exclusion\<close>

lemma excludeStorageServersForWiggle_loop_serverObj:
  "serverObj (fst (excludeStorageServersForWiggle_loop self infos mf)) = serverObj self"
  by (induction self infos mf rule: excludeStorageServersForWiggle_loop.induct)
     (simp_all add: Let_def wiggleAddress_def)

lemma wiggleAddress_update:
  "wiggleAddress (self\<lparr>wiggle_addresses := w, excludedServers := e\<rparr>) = wiggleAddress self"
  by (simp add: wiggleAddress_def fun_eq_iff)

lemma excludeStorageServersForWiggle_loop_excluded:
  "excludedServers (fst (excludeStorageServersForWiggle_loop self infos mf)) addr =
     (if addr \<in> set (map (wiggleAddress self) infos) \<and> excludedServers_get self addr = NONE
      then Some WIGGLING else excludedServers self addr)"
proof (induction self infos mf rule: excludeStorageServersForWiggle_loop.induct)
  case (1 self moveFutures)
  show ?case by simp
next
  case (2 self info infos moveFutures)
  let ?a = "wiggleAddress self info"
  let ?self' = "self\<lparr>wiggle_addresses := wiggle_addresses self @ [?a],
                      excludedServers := AsyncMap_set NONE (excludedServers self) ?a WIGGLING\<rparr>"
  have w: "wiggleAddress ?self' = wiggleAddress self"
    by (rule wiggleAddress_update)
  show ?case
  proof (cases "AsyncMap_count (excludedServers self) ?a \<noteq> 0 \<and> excludedServers_get self ?a \<noteq> NONE")
    case True
    then show ?thesis
      using "2.IH"(1) [OF refl True] by (auto simp: Let_def)
  next
    case False
    have none: "excludedServers_get self ?a = NONE"
      using False
      by (auto simp: AsyncMap_count_def excludedServers_get_def AsyncMap_get_def split: option.splits)
    have step: "excludeStorageServersForWiggle_loop self (info # infos) moveFutures =
                excludeStorageServersForWiggle_loop ?self' infos (moveFutures @ [info])"
      using none by (simp add: Let_def)
    have ih: "excludedServers (fst (excludeStorageServersForWiggle_loop ?self' infos (moveFutures @ [info]))) addr =
        (if addr \<in> set (map (wiggleAddress self) infos) \<and> excludedServers_get ?self' addr = NONE
         then Some WIGGLING else excludedServers ?self' addr)"
      using "2.IH"(2) [OF refl False] unfolding w .
    have e': "excludedServers ?self' = (excludedServers self)(?a \<mapsto> WIGGLING)"
      by (simp add: AsyncMap_set_def)
    show ?thesis
      unfolding step ih
      using none
      by (auto simp: e' excludedServers_get_def AsyncMap_get_def split: option.splits)
  qed
qed

text \<open>
  Claim C10.  After \<open>excludeStorageServersForWiggle pid\<close> the exclusion entry of an
  address is \<open>WIGGLING\<close> when the address belongs to a storage server of process \<open>pid\<close>
  and its status was \<open>NONE\<close> or absent; the entry of every other address, be it mapped to
  another status or not an address of the process, is the entry it had.
\<close>

theorem excludeStorageServersForWiggle_excludedServers:
  "excludedServers (fst (excludeStorageServersForWiggle self pid)) addr =
     (if addr \<in> addressesOfProcess self pid \<and> excludedServers_get self addr = NONE
      then Some WIGGLING else excludedServers self addr)"
proof (cases "pid2server_info self pid")
  case None
  then show ?thesis
    by (simp add: excludeStorageServersForWiggle_def addressesOfProcess_def)
next
  case (Some infos)
  obtain self' mf where l: "excludeStorageServersForWiggle_loop self infos [] = (self', mf)"
    by (cases "excludeStorageServersForWiggle_loop self infos []")
  have "excludedServers self' addr =
     (if addr \<in> set (map (wiggleAddress self) infos) \<and> excludedServers_get self addr = NONE
      then Some WIGGLING else excludedServers self addr)"
    using excludeStorageServersForWiggle_loop_excluded [of self infos "[]" addr] l by simp
  then show ?thesis
    using Some l by (simp add: excludeStorageServersForWiggle_def addressesOfProcess_def)
qed

section \<open>Properties of adding a team\<close>

lemma TCTeamInfo_size_new: "TCTeamInfo_size (TCTeamInfo_new knobs mem ss) = Inr (int (length ss))"
  by (simp add: TCTeamInfo_size_def TCTeamInfo_new_def)

lemma addTeam_assign_localityEntry:
  "localityEntry (addTeam_assign mem ss t x) = localityEntry (mem x)"
  by (induction ss arbitrary: mem) simp_all

lemma servers_TCTeamInfo_new: "servers (TCTeamInfo_new knobs mem ss) = ss"
  by (simp add: TCTeamInfo_new_def)

lemma satisfiesPolicy_localityEntry:
  "(\<And>x. localityEntry (mem' x) = localityEntry (mem x)) \<Longrightarrow>
   satisfiesPolicy sel mem' team amount = satisfiesPolicy sel mem team amount"
  by (simp add: satisfiesPolicy_def)

lemma addMachineTeam_ids_frame:
  "teams (fst (addMachineTeam_ids self ids)) = teams self"
  "badTeams (fst (addMachineTeam_ids self ids)) = badTeams self"
  "teamObj (fst (addMachineTeam_ids self ids)) = teamObj self"
  "serverObj (fst (addMachineTeam_ids self ids)) = serverObj self"
  by (simp_all add: addMachineTeam_ids_def addMachineTeam_def Let_def)

lemma addTeam_link_frame:
  "teams (fst (addTeam_link self r mt)) = teams self"
  "badTeams (fst (addTeam_link self r mt)) = badTeams self"
  "servers (teamObj (fst (addTeam_link self r mt)) r') = servers (teamObj self r')"
  "serverObj (fst (addTeam_link self r mt)) = serverObj self"
  by (simp_all add: addTeam_link_def split: option.splits)

lemma addTeam_findOrCreate_frame:
  "teams (fst (addTeam_findOrCreate self ids found)) = teams self"
  "badTeams (fst (addTeam_findOrCreate self ids found)) = badTeams self"
  "teamObj (fst (addTeam_findOrCreate self ids found)) = teamObj self"
  "serverObj (fst (addTeam_findOrCreate self ids found)) = serverObj self"
  by (cases "addMachineTeam_ids self ids";
      use addMachineTeam_ids_frame [of self ids] in \<open>simp add: addTeam_findOrCreate_def\<close>)+

lemma addTeam_machineTeam_cases:
  "addTeam_machineTeam self r ss isInitialTeam = (self, snd (addTeam_machineTeam self r ss isInitialTeam)) \<or>
   (\<exists>ids found. addTeam_machineTeam self r ss isInitialTeam =
      addTeam_link (fst (addTeam_findOrCreate self ids found)) r (snd (addTeam_findOrCreate self ids found)))"
  by (auto simp add: addTeam_machineTeam_def split: sum.splits prod.splits)
     (metis fst_conv snd_conv)+

lemma addTeam_machineTeam_frame:
  "teams (fst (addTeam_machineTeam self r ss isInitialTeam)) = teams self"
  "badTeams (fst (addTeam_machineTeam self r ss isInitialTeam)) = badTeams self"
  "servers (teamObj (fst (addTeam_machineTeam self r ss isInitialTeam)) r') = servers (teamObj self r')"
  "serverObj (fst (addTeam_machineTeam self r ss isInitialTeam)) = serverObj self"
  using addTeam_machineTeam_cases [of self r ss isInitialTeam]
  by (auto simp add: addTeam_link_frame addTeam_findOrCreate_frame) (metis fst_conv)+

text \<open>A bad team is appended to \<open>badTeams\<close> and the call returns.\<close>

lemma addTeam_bad:
  assumes "redundantTeam \<or> int (length ss) \<noteq> storageTeamSize (configuration self) \<or>
           \<not> satisfiesPolicy sel (serverObj self) ss (-1)"
  shows "badTeams (fst (addTeam knobs sel self ss isInitialTeam redundantTeam)) = badTeams self @ [nextRef self]"
    and "teams (fst (addTeam knobs sel self ss isInitialTeam redundantTeam)) = teams self"
    and "snd (addTeam knobs sel self ss isInitialTeam redundantTeam) = None"
  using assms
  by (simp_all add: addTeam_def Let_def TCTeamInfo_size_new servers_TCTeamInfo_new)

text \<open>A team that is not bad is appended to \<open>teams\<close>, whether the rest of the call
  succeeds or throws.\<close>

lemma addTeam_good:
  assumes "\<not> (redundantTeam \<or> int (length ss) \<noteq> storageTeamSize (configuration self) \<or>
              \<not> satisfiesPolicy sel (serverObj self) ss (-1))"
  shows "teams (fst (addTeam knobs sel self ss isInitialTeam redundantTeam)) = teams self @ [nextRef self]"
    and "badTeams (fst (addTeam knobs sel self ss isInitialTeam redundantTeam)) = badTeams self"
    and "servers (teamObj (fst (addTeam knobs sel self ss isInitialTeam redundantTeam)) (nextRef self)) = ss"
    and "localityEntry (serverObj (fst (addTeam knobs sel self ss isInitialTeam redundantTeam)) x) =
         localityEntry (serverObj self x)"
  using assms
  by (simp_all add: addTeam_def Let_def TCTeamInfo_size_new servers_TCTeamInfo_new
      addTeam_machineTeam_frame addTeam_assign_localityEntry)

text \<open>
  Claim C1.  For every call of \<open>addTeam\<close> on a vector of servers, the new team is
  appended to \<open>badTeams\<close>, and not to \<open>teams\<close>, exactly when it was flagged redundant, or its
  size differs from the configured \<open>storageTeamSize\<close>, or its members do not satisfy the
  replication policy.  Otherwise it is appended to \<open>teams\<close>, and then it has exactly
  \<open>storageTeamSize\<close> members and satisfies the replication policy in the collection it was
  added to.
\<close>

theorem addTeam_classification:
  "(if redundantTeam \<or> int (length ss) \<noteq> storageTeamSize (configuration self) \<or>
       \<not> satisfiesPolicy sel (serverObj self) ss (-1)
    then badTeams (fst (addTeam knobs sel self ss isInitialTeam redundantTeam)) = badTeams self @ [nextRef self] \<and>
         teams (fst (addTeam knobs sel self ss isInitialTeam redundantTeam)) = teams self
    else teams (fst (addTeam knobs sel self ss isInitialTeam redundantTeam)) = teams self @ [nextRef self] \<and>
         badTeams (fst (addTeam knobs sel self ss isInitialTeam redundantTeam)) = badTeams self \<and>
         int (length (servers (teamObj (fst (addTeam knobs sel self ss isInitialTeam redundantTeam)) (nextRef self))))
           = storageTeamSize (configuration self) \<and>
         satisfiesPolicy sel (serverObj (fst (addTeam knobs sel self ss isInitialTeam redundantTeam)))
           (servers (teamObj (fst (addTeam knobs sel self ss isInitialTeam redundantTeam)) (nextRef self))) (-1))"
proof (cases "redundantTeam \<or> int (length ss) \<noteq> storageTeamSize (configuration self) \<or>
       \<not> satisfiesPolicy sel (serverObj self) ss (-1)")
  case True
  then show ?thesis
    using addTeam_bad(1,2) [OF True, of knobs isInitialTeam] by simp
next
  case False
  let ?self' = "fst (addTeam knobs sel self ss isInitialTeam redundantTeam)"
  have s: "servers (teamObj ?self' (nextRef self)) = ss"
    by (rule addTeam_good(3) [OF False])
  have "satisfiesPolicy sel (serverObj ?self') ss (-1) = satisfiesPolicy sel (serverObj self) ss (-1)"
    by (rule satisfiesPolicy_localityEntry) (rule addTeam_good(4) [OF False])
  then show ?thesis
    using False s addTeam_good(1,2) [OF False, of knobs isInitialTeam] by simp
qed

theorem addTeam_classification_witness:
  "teams (fst (addTeam knobs0 policy_accepts collection_single [1] True False)) = [0] \<and>
   badTeams (fst (addTeam knobs0 policy_accepts collection_single [1] True False)) = [] \<and>
   badTeams (fst (addTeam knobs0 policy_rejects collection_single [1] True False)) = [0] \<and>
   badTeams (fst (addTeam knobs0 policy_accepts collection_single [1, 2] True False)) = [0] \<and>
   badTeams (fst (addTeam knobs0 policy_accepts collection_single [1] True True)) = [0]"
  using addTeam_classification [of False "[1]" collection_single policy_accepts knobs0 True]
    addTeam_classification [of False "[1]" collection_single policy_rejects knobs0 True]
    addTeam_classification [of False "[1, 2]" collection_single policy_accepts knobs0 True]
    addTeam_classification [of True "[1]" collection_single policy_accepts knobs0 True]
  by (simp add: collection_single_def collection0_def satisfiesPolicy_def policy_accepts_def
      policy_rejects_def)

text \<open>The call on the accepting policy completes: the team gets its machine team.\<close>

lemma addTeam_single_completes:
  "snd (addTeam knobs0 policy_accepts collection_single [1] True False) = None \<and>
   machineTeam (teamObj (fst (addTeam knobs0 policy_accepts collection_single [1] True False)) 0) = Some 1"
  by (simp add: addTeam_def Let_def TCTeamInfo_size_def TCTeamInfo_new_def satisfiesPolicy_def
      policy_accepts_def collection_single_def collection0_def server0_def findMachineTeam_def
      map_get_def addMachineTeam_ids_def addMachineTeam_def addTeam_machineTeam_def
      addTeam_findOrCreate_def addTeam_link_def)

section \<open>Properties of the server removal\<close>

lemma waitForAllDataRemoved_Returned:
  "waitForAllDataRemoved knobs addedVer polls = Returned \<Longrightarrow>
   \<exists>p \<in> set polls. drainedAndAged knobs addedVer p"
proof (induction polls)
  case Nil
  then show ?case by simp
next
  case (Cons p ps)
  show ?case
  proof (cases "drainedAndAged knobs addedVer p")
    case True
    then show ?thesis by simp
  next
    case False
    then have "waitForAllDataRemoved knobs addedVer ps = Returned"
      using Cons.prems
      by (auto simp: drainedAndAged_def split: option.splits if_splits)
    then show ?thesis using Cons.IH by simp
  qed
qed

text \<open>The wait does return: after polls that make the loop go round again, a poll at
  which the server is drained and aged ends it.\<close>

lemma waitForAllDataRemoved_returns:
  "\<forall>q \<in> set qs. pollAgain knobs addedVer q \<Longrightarrow> drainedAndAged knobs addedVer p \<Longrightarrow>
   waitForAllDataRemoved knobs addedVer (qs @ p # ps) = Returned"
proof (induction qs)
  case Nil
  then show ?case
    by (auto simp: drainedAndAged_def split: option.splits)
next
  case (Cons q qs)
  have "pollAgain knobs addedVer q" using Cons.prems by simp
  then have "waitForAllDataRemoved knobs addedVer (q # (qs @ p # ps)) =
             waitForAllDataRemoved knobs addedVer (qs @ p # ps)"
    by (auto simp: pollAgain_def split: option.splits if_splits)
  then show ?case using Cons by simp
qed

lemma storageServerFailureTracker_round_Break:
  "storageServerFailureTracker_round knobs ignoreZone self server interf status addedVer ev = Break self' status' \<Longrightarrow>
   \<exists>polls. ev = AllDataRemoved polls \<and> waitForAllDataRemoved knobs addedVer polls = Returned \<and>
           isUnhealthy status'"
  by (auto simp: storageServerFailureTracker_round_def
      split: prod.splits if_splits TrackerEvent.splits WaitResult.splits)

lemma storageServerFailureTracker_Returned:
  "storageServerFailureTracker knobs ignoreZone self server interf status addedVer evs =
     Some (TrackerReturned self' status') \<Longrightarrow>
   \<exists>polls. AllDataRemoved polls \<in> set evs \<and> waitForAllDataRemoved knobs addedVer polls = Returned"
proof (induction evs arbitrary: self status)
  case Nil
  then show ?case by simp
next
  case (Cons ev evs)
  show ?case
  proof (cases "storageServerFailureTracker_round knobs ignoreZone self server interf status addedVer ev")
    case (Continue self1 status1)
    then show ?thesis using Cons.prems Cons.IH [of self1 status1] by auto
  next
    case (Break self1 status1)
    then show ?thesis
      using storageServerFailureTracker_round_Break [OF Break] by auto
  next
    case (Throw e)
    then show ?thesis using Cons.prems by simp
  next
    case NotEnabled
    then show ?thesis using Cons.prems Cons.IH [of self status] by auto
  qed
qed

subsection \<open>The links of the test storage servers\<close>

lemma set_map_set: "set (map_set m k v) \<subseteq> insert (k, v) (set m)"
  by (induction m k v rule: map_set.induct) auto

lemma map_set_member: "(k, v) \<in> set (map_set m k v)"
  by (induction m k v rule: map_set.induct) auto

lemma set_map_erase: "set (map_erase m k) \<subseteq> set m"
  by (auto simp add: map_erase_def)

lemma checkAndCreateMachine_frame:
  "server_and_tss_info (fst (checkAndCreateMachine self s)) = server_and_tss_info self"
  "tss_info_by_pair (fst (checkAndCreateMachine self s)) = tss_info_by_pair self"
  "nextRef self \<le> nextRef (fst (checkAndCreateMachine self s))"
  "onTSSPairRemoved (serverObj (fst (checkAndCreateMachine self s)) x) = onTSSPairRemoved (serverObj self x)"
  "killTss (serverObj (fst (checkAndCreateMachine self s)) x) = killTss (serverObj self x)"
  "TCServerInfo.tracker (serverObj (fst (checkAndCreateMachine self s)) x) =
     TCServerInfo.tracker (serverObj self x)"
  "lastKnownInterface (serverObj (fst (checkAndCreateMachine self s)) x) =
     lastKnownInterface (serverObj self x)"
  by (auto simp add: checkAndCreateMachine_def Let_def split: option.splits)

lemma tssLinks_frame:
  assumes "tssLinks self"
    and "server_and_tss_info self' = server_and_tss_info self"
    and "tss_info_by_pair self' = tss_info_by_pair self"
    and "nextRef self \<le> nextRef self'"
    and "\<And>x. onTSSPairRemoved (serverObj self' x) = onTSSPairRemoved (serverObj self x)"
    and "\<And>x. killTss (serverObj self' x) = killTss (serverObj self x)"
    and "\<And>x. TCServerInfo.tracker (serverObj self' x) = TCServerInfo.tracker (serverObj self x)"
  shows "tssLinks self'"
  using assms(1) assms(4)
  unfolding tssLinks_def assms(2) assms(3) assms(5) assms(6) assms(7)
  by fastforce

lemma addServer_tss_links:
  assumes "tssLinks self" and "r < nextRef self" and "isTss newServer"
  shows "tssLinks (fst (addServer_tss self newServer r))"
proof (cases "tssPairID newServer")
  case None
  then show ?thesis using assms(1) by (simp add: addServer_tss_def)
next
  case (Some pair)
  define self' where "self' = fst (addServer_tss self newServer r)"
  have sa: "server_and_tss_info self' = server_and_tss_info self"
    and tp: "tss_info_by_pair self' = map_set (tss_info_by_pair self) pair r"
    and nr: "nextRef self' = nextRef self"
    and tr: "TCServerInfo.tracker (serverObj self' r) = Some True"
    and ot: "\<And>x. x \<noteq> r \<Longrightarrow> serverObj self' x = serverObj self x"
    using Some assms(3)
    by (auto simp add: self'_def addServer_tss_def Let_def split: option.splits)
  have a: "\<forall>(u, x) \<in> set (server_and_tss_info self').
         x < nextRef self' \<and>
         (onTSSPairRemoved (serverObj self' x) \<noteq> None \<or> killTss (serverObj self' x) \<longrightarrow>
          TCServerInfo.tracker (serverObj self' x) = Some True)"
  proof (clarify, intro conjI impI)
    fix u x
    assume m: "(u, x) \<in> set (server_and_tss_info self')"
    then have old: "x < nextRef self \<and>
         (onTSSPairRemoved (serverObj self x) \<noteq> None \<or> killTss (serverObj self x) \<longrightarrow>
          TCServerInfo.tracker (serverObj self x) = Some True)"
      using assms(1) sa by (auto simp add: tssLinks_def)
    show "x < nextRef self'" using old nr by simp
    assume l: "onTSSPairRemoved (serverObj self' x) \<noteq> None \<or> killTss (serverObj self' x)"
    show "TCServerInfo.tracker (serverObj self' x) = Some True"
    proof (cases "x = r")
      case True
      then show ?thesis using tr by simp
    next
      case False
      then show ?thesis using old l ot [of x] by auto
    qed
  qed
  have b: "\<forall>(p, x) \<in> set (tss_info_by_pair self').
         x < nextRef self' \<and> TCServerInfo.tracker (serverObj self' x) = Some True"
  proof (clarify, intro conjI)
    fix p x
    assume "(p, x) \<in> set (tss_info_by_pair self')"
    then have m: "(p, x) = (pair, r) \<or> (p, x) \<in> set (tss_info_by_pair self)"
      using tp set_map_set [of "tss_info_by_pair self" pair r] by auto
    have old: "x \<noteq> r \<Longrightarrow> x < nextRef self \<and> TCServerInfo.tracker (serverObj self x) = Some True"
      using m assms(1) by (auto simp add: tssLinks_def)
    show "x < nextRef self'"
      using old assms(2) nr by (cases "x = r") simp_all
    show "TCServerInfo.tracker (serverObj self' x) = Some True"
      using old tr ot [of x] by (cases "x = r") simp_all
  qed
  show ?thesis
    using a b unfolding tssLinks_def self'_def by simp
qed

lemma addServer_storage_links:
  assumes "tssLinks self" and "r < nextRef self"
    and "onTSSPairRemoved (serverObj self r) = None" and "\<not> killTss (serverObj self r)"
    and "\<And>p t. (p, t) \<in> set (tss_info_by_pair self) \<Longrightarrow> t \<noteq> r"
    and "\<not> isTss newServer"
  shows "tssLinks (fst (addServer_storage self newServer r))"
proof -
  define self1 where "self1 = self\<lparr>server_info := (server_info self)(ssi_id newServer \<mapsto> r)\<rparr>"
  obtain self2 e where c: "checkAndCreateMachine self1 r = (self2, e)"
    by (cases "checkAndCreateMachine self1 r") auto
  have f2: "server_and_tss_info self2 = server_and_tss_info self"
    "tss_info_by_pair self2 = tss_info_by_pair self"
    "nextRef self \<le> nextRef self2"
    "\<And>x. onTSSPairRemoved (serverObj self2 x) = onTSSPairRemoved (serverObj self x)"
    "\<And>x. killTss (serverObj self2 x) = killTss (serverObj self x)"
    "\<And>x. TCServerInfo.tracker (serverObj self2 x) = TCServerInfo.tracker (serverObj self x)"
    using checkAndCreateMachine_frame [of self1 r] c by (simp_all add: self1_def)
  have l2: "tssLinks self2"
    using tssLinks_frame [OF assms(1) f2] .
  show ?thesis
  proof (cases e)
    case (Some err)
    then show ?thesis
      using l2 c by (simp add: addServer_storage_def self1_def [symmetric] Let_def)
  next
    case None
    show ?thesis
    proof (cases "processId (lastKnownInterface (serverObj self2 r))")
      case np: None
      then show ?thesis
        using l2 c None by (simp add: addServer_storage_def self1_def [symmetric] Let_def)
    next
      case (Some pid)
      define self' where "self' = fst (addServer_storage self newServer r)"
      have sa: "server_and_tss_info self' = server_and_tss_info self"
        and tp: "tss_info_by_pair self' = tss_info_by_pair self"
        and nr: "nextRef self' = nextRef self2"
        and tk: "\<And>x. TCServerInfo.tracker (serverObj self' x) =
                   (if x = r then Some False else TCServerInfo.tracker (serverObj self x))"
        and ki: "\<And>x. killTss (serverObj self' x) = killTss (serverObj self x)"
        and on: "\<And>x. onTSSPairRemoved (serverObj self' x) \<noteq> None \<Longrightarrow>
                   onTSSPairRemoved (serverObj self x) \<noteq> None \<or>
                   (\<exists>p. (p, x) \<in> set (tss_info_by_pair self))"
        using c None Some f2 assms(6)
        by (auto simp add: self'_def addServer_storage_def self1_def [symmetric] Let_def
            split: option.splits if_splits dest: map_of_SomeD)
      have a: "\<forall>(u, x) \<in> set (server_and_tss_info self').
             x < nextRef self' \<and>
             (onTSSPairRemoved (serverObj self' x) \<noteq> None \<or> killTss (serverObj self' x) \<longrightarrow>
              TCServerInfo.tracker (serverObj self' x) = Some True)"
      proof (clarify, intro conjI impI)
        fix u x
        assume m: "(u, x) \<in> set (server_and_tss_info self')"
        then have old: "x < nextRef self \<and>
             (onTSSPairRemoved (serverObj self x) \<noteq> None \<or> killTss (serverObj self x) \<longrightarrow>
              TCServerInfo.tracker (serverObj self x) = Some True)"
          using assms(1) sa by (auto simp add: tssLinks_def)
        show "x < nextRef self'" using old nr f2(3) by simp
        assume l: "onTSSPairRemoved (serverObj self' x) \<noteq> None \<or> killTss (serverObj self' x)"
        then consider "onTSSPairRemoved (serverObj self x) \<noteq> None \<or> killTss (serverObj self x)"
          | p where "(p, x) \<in> set (tss_info_by_pair self)"
          using on [of x] ki [of x] by auto
        then show "TCServerInfo.tracker (serverObj self' x) = Some True"
        proof cases
          case 1
          then have "x \<noteq> r" using assms(3) assms(4) by auto
          then show ?thesis using 1 old tk [of x] by simp
        next
          case 2
          then have "x \<noteq> r" using assms(5) by auto
          moreover have "TCServerInfo.tracker (serverObj self x) = Some True"
            using 2 assms(1) by (auto simp add: tssLinks_def)
          ultimately show ?thesis using tk [of x] by simp
        qed
      qed
      have b: "\<forall>(p, x) \<in> set (tss_info_by_pair self').
             x < nextRef self' \<and> TCServerInfo.tracker (serverObj self' x) = Some True"
      proof (clarify, intro conjI)
        fix p x
        assume "(p, x) \<in> set (tss_info_by_pair self')"
        then have m: "(p, x) \<in> set (tss_info_by_pair self)" using tp by simp
        then have old: "x < nextRef self \<and> TCServerInfo.tracker (serverObj self x) = Some True"
          using assms(1) by (auto simp add: tssLinks_def)
        have "x \<noteq> r" using m assms(5) by auto
        show "x < nextRef self'" using old nr f2(3) by simp
        show "TCServerInfo.tracker (serverObj self' x) = Some True"
          using old tk [of x] \<open>x \<noteq> r\<close> by simp
      qed
      show ?thesis
        using a b unfolding tssLinks_def self'_def by simp
    qed
  qed
qed

lemma addServer_links:
  assumes "tssLinks self"
  shows "tssLinks (fst (addServer self newServer processClass entry addedVer))"
proof (cases "shouldHandleServer self newServer")
  case False
  then show ?thesis using assms by (simp add: addServer_def)
next
  case True
  define self1 where
    "self1 = (if \<not> isTss newServer
              then self\<lparr>allServers := allServers self @ [ssi_id newServer]\<rparr> else self)"
  define r where "r = nextRef self1"
  define info where
    "info = TCServerInfo_new newServer processClass
              (includedDCs self1 = [] \<or> ssi_dcId newServer \<in> set (includedDCs self1)) entry addedVer"
  define self2 where
    "self2 = self1\<lparr>nextRef := r + 1,
                    serverObj := (serverObj self1)(r := info),
                    server_and_tss_info := map_set (server_and_tss_info self1) (ssi_id newServer) r\<rparr>"
  have r: "r = nextRef self" by (simp add: r_def self1_def)
  have s1: "server_and_tss_info self1 = server_and_tss_info self"
    "tss_info_by_pair self1 = tss_info_by_pair self" "serverObj self1 = serverObj self"
    by (simp_all add: self1_def)
  have a: "\<forall>(u, x) \<in> set (server_and_tss_info self2).
         x < nextRef self2 \<and>
         (onTSSPairRemoved (serverObj self2 x) \<noteq> None \<or> killTss (serverObj self2 x) \<longrightarrow>
          TCServerInfo.tracker (serverObj self2 x) = Some True)"
  proof (clarify, intro conjI impI)
    fix u x
    assume "(u, x) \<in> set (server_and_tss_info self2)"
    then have m: "x = r \<or> (u, x) \<in> set (server_and_tss_info self)"
      using set_map_set [of "server_and_tss_info self" "ssi_id newServer" r]
      by (auto simp add: self2_def s1)
    have old: "x \<noteq> r \<Longrightarrow> x < nextRef self \<and>
         (onTSSPairRemoved (serverObj self x) \<noteq> None \<or> killTss (serverObj self x) \<longrightarrow>
          TCServerInfo.tracker (serverObj self x) = Some True)"
      using m assms by (auto simp add: tssLinks_def)
    show "x < nextRef self2"
      using old r by (cases "x = r") (simp_all add: self2_def)
    assume l: "onTSSPairRemoved (serverObj self2 x) \<noteq> None \<or> killTss (serverObj self2 x)"
    show "TCServerInfo.tracker (serverObj self2 x) = Some True"
    proof (cases "x = r")
      case True
      then show ?thesis using l by (simp add: self2_def info_def TCServerInfo_new_def)
    next
      case False
      then show ?thesis using old l by (auto simp add: self2_def s1)
    qed
  qed
  have b: "\<forall>(p, x) \<in> set (tss_info_by_pair self2).
         x < nextRef self2 \<and> TCServerInfo.tracker (serverObj self2 x) = Some True"
  proof (clarify, intro conjI)
    fix p x
    assume "(p, x) \<in> set (tss_info_by_pair self2)"
    then have "(p, x) \<in> set (tss_info_by_pair self)" by (simp add: self2_def s1)
    then have old: "x < nextRef self \<and> TCServerInfo.tracker (serverObj self x) = Some True"
      using assms by (auto simp add: tssLinks_def)
    show "x < nextRef self2" using old r by (simp add: self2_def)
    show "TCServerInfo.tracker (serverObj self2 x) = Some True"
      using old r by (auto simp add: self2_def s1)
  qed
  have l2: "tssLinks self2" using a b by (simp add: tssLinks_def)
  have n2: "r < nextRef self2" by (simp add: self2_def)
  have o2: "onTSSPairRemoved (serverObj self2 r) = None" "\<not> killTss (serverObj self2 r)"
    by (simp_all add: self2_def info_def TCServerInfo_new_def)
  have t2: "\<And>p t. (p, t) \<in> set (tss_info_by_pair self2) \<Longrightarrow> t \<noteq> r"
  proof -
    fix p t
    assume "(p, t) \<in> set (tss_info_by_pair self2)"
    then have "(p, t) \<in> set (tss_info_by_pair self)" by (simp add: self2_def s1)
    then have "t < nextRef self" using assms by (auto simp add: tssLinks_def)
    then show "t \<noteq> r" using r by simp
  qed
  have "fst (addServer self newServer processClass entry addedVer) =
        (if isTss newServer then fst (addServer_tss self2 newServer r)
         else fst (addServer_storage self2 newServer r))"
    using True
    by (simp add: addServer_def Let_def self2_def info_def r_def self1_def)
  then show ?thesis
    using addServer_tss_links [OF l2 n2] addServer_storage_links [OF l2 n2 o2 t2]
    by (cases "isTss newServer") simp_all
qed

lemma storageRecruiter_killLoop_frame:
  "server_and_tss_info (storageRecruiter_killLoop self itr n) = server_and_tss_info self \<and>
   tss_info_by_pair (storageRecruiter_killLoop self itr n) = tss_info_by_pair self \<and>
   nextRef (storageRecruiter_killLoop self itr n) = nextRef self \<and>
   (\<forall>x. TCServerInfo.tracker (serverObj (storageRecruiter_killLoop self itr n) x) =
          TCServerInfo.tracker (serverObj self x) \<and>
        onTSSPairRemoved (serverObj (storageRecruiter_killLoop self itr n) x) =
          onTSSPairRemoved (serverObj self x) \<and>
        (killTss (serverObj (storageRecruiter_killLoop self itr n) x) \<longrightarrow>
           killTss (serverObj self x) \<or> x \<in> snd ` set itr))"
proof (induction self itr n rule: storageRecruiter_killLoop.induct)
  case (1 self itr)
  show ?case by simp
next
  case (2 self n)
  show ?case by simp
next
  case (3 self pair r itr n)
  define self1 where
    "self1 = (if shouldHandleServer self (lastKnownInterface (serverObj self r)) \<and>
                 map_of (server_and_tss_info self) (uid (serverObj self r)) \<noteq> None \<and>
                 \<not> killTss (serverObj self r)
              then self\<lparr>serverObj := (serverObj self)(r := (serverObj self r)\<lparr>killTss := True\<rparr>)\<rparr>
              else self)"
  have step: "storageRecruiter_killLoop self ((pair, r) # itr) (Suc n) =
              storageRecruiter_killLoop self1 itr n"
    by (simp add: self1_def Let_def)
  have ih: "server_and_tss_info (storageRecruiter_killLoop self1 itr n) = server_and_tss_info self1 \<and>
   tss_info_by_pair (storageRecruiter_killLoop self1 itr n) = tss_info_by_pair self1 \<and>
   nextRef (storageRecruiter_killLoop self1 itr n) = nextRef self1 \<and>
   (\<forall>x. TCServerInfo.tracker (serverObj (storageRecruiter_killLoop self1 itr n) x) =
          TCServerInfo.tracker (serverObj self1 x) \<and>
        onTSSPairRemoved (serverObj (storageRecruiter_killLoop self1 itr n) x) =
          onTSSPairRemoved (serverObj self1 x) \<and>
        (killTss (serverObj (storageRecruiter_killLoop self1 itr n) x) \<longrightarrow>
           killTss (serverObj self1 x) \<or> x \<in> snd ` set itr))"
    using "3.IH" [of "uid (serverObj self r)" "lastKnownInterface (serverObj self r)" self1]
    by (simp add: self1_def)
  have f1: "server_and_tss_info self1 = server_and_tss_info self"
    "tss_info_by_pair self1 = tss_info_by_pair self" "nextRef self1 = nextRef self"
    "\<And>x. TCServerInfo.tracker (serverObj self1 x) = TCServerInfo.tracker (serverObj self x)"
    "\<And>x. onTSSPairRemoved (serverObj self1 x) = onTSSPairRemoved (serverObj self x)"
    "\<And>x. killTss (serverObj self1 x) \<Longrightarrow> killTss (serverObj self x) \<or> x = r"
    by (auto simp add: self1_def split: if_splits)
  show ?case
    unfolding step using ih f1 by (auto simp del: storageRecruiter_killLoop.simps)
qed

lemma storageRecruiter_killTss_links:
  assumes "tssLinks self"
  shows "tssLinks (storageRecruiter_killTss self tssToRecruit)"
proof -
  have "tssLinks (storageRecruiter_killLoop self (tss_info_by_pair self) n)" for n
  proof -
    define self' where "self' = storageRecruiter_killLoop self (tss_info_by_pair self) n"
    have f: "server_and_tss_info self' = server_and_tss_info self"
      "tss_info_by_pair self' = tss_info_by_pair self" "nextRef self' = nextRef self"
      "\<And>x. TCServerInfo.tracker (serverObj self' x) = TCServerInfo.tracker (serverObj self x)"
      "\<And>x. onTSSPairRemoved (serverObj self' x) = onTSSPairRemoved (serverObj self x)"
      "\<And>x. killTss (serverObj self' x) \<Longrightarrow>
            killTss (serverObj self x) \<or> x \<in> snd ` set (tss_info_by_pair self)"
      using storageRecruiter_killLoop_frame [of self "tss_info_by_pair self" n]
      by (simp_all add: self'_def)
    have t: "\<And>x. x \<in> snd ` set (tss_info_by_pair self) \<Longrightarrow>
               TCServerInfo.tracker (serverObj self x) = Some True"
      using assms by (auto simp add: tssLinks_def)
    have "\<forall>(u, x) \<in> set (server_and_tss_info self').
         x < nextRef self' \<and>
         (onTSSPairRemoved (serverObj self' x) \<noteq> None \<or> killTss (serverObj self' x) \<longrightarrow>
          TCServerInfo.tracker (serverObj self' x) = Some True)"
    proof (clarify, intro conjI impI)
      fix u x
      assume "(u, x) \<in> set (server_and_tss_info self')"
      then have old: "x < nextRef self \<and>
         (onTSSPairRemoved (serverObj self x) \<noteq> None \<or> killTss (serverObj self x) \<longrightarrow>
          TCServerInfo.tracker (serverObj self x) = Some True)"
        using assms f(1) by (auto simp add: tssLinks_def)
      show "x < nextRef self'" using old f(3) by simp
      assume "onTSSPairRemoved (serverObj self' x) \<noteq> None \<or> killTss (serverObj self' x)"
      then have "onTSSPairRemoved (serverObj self x) \<noteq> None \<or> killTss (serverObj self x) \<or>
                 x \<in> snd ` set (tss_info_by_pair self)"
        using f(5) [of x] f(6) [of x] by auto
      then show "TCServerInfo.tracker (serverObj self' x) = Some True"
        using old t [of x] f(4) [of x] by auto
    qed
    moreover have "\<forall>(p, x) \<in> set (tss_info_by_pair self').
         x < nextRef self' \<and> TCServerInfo.tracker (serverObj self' x) = Some True"
      using assms f(2) f(3) f(4) by (auto simp add: tssLinks_def)
    ultimately show ?thesis by (simp add: tssLinks_def self'_def)
  qed
  then show ?thesis
    using assms by (simp add: storageRecruiter_killTss_def Let_def)
qed

lemma removeTSS_links:
  assumes "tssLinks self"
  shows "tssLinks (fst (removeTSS self removedServer))"
proof -
  have "tssLinks (self\<lparr>tss_info_by_pair := map_erase (tss_info_by_pair self) pair,
                      server_and_tss_info := map_erase (server_and_tss_info self) removedServer,
                      server_status := m\<rparr>)" for pair m
    using assms set_map_erase [of "tss_info_by_pair self" pair]
      set_map_erase [of "server_and_tss_info self" removedServer]
    unfolding tssLinks_def by (simp add: subset_iff) blast
  then show ?thesis
    using assms by (simp add: removeTSS_def split: option.splits)
qed

lemma storageServerTracker_removed_links:
  assumes "tssLinks self"
  shows "tssLinks (storageServerTracker_removed self server isTssArg)"
  using assms
  by (rule tssLinks_frame) (simp_all add: storageServerTracker_removed_def Let_def)

lemma tssLinks_init:
  "server_and_tss_info self = [] \<Longrightarrow> tss_info_by_pair self = [] \<Longrightarrow> tssLinks self"
  by (simp add: tssLinks_def)

text \<open>The tracker that \<^verbatim>\<open>addServer\<close> starts for the new server has the argument
  \<^verbatim>\<open>newServer.isTss()\<close>.\<close>

lemma addServer_tracker:
  assumes "addServer self newServer processClass entry addedVer = (self', None)"
    and "shouldHandleServer self newServer"
  shows "(ssi_id newServer, nextRef self) \<in> set (server_and_tss_info self') \<and>
         TCServerInfo.tracker (serverObj self' (nextRef self)) = Some (isTss newServer)"
  using assms map_set_member [of "ssi_id newServer" "nextRef self" "server_and_tss_info self"]
  by (auto simp add: addServer_def addServer_tss_def addServer_storage_def
      checkAndCreateMachine_def Let_def
      split: option.splits if_splits prod.splits)


subsection \<open>The pass of the server tracker\<close>

lemma storageServerTracker_testStatus_shape:
  "\<exists>m. fst (storageServerTracker_testStatus self server addr) = self\<lparr>excludedServers := m\<rparr> \<and>
       (\<forall>a. AsyncMap_get NONE m a = FAILED \<longrightarrow> excludedServers_get self a = FAILED) \<and>
       (snd (storageServerTracker_testStatus self server addr) = FAILED \<longrightarrow>
          excludedServers_get self addr = FAILED)"
proof (cases "excludedServers_get self addr = WIGGLING \<and> invalidWiggleServer self server")
  case True
  have "fst (storageServerTracker_testStatus self server addr) =
          self\<lparr>excludedServers := AsyncMap_set NONE (excludedServers self) addr NONE\<rparr>"
    using True by (simp add: storageServerTracker_testStatus_def)
  moreover have "\<forall>a. AsyncMap_get NONE (AsyncMap_set NONE (excludedServers self) addr NONE) a = FAILED \<longrightarrow>
                     excludedServers_get self a = FAILED"
    by (simp add: AsyncMap_get_def AsyncMap_set_def excludedServers_get_def)
  moreover have "snd (storageServerTracker_testStatus self server addr) = NONE"
    using True by (simp add: storageServerTracker_testStatus_def)
  ultimately show ?thesis
    by (intro exI [of _ "AsyncMap_set NONE (excludedServers self) addr NONE"]) simp
next
  case False
  have t: "storageServerTracker_testStatus self server addr = (self, excludedServers_get self addr)"
    unfolding storageServerTracker_testStatus_def using False by (rule if_not_P)
  have "fst (storageServerTracker_testStatus self server addr) =
          self\<lparr>excludedServers := excludedServers self\<rparr>"
    unfolding t by simp
  moreover have "snd (storageServerTracker_testStatus self server addr) = excludedServers_get self addr"
    unfolding t by simp
  ultimately show ?thesis
    by (intro exI [of _ "excludedServers self"]) (simp add: excludedServers_get_def)
qed

lemma storageServerTracker_worse_shape:
  "\<exists>m. fst (storageServerTracker_worse self server addrs (ws, wa)) = self\<lparr>excludedServers := m\<rparr> \<and>
       (\<forall>a. AsyncMap_get NONE m a = FAILED \<longrightarrow> excludedServers_get self a = FAILED) \<and>
       (fst (snd (storageServerTracker_worse self server addrs (ws, wa))) = FAILED \<longrightarrow>
          ws = FAILED \<or> (\<exists>a \<in> set addrs. excludedServers_get self a = FAILED))"
proof (induction addrs arbitrary: self ws wa)
  case Nil
  show ?case
    by (intro exI [of _ "excludedServers self"]) (simp add: excludedServers_get_def)
next
  case (Cons addr rest)
  obtain self1 st where t: "storageServerTracker_testStatus self server addr = (self1, st)"
    by (cases "storageServerTracker_testStatus self server addr") auto
  obtain m1 where m1: "self1 = self\<lparr>excludedServers := m1\<rparr>"
    "\<forall>a. AsyncMap_get NONE m1 a = FAILED \<longrightarrow> excludedServers_get self a = FAILED"
    "st = FAILED \<longrightarrow> excludedServers_get self addr = FAILED"
    using storageServerTracker_testStatus_shape [of self server addr] t by auto
  define w where "w = (if Status_value st > Status_value ws then (st, addr) else (ws, wa))"
  have step: "storageServerTracker_worse self server (addr # rest) (ws, wa) =
              storageServerTracker_worse self1 server rest (fst w, snd w)"
    using t by (simp add: w_def)
  obtain m2 where m2:
    "fst (storageServerTracker_worse self1 server rest (fst w, snd w)) = self1\<lparr>excludedServers := m2\<rparr>"
    "\<forall>a. AsyncMap_get NONE m2 a = FAILED \<longrightarrow> excludedServers_get self1 a = FAILED"
    "fst (snd (storageServerTracker_worse self1 server rest (fst w, snd w))) = FAILED \<longrightarrow>
       fst w = FAILED \<or> (\<exists>a \<in> set rest. excludedServers_get self1 a = FAILED)"
    using Cons.IH [of self1 "fst w" "snd w"] by auto
  have g1: "\<And>a. excludedServers_get self1 a = FAILED \<Longrightarrow> excludedServers_get self a = FAILED"
    using m1(1) m1(2) by (simp add: excludedServers_get_def)
  have a: "fst (storageServerTracker_worse self server (addr # rest) (ws, wa)) =
           self\<lparr>excludedServers := m2\<rparr>"
    unfolding step m2(1) by (simp add: m1(1))
  have b: "\<forall>a. AsyncMap_get NONE m2 a = FAILED \<longrightarrow> excludedServers_get self a = FAILED"
    using m2(2) g1 by blast
  have fw: "fst w = FAILED \<Longrightarrow> ws = FAILED \<or> excludedServers_get self addr = FAILED"
    using m1(3) by (auto simp add: w_def split: if_splits)
  have c: "fst (snd (storageServerTracker_worse self server (addr # rest) (ws, wa))) = FAILED \<longrightarrow>
           ws = FAILED \<or> (\<exists>a \<in> set (addr # rest). excludedServers_get self a = FAILED)"
    unfolding step using m2(3) fw g1 by auto
  show ?case using a b c by blast
qed

lemma storageServerTracker_worstStatus_shape:
  "\<exists>m. fst (storageServerTracker_worstStatus self server) = self\<lparr>excludedServers := m\<rparr> \<and>
       (fst (snd (storageServerTracker_worstStatus self server)) = FAILED \<longrightarrow>
          excludedAsFailed self server)"
proof -
  define ssi where "ssi = lastKnownInterface (serverObj self server)"
  define addr where "addr = AddressExclusion (ip (address ssi)) (port (address ssi))"
  obtain self1 st where t: "storageServerTracker_testStatus self server addr = (self1, st)"
    by (cases "storageServerTracker_testStatus self server addr") auto
  obtain m1 where m1: "self1 = self\<lparr>excludedServers := m1\<rparr>"
    "\<forall>a. AsyncMap_get NONE m1 a = FAILED \<longrightarrow> excludedServers_get self a = FAILED"
    "st = FAILED \<longrightarrow> excludedServers_get self addr = FAILED"
    using storageServerTracker_testStatus_shape [of self server addr] t by auto
  have w: "storageServerTracker_worstStatus self server =
           storageServerTracker_worse self1 server (storageServerTracker_testAddrs ssi) (st, addr)"
    using t by (simp add: storageServerTracker_worstStatus_def Let_def ssi_def addr_def)
  obtain m2 where m2:
    "fst (storageServerTracker_worse self1 server (storageServerTracker_testAddrs ssi) (st, addr)) =
       self1\<lparr>excludedServers := m2\<rparr>"
    "fst (snd (storageServerTracker_worse self1 server (storageServerTracker_testAddrs ssi) (st, addr))) =
       FAILED \<longrightarrow>
       st = FAILED \<or> (\<exists>a \<in> set (storageServerTracker_testAddrs ssi). excludedServers_get self1 a = FAILED)"
    using storageServerTracker_worse_shape [of self1 server "storageServerTracker_testAddrs ssi" st addr]
    by auto
  have g1: "\<And>a. excludedServers_get self1 a = FAILED \<Longrightarrow> excludedServers_get self a = FAILED"
    using m1(1) m1(2) by (simp add: excludedServers_get_def)
  have a: "fst (storageServerTracker_worstStatus self server) = self\<lparr>excludedServers := m2\<rparr>"
    unfolding w m2(1) by (simp add: m1(1))
  have b: "fst (snd (storageServerTracker_worstStatus self server)) = FAILED \<longrightarrow>
           excludedAsFailed self server"
    unfolding w using m2(2) m1(3) g1
    by (auto simp add: excludedAsFailed_def Let_def ssi_def [symmetric] addr_def [symmetric])
  show ?thesis using a b by blast
qed

text \<open>The pass sends a server to \<^verbatim>\<open>removeFailedServer\<close> only when the server is not a test
  storage server and one of its addresses is excluded as failed; it changes nothing else
  of the collection but the exclusion map.\<close>

lemma storageServerTracker_enter_Conflict:
  assumes "storageServerTracker_enter fns self server isTssArg status ddEnabled = Conflict self'"
  shows "\<not> isTssArg \<and> excludedAsFailed self server \<and>
         removeFailedServer self' =
           Some (case removeFailedServer self of None \<Rightarrow> uid (serverObj self server) | Some x \<Rightarrow> x)"
proof -
  obtain self1 ws wa where w: "storageServerTracker_worstStatus self server = (self1, ws, wa)"
    by (cases "storageServerTracker_worstStatus self server") auto
  obtain m where m: "self1 = self\<lparr>excludedServers := m\<rparr>"
    "ws = FAILED \<longrightarrow> excludedAsFailed self server"
    using storageServerTracker_worstStatus_shape [of self server] w by auto
  have c: "ws = FAILED \<and> \<not> isTssArg \<and>
        self' = (if removeFailedServer self1 = None
                 then self1\<lparr>removeFailedServer := Some (uid (serverObj self1 server))\<rparr> else self1)"
    using assms w
    by (auto simp add: storageServerTracker_enter_def Let_def split: if_splits)
  show ?thesis
    using c m by (auto split: option.splits)
qed

lemma storageServerFailureTracker_round_frame:
  assumes "storageServerFailureTracker_round knobs ignoreZone self server interf status addedVer ev = step"
    and "step = Continue self1 status1 \<or> step = Break self1 status1"
  shows "serverObj self1 = serverObj self \<and> server_and_tss_info self1 = server_and_tss_info self \<and>
         tss_info_by_pair self1 = tss_info_by_pair self \<and> nextRef self1 = nextRef self \<and>
         removeFailedServer self1 = removeFailedServer self"
proof -
  obtain s2 st2 z where e: "failureTracker_enter ignoreZone self interf status = (s2, st2, z)"
    by (cases "failureTracker_enter ignoreZone self interf status") auto
  have "s2 = fst (failureTracker_enter ignoreZone self interf status)" using e by simp
  then have f2: "serverObj s2 = serverObj self" "server_and_tss_info s2 = server_and_tss_info self"
    "tss_info_by_pair s2 = tss_info_by_pair self" "nextRef s2 = nextRef self"
    "removeFailedServer s2 = removeFailedServer self"
    by (simp_all add: failureTracker_enter_def Let_def)
  show ?thesis
  proof (cases ev)
    case HealthChanged
    obtain s3 st3 where h: "failureTracker_healthChanged knobs ignoreZone s2 server st2 = (s3, st3)"
      by (cases "failureTracker_healthChanged knobs ignoreZone s2 server st2") auto
    have "s3 = fst (failureTracker_healthChanged knobs ignoreZone s2 server st2)" using h by simp
    then have f3: "serverObj s3 = serverObj s2" "server_and_tss_info s3 = server_and_tss_info s2"
      "tss_info_by_pair s3 = tss_info_by_pair s2" "nextRef s3 = nextRef s2"
      "removeFailedServer s3 = removeFailedServer s2"
      by (simp_all add: failureTracker_healthChanged_def Let_def split: option.splits)
    have "self1 = s3"
      using assms e h HealthChanged
      by (auto simp add: storageServerFailureTracker_round_def split: if_splits)
    then show ?thesis using f2 f3 by simp
  next
    case (AllDataRemoved polls)
    have "self1 = s2"
      using assms e AllDataRemoved
      by (auto simp add: storageServerFailureTracker_round_def split: if_splits WaitResult.splits)
    then show ?thesis using f2 by simp
  next
    case (HealthyZoneChanged z')
    have "self1 = s2\<lparr>healthyZone := z'\<rparr>"
      using assms e HealthyZoneChanged
      by (auto simp add: storageServerFailureTracker_round_def split: if_splits)
    then show ?thesis using f2 by simp
  qed
qed

lemma storageServerFailureTracker_frame:
  "storageServerFailureTracker knobs ignoreZone self server interf status addedVer evs =
     Some (TrackerReturned self1 status1) \<Longrightarrow>
   serverObj self1 = serverObj self \<and> server_and_tss_info self1 = server_and_tss_info self \<and>
   tss_info_by_pair self1 = tss_info_by_pair self \<and> nextRef self1 = nextRef self \<and>
   removeFailedServer self1 = removeFailedServer self"
proof (induction evs arbitrary: self status)
  case Nil
  then show ?case by simp
next
  case (Cons ev evs)
  show ?case
  proof (cases "storageServerFailureTracker_round knobs ignoreZone self server interf status addedVer ev")
    case (Continue s2 st2)
    show ?thesis
      using Cons.IH [of s2 st2] Cons.prems Continue
        storageServerFailureTracker_round_frame [OF Continue, of s2 st2]
      by simp
  next
    case (Break s2 st2)
    show ?thesis
      using Cons.prems Break storageServerFailureTracker_round_frame [OF Break, of s2 st2]
      by simp
  next
    case (Throw e)
    then show ?thesis using Cons.prems by simp
  next
    case NotEnabled
    then show ?thesis using Cons.IH [of self status] Cons.prems by simp
  qed
qed

text \<open>The removal branch of the tracker of a registered server fires only after the
  failure tracker has returned, unless the tracker was started for a test storage
  server.\<close>

lemma storageServerTracker_removalFires_tss:
  assumes "tssLinks tc" and "(u, server) \<in> set (server_and_tss_info tc)"
    and "storageServerTracker_removalFires tc server None = Inr True"
  shows "TCServerInfo.tracker (serverObj tc server) = Some True"
proof -
  have "onTSSPairRemoved (serverObj tc server) \<noteq> None \<or> killTss (serverObj tc server)"
    using assms(3)
    by (auto simp add: storageServerTracker_removalFires_def onTSSPairRemoved_isReady_def
        split: option.splits)
  then show ?thesis
    using assms(1) assms(2) by (auto simp add: tssLinks_def)
qed

lemma dataDistribution_catch_removes:
  "RemoveStorageServer x \<in> set (fst (dataDistribution_catch sent err ddEnabled)) \<Longrightarrow> sent = Some x"
  by (auto simp add: dataDistribution_catch_def split: option.splits if_splits)

text \<open>The pass of the server tracker and the failure tracker keep the links of the test
  storage servers: they write none of the fields the links are made of.\<close>

lemma storageServerTracker_enter_links:
  assumes "tssLinks self"
    and "storageServerTracker_enter fns self server isTssArg status ddEnabled = e"
    and "e = Tracking self' status' \<or> e = Disabled self' \<or> e = Conflict self'"
  shows "tssLinks self'"
proof -
  obtain self1 ws wa where w: "storageServerTracker_worstStatus self server = (self1, ws, wa)"
    by (cases "storageServerTracker_worstStatus self server") auto
  obtain m where m: "self1 = self\<lparr>excludedServers := m\<rparr>"
    using storageServerTracker_worstStatus_shape [of self server] w by auto
  have "self' = self1 \<or> self' = self1\<lparr>removeFailedServer := Some (uid (serverObj self1 server))\<rparr>"
    using assms(2) assms(3) w
    by (auto simp add: storageServerTracker_enter_def Let_def split: if_splits)
  then have f: "server_and_tss_info self' = server_and_tss_info self"
    "tss_info_by_pair self' = tss_info_by_pair self" "nextRef self \<le> nextRef self'"
    "serverObj self' = serverObj self"
    using m by auto
  show ?thesis
    using assms(1) f(1) f(2) f(3) by (rule tssLinks_frame) (simp_all add: f(4))
qed

lemma storageServerFailureTracker_links:
  assumes "tssLinks self"
    and "storageServerFailureTracker knobs ignoreZone self server interf status addedVer evs =
           Some (TrackerReturned self1 status1)"
  shows "tssLinks self1"
  using assms(1)
  by (rule tssLinks_frame) (simp_all add: storageServerFailureTracker_frame [OF assms(2)])

text \<open>
  Claim C2, as the code has it.  \<open>waitForAllDataRemoved\<close> returns normally only at a poll
  at which the server is confirmed removable, its shard counter is 0 and the read version
  exceeds the added version by more than \<open>MAX_READ_TRANSACTION_LIFE_VERSIONS\<close>.  The
  failure tracker returns only after a \<open>waitForAllDataRemoved\<close> it started has returned.
  The removal branch of the tracker of a registered server fires only after the failure
  tracker has returned, and so after such a poll, unless the tracker was started for a
  test storage server: only such a server waits for the removal of a pair or is killed,
  which holds in a collection without servers and is kept by \<open>addServer\<close>, by the
  recruiter's kill loop, by \<open>removeTSS\<close> and by the removal itself; and \<open>addServer\<close>
  registers the new server and starts its tracker with \<^verbatim>\<open>newServer.isTss()\<close>.  The other removal is
  that of a failed server: the pass of a tracker sends its server to \<open>removeFailedServer\<close>
  only when the server is not a test storage server and one of its addresses is excluded
  as failed, and the error handler of the data distributor removes the server that was
  sent, without a poll.
\<close>

theorem server_removal_after_drain:
  "(waitForAllDataRemoved knobs addedVer polls = Returned \<longrightarrow>
      (\<exists>p \<in> set polls. drainedAndAged knobs addedVer p)) \<and>
   (storageServerFailureTracker knobs ignoreZone self server interf status addedVer evs =
      Some (TrackerReturned self' status') \<longrightarrow>
      (\<exists>ps. AllDataRemoved ps \<in> set evs \<and> (\<exists>p \<in> set ps. drainedAndAged knobs addedVer p))) \<and>
   (tssLinks tc \<longrightarrow> (u, server) \<in> set (server_and_tss_info tc) \<longrightarrow>
    storageServerTracker_removalFires tc server
      (storageServerFailureTracker knobs ignoreZone self server interf status addedVer evs) = Inr True \<longrightarrow>
      TCServerInfo.tracker (serverObj tc server) = Some True \<or>
      (\<exists>ps. AllDataRemoved ps \<in> set evs \<and> (\<exists>p \<in> set ps. drainedAndAged knobs addedVer p))) \<and>
   (server_and_tss_info tc = [] \<and> tss_info_by_pair tc = [] \<longrightarrow> tssLinks tc) \<and>
   (addServer tc newServer processClass entry addedVer' = (tc2, None) \<and>
    shouldHandleServer tc newServer \<longrightarrow>
      (ssi_id newServer, nextRef tc) \<in> set (server_and_tss_info tc2) \<and>
      TCServerInfo.tracker (serverObj tc2 (nextRef tc)) = Some (isTss newServer)) \<and>
   (tssLinks tc \<longrightarrow>
      tssLinks (fst (addServer tc newServer processClass entry addedVer')) \<and>
      tssLinks (storageRecruiter_killTss tc tssToRecruit) \<and>
      tssLinks (fst (removeTSS tc removedServer)) \<and>
      tssLinks (storageServerTracker_removed tc server isTssArg)) \<and>
   (storageServerTracker_enter fns tc server isTssArg status ddEnabled = Conflict tc' \<longrightarrow>
      \<not> isTssArg \<and> excludedAsFailed tc server \<and>
      removeFailedServer tc' =
        Some (case removeFailedServer tc of None \<Rightarrow> uid (serverObj tc server) | Some x \<Rightarrow> x)) \<and>
   (RemoveStorageServer x \<in> set (fst (dataDistribution_catch sent err handlerEnabled)) \<longrightarrow>
      sent = Some x)"
proof (intro conjI impI)
  assume "waitForAllDataRemoved knobs addedVer polls = Returned"
  then show "\<exists>p \<in> set polls. drainedAndAged knobs addedVer p"
    by (rule waitForAllDataRemoved_Returned)
next
  assume "storageServerFailureTracker knobs ignoreZone self server interf status addedVer evs =
      Some (TrackerReturned self' status')"
  then show "\<exists>ps. AllDataRemoved ps \<in> set evs \<and> (\<exists>p \<in> set ps. drainedAndAged knobs addedVer p)"
    using storageServerFailureTracker_Returned waitForAllDataRemoved_Returned by blast
next
  assume l: "tssLinks tc" and m: "(u, server) \<in> set (server_and_tss_info tc)"
    and f: "storageServerTracker_removalFires tc server
      (storageServerFailureTracker knobs ignoreZone self server interf status addedVer evs) = Inr True"
  show "TCServerInfo.tracker (serverObj tc server) = Some True \<or>
      (\<exists>ps. AllDataRemoved ps \<in> set evs \<and> (\<exists>p \<in> set ps. drainedAndAged knobs addedVer p))"
  proof (cases "storageServerFailureTracker knobs ignoreZone self server interf status addedVer evs")
    case None
    then show ?thesis using storageServerTracker_removalFires_tss [OF l m] f by simp
  next
    case (Some res)
    show ?thesis
    proof (cases res)
      case (TrackerReturned s1 st1)
      then show ?thesis
        using Some storageServerFailureTracker_Returned waitForAllDataRemoved_Returned by blast
    next
      case (TrackerThrew e)
      then show ?thesis using Some f by (simp add: storageServerTracker_removalFires_def)
    qed
  qed
next
  assume "server_and_tss_info tc = [] \<and> tss_info_by_pair tc = []"
  then show "tssLinks tc" by (simp add: tssLinks_init)
next
  assume a: "addServer tc newServer processClass entry addedVer' = (tc2, None) \<and>
    shouldHandleServer tc newServer"
  show "(ssi_id newServer, nextRef tc) \<in> set (server_and_tss_info tc2)"
    using addServer_tracker [of tc newServer processClass entry addedVer' tc2] a by simp
  show "TCServerInfo.tracker (serverObj tc2 (nextRef tc)) = Some (isTss newServer)"
    using addServer_tracker [of tc newServer processClass entry addedVer' tc2] a by simp
next
  assume "tssLinks tc"
  then show "tssLinks (fst (addServer tc newServer processClass entry addedVer'))"
    by (rule addServer_links)
next
  assume "tssLinks tc"
  then show "tssLinks (storageRecruiter_killTss tc tssToRecruit)"
    by (rule storageRecruiter_killTss_links)
next
  assume "tssLinks tc"
  then show "tssLinks (fst (removeTSS tc removedServer))"
    by (rule removeTSS_links)
next
  assume "tssLinks tc"
  then show "tssLinks (storageServerTracker_removed tc server isTssArg)"
    by (rule storageServerTracker_removed_links)
next
  assume c: "storageServerTracker_enter fns tc server isTssArg status ddEnabled = Conflict tc'"
  show "\<not> isTssArg"
    using storageServerTracker_enter_Conflict [OF c] by simp
  show "excludedAsFailed tc server"
    using storageServerTracker_enter_Conflict [OF c] by simp
  show "removeFailedServer tc' =
        Some (case removeFailedServer tc of None \<Rightarrow> uid (serverObj tc server) | Some x \<Rightarrow> x)"
    using storageServerTracker_enter_Conflict [OF c] by simp
next
  assume "RemoveStorageServer x \<in> set (fst (dataDistribution_catch sent err handlerEnabled))"
  then show "sent = Some x" by (rule dataDistribution_catch_removes)
qed


theorem server_removal_after_drain_witness:
  "waitForAllDataRemoved knobs0 0 [poll_busy, poll_done] = Returned \<and>
   (\<exists>p \<in> set [poll_busy, poll_done]. drainedAndAged knobs0 0 p) \<and>
   (\<exists>self' status'.
      storageServerFailureTracker knobs0 ''IgnoreSSFailures'' collection_server 0 ssi1
        status_failed 0 [HealthyZoneChanged None, AllDataRemoved [poll_busy, poll_done]] =
      Some (TrackerReturned self' status')) \<and>
   tssLinks collection_server \<and> tssLinks collection_killed \<and>
   (2, 2) \<in> set (server_and_tss_info collection_killed) \<and>
   storageServerTracker_removalFires collection_killed 2
      (storageServerFailureTracker knobs0 ''IgnoreSSFailures'' collection_killed 2 tss2
        status0 0 [AllDataRemoved [poll_busy]]) = Inr True \<and>
   TCServerInfo.tracker (serverObj collection_killed 2) = Some True \<and>
   (1, 0) \<in> set (server_and_tss_info collection_server) \<and>
   TCServerInfo.tracker (serverObj collection_server 0) = Some False \<and>
   storageServerTracker_removalFires collection_server 0
      (storageServerFailureTracker knobs0 ''IgnoreSSFailures'' collection_server 0 ssi1
        status_failed 0 [HealthyZoneChanged None, AllDataRemoved [poll_busy, poll_done]]) = Inr True \<and>
   (\<exists>ps. AllDataRemoved ps \<in> set [HealthyZoneChanged None, AllDataRemoved [poll_busy, poll_done]] \<and>
         (\<exists>p \<in> set ps. drainedAndAged knobs0 0 p)) \<and>
   (\<exists>tc'. storageServerTracker_enter fns0 collection_excluded 0 False status0 [True] = Conflict tc' \<and>
          removeFailedServer tc' = Some 1) \<and>
   excludedAsFailed collection_excluded 0 \<and>
   fst (dataDistribution_catch (Some 1) movekeys_conflict True) =
     [RemoveKeysFromFailedServer 1, RemoveStorageServer 1]"
proof -
  let ?evs = "[HealthyZoneChanged None, AllDataRemoved [poll_busy, poll_done]]"
  let ?ft = "storageServerFailureTracker knobs0 ''IgnoreSSFailures'' collection_server 0 ssi1
        status_failed 0 ?evs"
  have s: "server_and_tss_info collection_server = [(1, 0)]"
    "healthyZone collection_server = None"
    "server_status collection_server = Map.empty"
    "TCServerInfo.tracker (serverObj collection_server 0) = Some False"
    by (simp_all add: collection_server_def addServer_def addServer_storage_def
        checkAndCreateMachine_def shouldHandleServer_def TCServerInfo_new_def
        collection0_def ssi1_def ssi0_def Let_def)
  have w: "waitForAllDataRemoved knobs0 0 [poll_busy, poll_done] = Returned"
    by (simp add: poll_busy_def poll_done_def knobs0_def)
  have t: "\<exists>self' status'. ?ft = Some (TrackerReturned self' status')"
    by (simp add: storageServerFailureTracker_round_def failureTracker_enter_def s
        poll_busy_def poll_done_def knobs0_def ssi1_def ssi0_def status_failed_def status0_def
        isUnhealthy_def server_status_get_def AsyncMap_get_def AsyncMap_set_def
        ServerStatus_default_def Let_def)
  then obtain self' status' where r: "?ft = Some (TrackerReturned self' status')"
    by blast
  have f: "storageServerTracker_removalFires collection_server 0 ?ft = Inr True"
    unfolding r storageServerTracker_removalFires_def by simp
  have l0: "tssLinks collection0"
    using server_removal_after_drain [where tc = collection0]
    by (simp add: collection0_def)
  have l1: "tssLinks collection_server"
    using server_removal_after_drain [where tc = collection0 and newServer = ssi1
        and processClass = 0 and entry = 0 and addedVer' = 0] l0
    by (simp add: collection_server_def)
  have l2: "tssLinks collection_tss"
    using server_removal_after_drain [where tc = collection_server and newServer = tss2
        and processClass = 0 and entry = 0 and addedVer' = 0] l1
    by (simp add: collection_tss_def)
  have l3: "tssLinks collection_killed"
    using server_removal_after_drain [where tc = collection_tss and tssToRecruit = 0] l2
    by (simp add: collection_killed_def)
  have m: "(1, 0) \<in> set (server_and_tss_info collection_server)"
    by (simp add: s)
  have d: "TCServerInfo.tracker (serverObj collection_server 0) = Some True \<or>
           (\<exists>ps. AllDataRemoved ps \<in> set ?evs \<and> (\<exists>p \<in> set ps. drainedAndAged knobs0 0 p))"
    using server_removal_after_drain [where tc = collection_server and u = 1 and server = 0
        and knobs = knobs0 and ignoreZone = "''IgnoreSSFailures''" and self = collection_server
        and interf = ssi1 and status = status_failed and addedVer = 0 and evs = ?evs,
        THEN conjunct2, THEN conjunct2, THEN conjunct1] l1 m f
    by blast
  have p: "\<exists>p \<in> set [poll_busy, poll_done]. drainedAndAged knobs0 0 p"
    using server_removal_after_drain [where knobs = knobs0 and addedVer = 0
        and polls = "[poll_busy, poll_done]", THEN conjunct1] w
    by blast
  have e: "case storageServerTracker_enter fns0 collection_excluded 0 False status0 [True] of
             Conflict tc' \<Rightarrow> True | _ \<Rightarrow> False"
    by (simp add: storageServerTracker_enter_def storageServerTracker_requirements_def
        storageServerTracker_worstStatus_def storageServerTracker_testStatus_def
        storageServerTracker_testAddrs_def excludedServers_get_def AsyncMap_get_def
        invalidWiggleServer_def isCorrectDC_def AddressExclusion_ip_def fns0_def status0_def
        collection_excluded_def
        collection_server_def addServer_def addServer_storage_def
        checkAndCreateMachine_def shouldHandleServer_def TCServerInfo_new_def
        collection0_def ssi1_def ssi0_def Let_def)
  then obtain tc' where c:
    "storageServerTracker_enter fns0 collection_excluded 0 False status0 [True] = Conflict tc'"
    by (cases "storageServerTracker_enter fns0 collection_excluded 0 False status0 [True]") simp_all
  have x: "removeFailedServer collection_excluded = None" "uid (serverObj collection_excluded 0) = 1"
    by (simp_all add: collection_excluded_def
        collection_server_def addServer_def addServer_storage_def
        checkAndCreateMachine_def shouldHandleServer_def TCServerInfo_new_def
        collection0_def ssi1_def ssi0_def Let_def)
  have g: "excludedAsFailed collection_excluded 0 \<and> removeFailedServer tc' = Some 1"
    using server_removal_after_drain [where fns = fns0 and tc = collection_excluded and server = 0
        and isTssArg = False and status = status0 and ddEnabled = "[True]" and tc' = tc'] c x
    by simp
  have h: "fst (dataDistribution_catch (Some 1) movekeys_conflict True) =
             [RemoveKeysFromFailedServer 1, RemoveStorageServer 1]"
    by (simp add: dataDistribution_catch_def)
  have d': "\<exists>ps. AllDataRemoved ps \<in> set ?evs \<and> (\<exists>p \<in> set ps. drainedAndAged knobs0 0 p)"
    using d s(4) by simp
  have k: "healthyZone collection_killed = None"
    "server_status collection_killed = Map.empty"
    "killTss (serverObj collection_killed 2)"
    "server_and_tss_info collection_killed = [(1, 0), (2, 2)]"
    by (simp_all add: collection_killed_def storageRecruiter_killTss_def
        collection_tss_def addServer_tss_def
        collection_server_def addServer_def addServer_storage_def
        checkAndCreateMachine_def shouldHandleServer_def TCServerInfo_new_def
        collection0_def tss2_def ssi1_def ssi0_def Let_def)
  have kn: "storageServerFailureTracker knobs0 ''IgnoreSSFailures'' collection_killed 2 tss2
      status0 0 [AllDataRemoved [poll_busy]] = None"
    by (simp add: storageServerFailureTracker_round_def failureTracker_enter_def k
        tss2_def ssi0_def status0_def isUnhealthy_def server_status_get_def
        AsyncMap_get_def AsyncMap_set_def ServerStatus_default_def Let_def)
  have kf: "storageServerTracker_removalFires collection_killed 2
      (storageServerFailureTracker knobs0 ''IgnoreSSFailures'' collection_killed 2 tss2
        status0 0 [AllDataRemoved [poll_busy]]) = Inr True"
    unfolding kn by (simp add: storageServerTracker_removalFires_def k)
  have km: "(2, 2) \<in> set (server_and_tss_info collection_killed)"
    by (simp add: k)
  have kd: "\<not> drainedAndAged knobs0 0 poll_busy"
    by (simp add: drainedAndAged_def poll_busy_def knobs0_def)
  have kt: "TCServerInfo.tracker (serverObj collection_killed 2) = Some True"
    using server_removal_after_drain [where tc = collection_killed and u = 2 and server = 2
        and knobs = knobs0 and ignoreZone = "''IgnoreSSFailures''" and self = collection_killed
        and interf = tss2 and status = status0 and addedVer = 0
        and evs = "[AllDataRemoved [poll_busy]]",
        THEN conjunct2, THEN conjunct2, THEN conjunct1] l3 km kf kd
    by simp
  have c': "\<exists>tc'. storageServerTracker_enter fns0 collection_excluded 0 False status0 [True] =
                   Conflict tc' \<and> removeFailedServer tc' = Some 1"
    using c g by blast
  have g': "excludedAsFailed collection_excluded 0"
    using g by simp
  show ?thesis
    using w p t l1 l3 km kf kt m s(4) f d' c' g' h by (intro conjI)
qed

text \<open>
  Claim C2 as stated fails on the code, in two ways.  A test storage server that is
  alive, so that its failure tracker is still in its loop, and that the only poll finds
  with three shards at read version 1, is removed when the recruiter kills it: the
  removal branch of its tracker fires.  It fires as well when the server was not killed
  and its pair was removed.  And a storage server with three shards whose
  address is excluded as failed is removed by the data distributor: the pass of its
  tracker sends it to \<open>removeFailedServer\<close> and throws, and the error handler calls
  \<open>removeStorageServer\<close> for it; no read version is compared with its added version.
\<close>

theorem server_removal_undrained_counterexample:
  "storageServerFailureTracker knobs0 ''IgnoreSSFailures'' collection_killed 2 tss2
      status0 0 [AllDataRemoved [poll_busy]] = None \<and>
   storageServerTracker_removalFires collection_killed 2
     (storageServerFailureTracker knobs0 ''IgnoreSSFailures'' collection_killed 2 tss2
        status0 0 [AllDataRemoved [poll_busy]]) = Inr True \<and>
   \<not> drainedAndAged knobs0 0 poll_busy \<and>
   (2, 2) \<in> set (server_and_tss_info collection_killed) \<and>
   storageServerFailureTracker knobs0 ''IgnoreSSFailures'' collection_pair_removed 2 tss2
      status0 0 [AllDataRemoved [poll_busy]] = None \<and>
   \<not> killTss (serverObj collection_pair_removed 2) \<and>
   storageServerTracker_removalFires collection_pair_removed 2
     (storageServerFailureTracker knobs0 ''IgnoreSSFailures'' collection_pair_removed 2 tss2
        status0 0 [AllDataRemoved [poll_busy]]) = Inr True \<and>
   (\<exists>tc'. storageServerTracker_enter fns0 collection_excluded 0 False status0 [True] = Conflict tc' \<and>
          removeFailedServer tc' = Some 1 \<and>
          dataDistribution_catch (removeFailedServer tc') movekeys_conflict True =
            ([RemoveKeysFromFailedServer 1, RemoveStorageServer 1], None)) \<and>
   (1, 0) \<in> set (server_and_tss_info collection_excluded) \<and>
   uid (serverObj collection_excluded 0) = 1 \<and>
   TCServerInfo.tracker (serverObj collection_excluded 0) = Some False \<and>
   getNumberOfShards (shardsAffectedByTeamFailure collection_excluded) 1 = 3"
proof -
  have k: "healthyZone collection_killed = None"
    "server_status collection_killed = Map.empty"
    "killTss (serverObj collection_killed 2)"
    "server_and_tss_info collection_killed = [(1, 0), (2, 2)]"
    by (simp_all add: collection_killed_def storageRecruiter_killTss_def
        collection_tss_def addServer_tss_def
        collection_server_def addServer_def addServer_storage_def
        checkAndCreateMachine_def shouldHandleServer_def TCServerInfo_new_def
        collection0_def tss2_def ssi1_def ssi0_def Let_def)
  have n: "storageServerFailureTracker knobs0 ''IgnoreSSFailures'' collection_killed 2 tss2
      status0 0 [AllDataRemoved [poll_busy]] = None"
    by (simp add: storageServerFailureTracker_round_def failureTracker_enter_def k
        tss2_def ssi0_def status0_def isUnhealthy_def server_status_get_def
        AsyncMap_get_def AsyncMap_set_def ServerStatus_default_def Let_def)
  have f: "storageServerTracker_removalFires collection_killed 2 None = Inr True"
    by (simp add: storageServerTracker_removalFires_def k)
  have q: "healthyZone collection_pair_removed = None"
    "server_status collection_pair_removed = Map.empty"
    "\<not> killTss (serverObj collection_pair_removed 2)"
    "onTSSPairRemoved (serverObj collection_pair_removed 2) = Some 0"
    "removed (serverObj collection_pair_removed 0)"
    by (simp_all add: collection_pair_removed_def storageServerTracker_removed_def
        collection_tss_def addServer_tss_def
        collection_server_def addServer_def addServer_storage_def
        checkAndCreateMachine_def shouldHandleServer_def TCServerInfo_new_def
        collection0_def tss2_def ssi1_def ssi0_def Let_def)
  have qn: "storageServerFailureTracker knobs0 ''IgnoreSSFailures'' collection_pair_removed 2 tss2
      status0 0 [AllDataRemoved [poll_busy]] = None"
    by (simp add: storageServerFailureTracker_round_def failureTracker_enter_def q
        tss2_def ssi0_def status0_def isUnhealthy_def server_status_get_def
        AsyncMap_get_def AsyncMap_set_def ServerStatus_default_def Let_def)
  have qf: "storageServerTracker_removalFires collection_pair_removed 2 None = Inr True"
    by (simp add: storageServerTracker_removalFires_def onTSSPairRemoved_isReady_def q)
  have d: "\<not> drainedAndAged knobs0 0 poll_busy"
    by (simp add: drainedAndAged_def poll_busy_def knobs0_def)
  have x: "(1, 0) \<in> set (server_and_tss_info collection_excluded)"
    "uid (serverObj collection_excluded 0) = 1"
    "TCServerInfo.tracker (serverObj collection_excluded 0) = Some False"
    "getNumberOfShards (shardsAffectedByTeamFailure collection_excluded) 1 = 3"
    by (simp_all add: collection_excluded_def
        collection_server_def addServer_def addServer_storage_def
        checkAndCreateMachine_def shouldHandleServer_def TCServerInfo_new_def
        collection0_def ssi1_def ssi0_def Let_def)
  have e: "case storageServerTracker_enter fns0 collection_excluded 0 False status0 [True] of
             Conflict tc' \<Rightarrow> removeFailedServer tc' = Some 1 | _ \<Rightarrow> False"
    by (simp add: storageServerTracker_enter_def storageServerTracker_requirements_def
        storageServerTracker_worstStatus_def storageServerTracker_testStatus_def
        storageServerTracker_testAddrs_def excludedServers_get_def AsyncMap_get_def
        invalidWiggleServer_def isCorrectDC_def AddressExclusion_ip_def fns0_def status0_def
        collection_excluded_def
        collection_server_def addServer_def addServer_storage_def
        checkAndCreateMachine_def shouldHandleServer_def TCServerInfo_new_def
        collection0_def ssi1_def ssi0_def Let_def)
  then obtain tc' where c:
    "storageServerTracker_enter fns0 collection_excluded 0 False status0 [True] = Conflict tc'"
    "removeFailedServer tc' = Some 1"
    by (cases "storageServerTracker_enter fns0 collection_excluded 0 False status0 [True]") simp_all
  have h: "dataDistribution_catch (removeFailedServer tc') movekeys_conflict True =
            ([RemoveKeysFromFailedServer 1, RemoveStorageServer 1], None)"
    by (simp add: dataDistribution_catch_def c(2))
  show ?thesis
    unfolding n qn using f d k(4) q(3) qf x c h by auto
qed

section \<open>Properties of the median available space\<close>

lemma getTeam_teamAvailableSpace_cong:
  "teamObj self' = teamObj self \<Longrightarrow> serverObj self' = serverObj self \<Longrightarrow>
   getTeam_teamAvailableSpace fp self' ts = getTeam_teamAvailableSpace fp self ts"
  by (induction ts) (simp_all cong: sum.case_cong)

lemma getTeam_teamAvailableSpace_healthy:
  "getTeam_teamAvailableSpace fp self ts = Inr ratios \<Longrightarrow>
   map Inr ratios =
     map (\<lambda>t. getMinAvailableSpaceRatio fp (serverObj self) (teamObj self t))
       (filter (\<lambda>t. healthy (teamObj self t)) ts)"
proof (induction ts arbitrary: ratios)
  case Nil
  then show ?case by simp
next
  case (Cons t ts)
  show ?case
  proof (cases "healthy (teamObj self t)")
    case False
    then show ?thesis using Cons by simp
  next
    case True
    then show ?thesis
      using Cons.prems Cons.IH
      by (auto split: sum.splits)
  qed
qed

lemma medianOf_interval:
  "MIN_AVAILABLE_SPACE_RATIO knobs \<le> TARGET_AVAILABLE_SPACE_RATIO knobs \<Longrightarrow>
   MIN_AVAILABLE_SPACE_RATIO knobs \<le> medianOf knobs xs \<and>
   medianOf knobs xs \<le> TARGET_AVAILABLE_SPACE_RATIO knobs"
  by (simp add: medianOf_def Let_def)

lemma getTeam_refreshMedian_refreshed:
  assumes "now - lastMedianAvailableSpaceUpdate self > AVAILABLE_SPACE_UPDATE_DELAY knobs"
    and "getTeam_teamAvailableSpace fp self (teams self) = Inr ratios"
  shows "medianAvailableSpace (fst (getTeam_refreshMedian fp knobs now self)) = medianOf knobs ratios"
    and "lastMedianAvailableSpaceUpdate (fst (getTeam_refreshMedian fp knobs now self)) = now"
    and "snd (getTeam_refreshMedian fp knobs now self) = None"
proof -
  have c: "getTeam_teamAvailableSpace fp (self\<lparr>lastMedianAvailableSpaceUpdate := now\<rparr>) (teams self) = Inr ratios"
    using assms(2) getTeam_teamAvailableSpace_cong [of "self\<lparr>lastMedianAvailableSpaceUpdate := now\<rparr>" self fp "teams self"]
    by simp
  show "medianAvailableSpace (fst (getTeam_refreshMedian fp knobs now self)) = medianOf knobs ratios"
    using assms(1) c by (simp add: getTeam_refreshMedian_def Let_def)
  show "lastMedianAvailableSpaceUpdate (fst (getTeam_refreshMedian fp knobs now self)) = now"
    using assms(1) c by (simp add: getTeam_refreshMedian_def Let_def)
  show "snd (getTeam_refreshMedian fp knobs now self) = None"
    using assms(1) c by (simp add: getTeam_refreshMedian_def Let_def)
qed

text \<open>
  Claim C6.  Let the knobs satisfy \<open>MIN_AVAILABLE_SPACE_RATIO \<le> TARGET_AVAILABLE_SPACE_RATIO\<close>.
  When \<open>getTeam\<close> refreshes \<open>medianAvailableSpace\<close>, from the ratios of the healthy teams,
  the new value lies between the two knobs: it is \<open>MIN_AVAILABLE_SPACE_RATIO\<close> with at most
  one healthy team, and otherwise the element at index \<open>size/2\<close> of the sorted ratios,
  clamped to the interval.  A call that comes no later than \<open>AVAILABLE_SPACE_UPDATE_DELAY\<close>
  after a refresh does not refresh again.
\<close>

theorem getTeam_refreshMedian_interval:
  assumes "MIN_AVAILABLE_SPACE_RATIO knobs \<le> TARGET_AVAILABLE_SPACE_RATIO knobs"
    and "now - lastMedianAvailableSpaceUpdate self > AVAILABLE_SPACE_UPDATE_DELAY knobs"
    and "getTeam_teamAvailableSpace fp self (teams self) = Inr ratios"
  shows "MIN_AVAILABLE_SPACE_RATIO knobs \<le> medianAvailableSpace (fst (getTeam_refreshMedian fp knobs now self)) \<and>
         medianAvailableSpace (fst (getTeam_refreshMedian fp knobs now self)) \<le> TARGET_AVAILABLE_SPACE_RATIO knobs \<and>
         map Inr ratios =
           map (\<lambda>t. getMinAvailableSpaceRatio fp (serverObj self) (teamObj self t))
             (filter (\<lambda>t. healthy (teamObj self t)) (teams self)) \<and>
         (length ratios \<le> 1 \<longrightarrow>
            medianAvailableSpace (fst (getTeam_refreshMedian fp knobs now self)) = MIN_AVAILABLE_SPACE_RATIO knobs) \<and>
         (length ratios > 1 \<longrightarrow>
            medianAvailableSpace (fst (getTeam_refreshMedian fp knobs now self)) =
              max (MIN_AVAILABLE_SPACE_RATIO knobs)
                (min (TARGET_AVAILABLE_SPACE_RATIO knobs) (sort ratios ! (length ratios div 2)))) \<and>
         (\<forall>now'. now' - now \<le> AVAILABLE_SPACE_UPDATE_DELAY knobs \<longrightarrow>
            getTeam_refreshMedian fp knobs now' (fst (getTeam_refreshMedian fp knobs now self)) =
              (fst (getTeam_refreshMedian fp knobs now self), None))"
proof -
  note r = getTeam_refreshMedian_refreshed [OF assms(2) assms(3)]
  have "\<forall>now'. now' - now \<le> AVAILABLE_SPACE_UPDATE_DELAY knobs \<longrightarrow>
            getTeam_refreshMedian fp knobs now' (fst (getTeam_refreshMedian fp knobs now self)) =
              (fst (getTeam_refreshMedian fp knobs now self), None)"
    using r(2) by (simp add: getTeam_refreshMedian_def [of fp knobs _ "fst (getTeam_refreshMedian fp knobs now self)"])
  moreover have "map Inr ratios =
           map (\<lambda>t. getMinAvailableSpaceRatio fp (serverObj self) (teamObj self t))
             (filter (\<lambda>t. healthy (teamObj self t)) (teams self))"
    by (rule getTeam_teamAvailableSpace_healthy [OF assms(3)])
  ultimately show ?thesis
    using medianOf_interval [OF assms(1), of ratios] r(1)
    by (simp add: medianOf_def Let_def)
qed

theorem getTeam_refreshMedian_interval_witness:
  "medianAvailableSpace (fst (getTeam_refreshMedian fp0 knobs0 10 collection_three_teams)) = 2 / 10 \<and>
   medianAvailableSpace (fst (getTeam_refreshMedian fp0 knobs0 10 collection0)) = 5 / 100 \<and>
   getTeam_refreshMedian fp0 knobs0 12
     (fst (getTeam_refreshMedian fp0 knobs0 10 collection_three_teams)) =
     (fst (getTeam_refreshMedian fp0 knobs0 10 collection_three_teams), None)"
proof -
  have k: "MIN_AVAILABLE_SPACE_RATIO knobs0 \<le> TARGET_AVAILABLE_SPACE_RATIO knobs0"
    by (simp add: knobs0_def)
  have d3: "10 - lastMedianAvailableSpaceUpdate collection_three_teams > AVAILABLE_SPACE_UPDATE_DELAY knobs0"
    by (simp add: knobs0_def collection_three_teams_def collection0_def)
  have d0: "10 - lastMedianAvailableSpaceUpdate collection0 > AVAILABLE_SPACE_UPDATE_DELAY knobs0"
    by (simp add: knobs0_def collection0_def)
  have r3: "getTeam_teamAvailableSpace fp0 collection_three_teams (teams collection_three_teams) =
            Inr [5 / 10, 1 / 10, 2 / 10]"
    by (simp add: collection_three_teams_def collection0_def team0_def fp0_def)
  have r0: "getTeam_teamAvailableSpace fp0 collection0 (teams collection0) = Inr []"
    by (simp add: collection0_def)
  have s: "sort [5 / 10, 1 / 10, 2 / 10 :: real] ! 1 = 2 / 10"
    by simp
  have l: "(12::real) - 10 \<le> AVAILABLE_SPACE_UPDATE_DELAY knobs0"
    by (simp add: knobs0_def)
  show ?thesis
    using getTeam_refreshMedian_interval [OF k d3 r3] getTeam_refreshMedian_interval [OF k d0 r0] s l
    by (simp add: knobs0_def)
qed

section \<open>Properties of the team selection\<close>

lemma getTeam_sourceTeams_cong:
  "teamObj self' = teamObj self \<Longrightarrow>
   getTeam_sourceTeams self' cs h ts = getTeam_sourceTeams self cs h ts"
  by (induction ts) (auto split: sum.splits)

lemma getTeam_completeSources_cong:
  "sameSelectionData self' self \<Longrightarrow>
   getTeam_completeSources self' cs h us = getTeam_completeSources self cs h us"
proof (induction us)
  case Nil
  show ?case by simp
next
  case (Cons u us)
  have t: "teamObj self' = teamObj self" and s: "serverObj self' = serverObj self"
    and i: "server_info self' = server_info self"
    using Cons.prems by (simp_all add: sameSelectionData_def)
  show ?case
    using Cons.IH [OF Cons.prems] getTeam_sourceTeams_cong [OF t]
    by (auto simp add: s i split: option.splits sum.splits)
qed

lemma getTeam_eligible_cong:
  "sameSelectionData self' self \<Longrightarrow>
   getTeam_eligible fp knobs self' req t = getTeam_eligible fp knobs self req t"
  by (simp add: getTeam_eligible_def sameSelectionData_def)

lemma getTeam_hasShards_cong:
  "sameSelectionData self' self \<Longrightarrow> getTeam_hasShards self' req t = getTeam_hasShards self req t"
  by (simp add: getTeam_hasShards_def sameSelectionData_def)

lemma getTeam_scan_cong:
  "sameSelectionData self' self \<Longrightarrow>
   getTeam_scan fp knobs self' req idxs st = getTeam_scan fp knobs self req idxs st"
proof (induction idxs arbitrary: st)
  case Nil
  show ?case by simp
next
  case (Cons i idxs)
  obtain bo bl bi where st: "st = (bo, bl, bi)" by (cases st)
  have t: "teams self' = teams self" "teamObj self' = teamObj self" "serverObj self' = serverObj self"
    using Cons.prems by (simp_all add: sameSelectionData_def)
  show ?case
    unfolding st
    by (auto simp add: t Cons.IH [OF Cons.prems] getTeam_eligible_cong [OF Cons.prems]
        getTeam_hasShards_cong [OF Cons.prems] split: sum.splits bool.splits)
qed

lemma sameSelectionData_refl: "sameSelectionData self self"
  by (simp add: sameSelectionData_def)

lemma sameSelectionData_trans:
  "sameSelectionData a b \<Longrightarrow> sameSelectionData b c \<Longrightarrow> sameSelectionData a c"
  by (simp add: sameSelectionData_def)

lemma sameSelectionData_sym: "sameSelectionData a b \<Longrightarrow> sameSelectionData b a"
  by (simp add: sameSelectionData_def)

lemma sameSelectionData_setStartIndex: "sameSelectionData (setStartIndex req i self) self"
  by (simp add: sameSelectionData_def setStartIndex_def)

lemma getStartIndex_setStartIndex: "getStartIndex req (setStartIndex req i self) = i"
  by (simp add: getStartIndex_def setStartIndex_def)

lemma setStartIndex_idem: "setStartIndex req i (setStartIndex req j self) = setStartIndex req i self"
  by (simp add: setStartIndex_def)

lemma setStartIndex_same: "getStartIndex req self = i \<Longrightarrow> setStartIndex req i self = self"
  by (auto simp add: setStartIndex_def getStartIndex_def)

subsection \<open>The scan\<close>

lemma scanOrder_head: "s < n \<Longrightarrow> scanOrder s n = s # map (\<lambda>i. (s + i) mod n) [1..<n]"
  by (cases n) (simp_all add: scanOrder_def upt_conv_Cons del: upt_Suc)

lemma scanOrder_bound: "n > 0 \<Longrightarrow> i \<in> set (scanOrder s n) \<Longrightarrow> i < n"
  by (auto simp add: scanOrder_def)

lemma scanOrder_covers:
  assumes "s < n" and "j < n"
  shows "j \<in> set (scanOrder s n)"
proof (cases "s \<le> j")
  case True
  have "(s + (j - s)) mod n = j" using True assms by simp
  moreover have "j - s < n" using assms by simp
  ultimately show ?thesis
    unfolding scanOrder_def by (metis (no_types, lifting) atLeast0LessThan image_eqI lessThan_iff set_map set_upt)
next
  case False
  have "(s + (j + n - s)) mod n = j" using False assms by simp
  moreover have "j + n - s < n" using False assms by simp
  ultimately show ?thesis
    unfolding scanOrder_def by (metis (no_types, lifting) atLeast0LessThan image_eqI lessThan_iff set_map set_upt)
qed

lemma scanSelectable_cong:
  "sameSelectionData self' self \<Longrightarrow>
   scanSelectable fp knobs self' req i lb = scanSelectable fp knobs self req i lb"
  using getTeam_eligible_cong [of self' self fp knobs req] getTeam_hasShards_cong [of self' self req]
  by (simp add: scanSelectable_def) (simp add: sameSelectionData_def)

lemma scanReadable_cong:
  "sameSelectionData self' self \<Longrightarrow>
   scanReadable fp knobs self' req i = scanReadable fp knobs self req i"
  using getTeam_eligible_cong [of self' self fp knobs req]
  by (simp add: scanReadable_def) (simp add: sameSelectionData_def)

lemma getTeam_scan_readable:
  "getTeam_scan fp knobs self req idxs st = Inr r \<Longrightarrow> i \<in> set idxs \<Longrightarrow>
   scanReadable fp knobs self req i"
proof (induction idxs arbitrary: st)
  case Nil
  then show ?case by simp
next
  case (Cons c idxs)
  obtain bo bl bi where st: "st = (bo, bl, bi)" by (cases st)
  have here: "scanReadable fp knobs self req c"
    using Cons.prems(1) unfolding st
    by (auto simp add: scanReadable_def split: sum.splits bool.splits)
  have "\<exists>st'. getTeam_scan fp knobs self req idxs st' = Inr r"
    using Cons.prems(1) unfolding st
    by (auto split: sum.splits bool.splits if_splits)
  then show ?case
    using Cons.IH Cons.prems(2) here by auto
qed

lemma getTeam_better_facts:
  "\<not> getTeam_better req x x"
  "getTeam_better req x y \<Longrightarrow> \<not> getTeam_better req y x"
  "getTeam_better req x y \<Longrightarrow> getTeam_better req y z \<Longrightarrow> getTeam_better req x z"
  "\<not> getTeam_better req x y \<Longrightarrow> getTeam_better req z y \<Longrightarrow> \<not> getTeam_better req x z"
  by (auto simp add: getTeam_better_def)

lemma getTeam_scan_result:
  "getTeam_scan fp knobs self req idxs (bo, bl, bi) = Inr (bo', bl', bi') \<Longrightarrow>
   ((bo', bl', bi') = (bo, bl, bi) \<or>
    (\<exists>i \<in> set idxs. bi' = i \<and> bo' = Some (teams self ! i) \<and> scanSelectable fp knobs self req i bl')) \<and>
   (\<forall>i \<in> set idxs. \<forall>lb. scanSelectable fp knobs self req i lb \<longrightarrow>
       bo' \<noteq> None \<and> \<not> getTeam_better req lb bl') \<and>
   (bo \<noteq> None \<longrightarrow> bo' \<noteq> None \<and> (bl' = bl \<or> getTeam_better req bl' bl))"
proof (induction idxs arbitrary: bo bl bi)
  case Nil
  then show ?case by simp
next
  case (Cons c idxs)
  let ?t = "teams self ! c"
  from Cons.prems obtain e where e: "getTeam_eligible fp knobs self req ?t = Inr e"
    by (auto split: sum.splits)
  show ?case
  proof (cases e)
    case False
    then have rest: "getTeam_scan fp knobs self req idxs (bo, bl, bi) = Inr (bo', bl', bi')"
      using Cons.prems e by simp
    have ns: "\<And>lb. \<not> scanSelectable fp knobs self req c lb"
      using e False by (simp add: scanSelectable_def)
    show ?thesis
      using Cons.IH [OF rest] ns by auto
  next
    case True
    from Cons.prems e True obtain lb where
      lb: "getLoadBytes fp (serverObj self) (teamObj self ?t) (inflightPenalty req) = Inr lb"
      by (auto split: sum.splits)
    have sel: "\<And>x. scanSelectable fp knobs self req c x \<longleftrightarrow> x = lb \<and> getTeam_hasShards self req ?t"
      using e True lb by (auto simp add: scanSelectable_def)
    show ?thesis
    proof (cases "(bo = None \<or> getTeam_better req lb bl) \<and> getTeam_hasShards self req ?t")
      case take: True
      then have rest: "getTeam_scan fp knobs self req idxs (Some ?t, lb, c) = Inr (bo', bl', bi')"
        using Cons.prems e True lb by simp
      note ih = Cons.IH [OF rest]
      have a: "(bo', bl', bi') = (bo, bl, bi) \<or>
            (\<exists>i \<in> set (c # idxs). bi' = i \<and> bo' = Some (teams self ! i) \<and>
                scanSelectable fp knobs self req i bl')"
        using ih take sel by auto
      have b: "\<forall>i \<in> set (c # idxs). \<forall>x. scanSelectable fp knobs self req i x \<longrightarrow>
            bo' \<noteq> None \<and> \<not> getTeam_better req x bl'"
        using ih sel getTeam_better_facts(1,2) [of req] by auto
      have c: "bo \<noteq> None \<longrightarrow> bo' \<noteq> None \<and> (bl' = bl \<or> getTeam_better req bl' bl)"
        using ih take getTeam_better_facts(3) [of req] by auto
      show ?thesis using a b c by blast
    next
      case keep: False
      have "getTeam_scan fp knobs self req (c # idxs) (bo, bl, bi) =
            getTeam_scan fp knobs self req idxs (bo, bl, bi)"
        using e True lb keep by (simp del: de_Morgan_conj)
      then have rest: "getTeam_scan fp knobs self req idxs (bo, bl, bi) = Inr (bo', bl', bi')"
        using Cons.prems by simp
      note ih = Cons.IH [OF rest]
      have a: "(bo', bl', bi') = (bo, bl, bi) \<or>
            (\<exists>i \<in> set (c # idxs). bi' = i \<and> bo' = Some (teams self ! i) \<and>
                scanSelectable fp knobs self req i bl')"
        using ih by auto
      have b: "\<forall>i \<in> set (c # idxs). \<forall>x. scanSelectable fp knobs self req i x \<longrightarrow>
            bo' \<noteq> None \<and> \<not> getTeam_better req x bl'"
        using ih sel keep getTeam_better_facts(4) [of req] by auto
      have c: "bo \<noteq> None \<longrightarrow> bo' \<noteq> None \<and> (bl' = bl \<or> getTeam_better req bl' bl)"
        using ih by auto
      show ?thesis using a b c by blast
    qed
  qed
qed

lemma getTeam_scan_keep:
  "\<forall>j \<in> set idxs. scanReadable fp knobs self req j \<and>
      (\<forall>lb. scanSelectable fp knobs self req j lb \<longrightarrow> \<not> getTeam_better req lb bl) \<Longrightarrow>
   getTeam_scan fp knobs self req idxs (Some t, bl, b) = Inr (Some t, bl, b)"
proof (induction idxs)
  case Nil
  show ?case by simp
next
  case (Cons c idxs)
  have r: "scanReadable fp knobs self req c"
    and o: "\<And>lb. scanSelectable fp knobs self req c lb \<Longrightarrow> \<not> getTeam_better req lb bl"
    using Cons.prems by auto
  have rest: "getTeam_scan fp knobs self req idxs (Some t, bl, b) = Inr (Some t, bl, b)"
    using Cons by simp
  show ?case
    using r o rest
    by (auto simp add: scanReadable_def scanSelectable_def)
qed

text \<open>The scan for the true best team, run again on the collection it left, returns the
  same team and leaves the collection as it is.\<close>

lemma getTeam_trueBest_again:
  assumes ne: "teams self \<noteq> []"
    and first: "getTeam_trueBest fp knobs self req = (s1, Inr bo)"
  shows "getTeam_trueBest fp knobs s1 req = (s1, Inr bo)"
    and "sameSelectionData s1 self"
proof -
  let ?n = "length (teams self)"
  let ?s = "if getStartIndex req self \<ge> ?n then 0 else getStartIndex req self"
  let ?selfS = "setStartIndex req ?s self"
  have n: "?n > 0" using ne by simp
  have s: "?s < ?n" using n by simp
  obtain bl bi where
    scan: "getTeam_scan fp knobs ?selfS req (scanOrder ?s ?n) (None, 0, ?s) = Inr (bo, bl, bi)"
    and s1: "s1 = setStartIndex req bi ?selfS"
    using first by (auto simp add: getTeam_trueBest_def Let_def split: sum.splits prod.splits)
  have sdS: "sameSelectionData ?selfS self"
    by (rule sameSelectionData_setStartIndex)
  have sd1S: "sameSelectionData s1 ?selfS"
    unfolding s1 by (rule sameSelectionData_setStartIndex)
  show sd1: "sameSelectionData s1 self"
    using sd1S sdS by (rule sameSelectionData_trans)
  have len: "length (teams s1) = ?n"
    using sd1 by (simp add: sameSelectionData_def)
  have teams1: "teams s1 = teams ?selfS"
    using sd1S by (simp add: sameSelectionData_def)
  have start1: "getStartIndex req s1 = bi"
    unfolding s1 by (rule getStartIndex_setStartIndex)
  note res = getTeam_scan_result [OF scan]
  have bi: "bi < ?n"
    using res s n scanOrder_bound [of ?n _ ?s] by auto
  have same1: "setStartIndex req bi s1 = s1"
    using start1 by (rule setStartIndex_same)
  have second: "getTeam_trueBest fp knobs s1 req =
      (case getTeam_scan fp knobs s1 req (scanOrder bi ?n) (None, 0, bi) of
         Inl e \<Rightarrow> (s1, Inl e)
       | Inr (bo', bl', bi') \<Rightarrow> (setStartIndex req bi' s1, Inr bo'))"
    using bi len start1 same1
    by (auto simp add: getTeam_trueBest_def Let_def split: sum.splits)
  have "getTeam_scan fp knobs s1 req (scanOrder bi ?n) (None, 0, bi) = Inr (bo, bl, bi)"
  proof (cases "(bo, bl, bi) = (None, 0, ?s)")
    case True
    then have "scanOrder bi ?n = scanOrder ?s ?n" and "bo = None" and "bl = 0" and "bi = ?s"
      by simp_all
    then show ?thesis
      using scan getTeam_scan_cong [OF sd1S, of fp knobs req "scanOrder ?s ?n" "(None, 0, ?s)"]
      by simp
  next
    case False
    then have chosen: "bi \<in> set (scanOrder ?s ?n)" "bo = Some (teams ?selfS ! bi)"
        "scanSelectable fp knobs ?selfS req bi bl"
      using res by auto
    have sel1: "scanSelectable fp knobs s1 req bi bl"
      using chosen(3) scanSelectable_cong [OF sd1S] by simp
    have order: "scanOrder bi ?n = bi # map (\<lambda>i. (bi + i) mod ?n) [1..<?n]"
      using bi by (rule scanOrder_head)
    let ?R = "map (\<lambda>i. (bi + i) mod ?n) [1..<?n]"
    have step: "getTeam_scan fp knobs s1 req (bi # ?R) (None, 0, bi) =
                getTeam_scan fp knobs s1 req ?R (Some (teams s1 ! bi), bl, bi)"
      using sel1 by (simp add: scanSelectable_def)
    have keep: "\<forall>j \<in> set ?R. scanReadable fp knobs s1 req j \<and>
        (\<forall>lb. scanSelectable fp knobs s1 req j lb \<longrightarrow> \<not> getTeam_better req lb bl)"
    proof
      fix j assume "j \<in> set ?R"
      then have "j < ?n" using n by auto
      then have j: "j \<in> set (scanOrder ?s ?n)"
        using s scanOrder_covers by blast
      have "scanReadable fp knobs ?selfS req j"
        using getTeam_scan_readable [OF scan j] .
      moreover have "\<forall>lb. scanSelectable fp knobs ?selfS req j lb \<longrightarrow> \<not> getTeam_better req lb bl"
        using res j by blast
      ultimately show "scanReadable fp knobs s1 req j \<and>
        (\<forall>lb. scanSelectable fp knobs s1 req j lb \<longrightarrow> \<not> getTeam_better req lb bl)"
        using scanReadable_cong [OF sd1S] scanSelectable_cong [OF sd1S] by simp
    qed
    have "getTeam_scan fp knobs s1 req ?R (Some (teams s1 ! bi), bl, bi) =
          Inr (Some (teams s1 ! bi), bl, bi)"
      using keep by (rule getTeam_scan_keep)
    then show ?thesis
      using order step chosen(2) teams1 by simp
  qed
  then show "getTeam_trueBest fp knobs s1 req = (s1, Inr bo)"
    using second same1 by simp
qed

subsection \<open>The request\<close>

lemma getTeam_trueBest_cong:
  assumes sd: "sameSelectionData self' self"
    and st: "getStartIndex req self' = getStartIndex req self"
  shows "snd (getTeam_trueBest fp knobs self' req) = snd (getTeam_trueBest fp knobs self req)"
    and "sameSelectionData (fst (getTeam_trueBest fp knobs self' req)) (fst (getTeam_trueBest fp knobs self req))"
proof -
  define n where "n = length (teams self)"
  define s where "s = (if getStartIndex req self \<ge> n then 0 else getStartIndex req self)"
  have len: "length (teams self') = n"
    using sd by (simp add: sameSelectionData_def n_def)
  have sdS: "sameSelectionData (setStartIndex req s self') (setStartIndex req s self)"
    using sd by (simp add: sameSelectionData_def setStartIndex_def)
  have sdB: "\<And>b. sameSelectionData (setStartIndex req b (setStartIndex req s self'))
                      (setStartIndex req b (setStartIndex req s self))"
    using sd by (simp add: sameSelectionData_def setStartIndex_def)
  define r where "r = getTeam_scan fp knobs (setStartIndex req s self) req (scanOrder s n) (None, 0, s)"
  have r': "getTeam_scan fp knobs (setStartIndex req s self') req (scanOrder s n) (None, 0, s) = r"
    unfolding r_def by (rule getTeam_scan_cong [OF sdS])
  have t: "getTeam_trueBest fp knobs self req =
      (case r of Inl e \<Rightarrow> (setStartIndex req s self, Inl e)
       | Inr (bo, bl, bi) \<Rightarrow> (setStartIndex req bi (setStartIndex req s self), Inr bo))"
    unfolding getTeam_trueBest_def Let_def n_def s_def r_def ..
  have t': "getTeam_trueBest fp knobs self' req =
      (case r of Inl e \<Rightarrow> (setStartIndex req s self', Inl e)
       | Inr (bo, bl, bi) \<Rightarrow> (setStartIndex req bi (setStartIndex req s self'), Inr bo))"
    unfolding r' [symmetric] getTeam_trueBest_def Let_def len st s_def ..
  show "snd (getTeam_trueBest fp knobs self' req) = snd (getTeam_trueBest fp knobs self req)"
    unfolding t t' by (cases r) auto
  show "sameSelectionData (fst (getTeam_trueBest fp knobs self' req)) (fst (getTeam_trueBest fp knobs self req))"
    unfolding t t' using sdS sdB by (cases r) auto
qed

lemma getTeam_fallback_fst: "fst (getTeam_fallback a req f bo) = a"
  by (simp add: getTeam_fallback_def split: sum.splits)

lemma getTeam_fallback_cong:
  "sameSelectionData a' a \<Longrightarrow>
   snd (getTeam_fallback a' req f bo) = snd (getTeam_fallback a req f bo)"
  using getTeam_completeSources_cong [of a' a "completeSources req" False "completeSources req"]
  by (cases "getTeam_completeSources a (completeSources req) False (completeSources req)")
     (simp_all add: getTeam_fallback_def sameSelectionData_def)

lemma getTeam_choose_cong:
  assumes tb: "wantsTrueBest req"
    and sd: "sameSelectionData self' self"
    and st: "getStartIndex req self' = getStartIndex req self"
  shows "snd (getTeam_choose fp knobs rnd' self' req f) = snd (getTeam_choose fp knobs rnd self req f)"
proof -
  obtain a r where a: "getTeam_trueBest fp knobs self req = (a, r)"
    by (cases "getTeam_trueBest fp knobs self req")
  obtain a' r' where a': "getTeam_trueBest fp knobs self' req = (a', r')"
    by (cases "getTeam_trueBest fp knobs self' req")
  have r: "r' = r" and sda: "sameSelectionData a' a"
    using getTeam_trueBest_cong [OF sd st, of fp knobs] a a' by simp_all
  show ?thesis
  proof (cases r)
    case (Inl e)
    then show ?thesis using tb a a' r by (simp add: getTeam_choose_def)
  next
    case (Inr bo)
    then show ?thesis
      using tb a a' r getTeam_fallback_cong [OF sda, of req f bo]
      by (simp add: getTeam_choose_def)
  qed
qed

lemma getTeam_choose_again:
  assumes tb: "wantsTrueBest req"
    and ne: "teams self \<noteq> []"
    and first: "getTeam_choose fp knobs rnd self req f = (s1, Inr reply)"
  shows "getTeam_choose fp knobs rnd' s1 req f = (s1, Inr reply)"
    and "sameSelectionData s1 self"
proof -
  obtain a r where a: "getTeam_trueBest fp knobs self req = (a, r)"
    by (cases "getTeam_trueBest fp knobs self req")
  have "\<exists>bo. r = Inr bo"
    using first tb a by (cases r) (simp_all add: getTeam_choose_def)
  then obtain bo where r: "r = Inr bo" by blast
  have fb: "getTeam_fallback a req f bo = (s1, Inr reply)"
    using first tb a r by (simp add: getTeam_choose_def)
  have s1: "s1 = a"
    using getTeam_fallback_fst [of a req f bo] fb by simp
  have again: "getTeam_trueBest fp knobs a req = (a, Inr bo)" and sd: "sameSelectionData a self"
    using getTeam_trueBest_again [OF ne a [unfolded r]] by simp_all
  show "getTeam_choose fp knobs rnd' s1 req f = (s1, Inr reply)"
    using tb again fb s1 by (simp add: getTeam_choose_def)
  show "sameSelectionData s1 self"
    using sd s1 by simp
qed

lemma getTeam_select_unfold:
  assumes sd: "sameSelectionData self' self"
  shows "getTeam_select fp knobs rnd self' req =
     (if teams self = [] then (self', Inr (None, list_ex (\<lambda>u. server_info self u \<noteq> None) (src req)))
      else
        (case (if \<not> wantsNewServers req
               then getTeam_completeSources self (completeSources req) True (completeSources req)
               else Inr None) of
           Inl e \<Rightarrow> (self', Inl e)
         | Inr (Some t) \<Rightarrow> (self', Inr (Some t, list_ex (\<lambda>u. server_info self u \<noteq> None) (src req)))
         | Inr None \<Rightarrow>
             getTeam_choose fp knobs rnd self' req (list_ex (\<lambda>u. server_info self u \<noteq> None) (src req))))"
proof -
  have f: "server_info self' = server_info self" "teams self' = teams self"
    using sd by (simp_all add: sameSelectionData_def)
  show ?thesis
    unfolding getTeam_select_def Let_def f getTeam_completeSources_cong [OF sd] ..
qed

lemma getTeam_select_cong:
  assumes tb: "wantsTrueBest req"
    and sd: "sameSelectionData self' self"
    and st: "getStartIndex req self' = getStartIndex req self"
  shows "snd (getTeam_select fp knobs rnd' self' req) = snd (getTeam_select fp knobs rnd self req)"
proof -
  let ?cs = "if \<not> wantsNewServers req
               then getTeam_completeSources self (completeSources req) True (completeSources req)
               else Inr None"
  note u' = getTeam_select_unfold [OF sd, of fp knobs rnd' req]
  note u = getTeam_select_unfold [OF sameSelectionData_refl, of fp knobs rnd self req]
  note ch = getTeam_choose_cong [OF tb sd st, of fp knobs rnd' _ rnd]
  show ?thesis
  proof (cases "teams self = []")
    case True
    then show ?thesis unfolding u u' by simp
  next
    case ne: False
    show ?thesis
    proof (cases ?cs)
      case (Inl e)
      then show ?thesis unfolding u u' using ne by simp
    next
      case (Inr c)
      then show ?thesis unfolding u u' using ne ch by (cases c) simp_all
    qed
  qed
qed

text \<open>A request for the true best team, answered again on the collection the first
  answer left, has the same answer and leaves the collection as it is.\<close>

lemma getTeam_select_again:
  assumes tb: "wantsTrueBest req"
    and first: "getTeam_select fp knobs rnd self req = (s1, Inr reply)"
  shows "getTeam_select fp knobs rnd' s1 req = (s1, Inr reply)"
    and "sameSelectionData s1 self"
proof -
  let ?cs = "if \<not> wantsNewServers req
               then getTeam_completeSources self (completeSources req) True (completeSources req)
               else Inr None"
  let ?f = "list_ex (\<lambda>u. server_info self u \<noteq> None) (src req)"
  note u = getTeam_select_unfold [OF sameSelectionData_refl, of fp knobs rnd self req]
  have both: "getTeam_select fp knobs rnd' s1 req = (s1, Inr reply) \<and> sameSelectionData s1 self"
  proof (cases "teams self = []")
    case True
    then have "s1 = self" using first unfolding u by simp
    then show ?thesis using first True
      by (simp add: u getTeam_select_unfold [OF sameSelectionData_refl, of fp knobs rnd' self req]
          sameSelectionData_refl)
  next
    case ne: False
    show ?thesis
    proof (cases ?cs)
      case (Inl e)
      then show ?thesis using first ne unfolding u by simp
    next
      case (Inr c)
      show ?thesis
      proof (cases c)
        case (Some t)
        then have "s1 = self" using first ne Inr unfolding u by simp
        then show ?thesis using first ne Inr Some
          by (simp add: u getTeam_select_unfold [OF sameSelectionData_refl, of fp knobs rnd' self req]
              sameSelectionData_refl)
      next
        case None
        then have ch: "getTeam_choose fp knobs rnd self req ?f = (s1, Inr reply)"
          using first ne Inr unfolding u by simp
        have again: "getTeam_choose fp knobs rnd' s1 req ?f = (s1, Inr reply)"
          and sd: "sameSelectionData s1 self"
          using getTeam_choose_again [OF tb ne ch] by simp_all
        have "getTeam_select fp knobs rnd' s1 req = (s1, Inr reply)"
          unfolding getTeam_select_unfold [OF sd, of fp knobs rnd' req]
          using ne Inr None again by simp
        then show ?thesis using sd by simp
      qed
    qed
  qed
  show "getTeam_select fp knobs rnd' s1 req = (s1, Inr reply)" using both by simp
  show "sameSelectionData s1 self" using both by simp
qed

lemma getTeam_refreshMedian_None:
  assumes "getTeam_refreshMedian fp knobs now self = (sA, None)"
  shows "(\<not> now - lastMedianAvailableSpaceUpdate self > AVAILABLE_SPACE_UPDATE_DELAY knobs \<and> sA = self) \<or>
         (now - lastMedianAvailableSpaceUpdate self > AVAILABLE_SPACE_UPDATE_DELAY knobs \<and>
          (\<exists>R k. getTeam_teamAvailableSpace fp self (teams self) = Inr R \<and>
             sA = self\<lparr>lastMedianAvailableSpaceUpdate := now,
                       medianAvailableSpace := medianOf knobs R,
                       printDetailedTeamsInfo := k\<rparr>))"
proof (cases "now - lastMedianAvailableSpaceUpdate self > AVAILABLE_SPACE_UPDATE_DELAY knobs")
  case False
  then show ?thesis using assms by (simp add: getTeam_refreshMedian_def)
next
  case True
  have c: "getTeam_teamAvailableSpace fp (self\<lparr>lastMedianAvailableSpaceUpdate := now\<rparr>) (teams self) =
           getTeam_teamAvailableSpace fp self (teams self)"
    by (rule getTeam_teamAvailableSpace_cong) simp_all
  from assms True c obtain R where R: "getTeam_teamAvailableSpace fp self (teams self) = Inr R"
    by (auto simp add: getTeam_refreshMedian_def Let_def split: sum.splits)
  have "\<exists>k. sA = self\<lparr>lastMedianAvailableSpaceUpdate := now,
                       medianAvailableSpace := medianOf knobs R,
                       printDetailedTeamsInfo := k\<rparr>"
  proof (cases "medianOf knobs R < TARGET_AVAILABLE_SPACE_RATIO knobs")
    case True
    then have "sA = self\<lparr>lastMedianAvailableSpaceUpdate := now,
                       medianAvailableSpace := medianOf knobs R,
                       printDetailedTeamsInfo := printDetailedTeamsInfo self + 1\<rparr>"
      using assms \<open>now - lastMedianAvailableSpaceUpdate self > AVAILABLE_SPACE_UPDATE_DELAY knobs\<close> c R
      by (simp add: getTeam_refreshMedian_def Let_def)
    then show ?thesis by blast
  next
    case False
    then have "sA = self\<lparr>lastMedianAvailableSpaceUpdate := now,
                       medianAvailableSpace := medianOf knobs R\<rparr>"
      using assms \<open>now - lastMedianAvailableSpaceUpdate self > AVAILABLE_SPACE_UPDATE_DELAY knobs\<close> c R
      by (simp add: getTeam_refreshMedian_def Let_def)
    moreover have "self\<lparr>lastMedianAvailableSpaceUpdate := now,
                       medianAvailableSpace := medianOf knobs R\<rparr> =
                   self\<lparr>lastMedianAvailableSpaceUpdate := now,
                       medianAvailableSpace := medianOf knobs R,
                       printDetailedTeamsInfo := printDetailedTeamsInfo self\<rparr>"
      by simp
    ultimately show ?thesis by metis
  qed
  then show ?thesis using True R by blast
qed

lemma getTeam_refreshMedian_again:
  assumes first: "getTeam_refreshMedian fp knobs now self = (sA, None)"
    and sd: "sameSelectionData s1 sA"
  shows "\<exists>sB. getTeam_refreshMedian fp knobs now s1 = (sB, None) \<and> sameSelectionData sB s1 \<and>
              getStartIndex req sB = getStartIndex req s1"
proof -
  have f: "teams s1 = teams sA" "teamObj s1 = teamObj sA" "serverObj s1 = serverObj sA"
    "medianAvailableSpace s1 = medianAvailableSpace sA"
    "lastMedianAvailableSpaceUpdate s1 = lastMedianAvailableSpaceUpdate sA"
    using sd by (simp_all add: sameSelectionData_def)
  show ?thesis
  proof (cases "now - lastMedianAvailableSpaceUpdate s1 > AVAILABLE_SPACE_UPDATE_DELAY knobs")
    case False
    then have "getTeam_refreshMedian fp knobs now s1 = (s1, None)"
      by (simp add: getTeam_refreshMedian_def)
    then show ?thesis by (simp add: sameSelectionData_refl)
  next
    case again: True
    from getTeam_refreshMedian_None [OF first]
    show ?thesis
    proof
      assume "\<not> now - lastMedianAvailableSpaceUpdate self > AVAILABLE_SPACE_UPDATE_DELAY knobs \<and> sA = self"
      then show ?thesis using again f by simp
    next
      assume "now - lastMedianAvailableSpaceUpdate self > AVAILABLE_SPACE_UPDATE_DELAY knobs \<and>
          (\<exists>R k. getTeam_teamAvailableSpace fp self (teams self) = Inr R \<and>
             sA = self\<lparr>lastMedianAvailableSpaceUpdate := now,
                       medianAvailableSpace := medianOf knobs R,
                       printDetailedTeamsInfo := k\<rparr>)"
      then obtain R k where R: "getTeam_teamAvailableSpace fp self (teams self) = Inr R"
        and sA: "sA = self\<lparr>lastMedianAvailableSpaceUpdate := now,
                       medianAvailableSpace := medianOf knobs R,
                       printDetailedTeamsInfo := k\<rparr>"
        by blast
      have g: "teams s1 = teams self" "teamObj s1 = teamObj self" "serverObj s1 = serverObj self"
        "medianAvailableSpace s1 = medianOf knobs R" "lastMedianAvailableSpaceUpdate s1 = now"
        using f sA by simp_all
      have c: "getTeam_teamAvailableSpace fp (s1\<lparr>lastMedianAvailableSpaceUpdate := now\<rparr>) (teams s1) = Inr R"
        using R g getTeam_teamAvailableSpace_cong [of "s1\<lparr>lastMedianAvailableSpaceUpdate := now\<rparr>" self fp "teams self"]
        by simp
      have "\<exists>k'. getTeam_refreshMedian fp knobs now s1 =
              (s1\<lparr>lastMedianAvailableSpaceUpdate := now, medianAvailableSpace := medianOf knobs R,
                  printDetailedTeamsInfo := k'\<rparr>, None)"
      proof (cases "medianOf knobs R < TARGET_AVAILABLE_SPACE_RATIO knobs")
        case True
        then have "getTeam_refreshMedian fp knobs now s1 =
              (s1\<lparr>lastMedianAvailableSpaceUpdate := now, medianAvailableSpace := medianOf knobs R,
                  printDetailedTeamsInfo := printDetailedTeamsInfo s1 + 1\<rparr>, None)"
          using again c by (simp add: getTeam_refreshMedian_def Let_def)
        then show ?thesis by blast
      next
        case False
        then have "getTeam_refreshMedian fp knobs now s1 =
              (s1\<lparr>lastMedianAvailableSpaceUpdate := now, medianAvailableSpace := medianOf knobs R\<rparr>, None)"
          using again c by (simp add: getTeam_refreshMedian_def Let_def)
        moreover have "s1\<lparr>lastMedianAvailableSpaceUpdate := now, medianAvailableSpace := medianOf knobs R\<rparr> =
              s1\<lparr>lastMedianAvailableSpaceUpdate := now, medianAvailableSpace := medianOf knobs R,
                  printDetailedTeamsInfo := printDetailedTeamsInfo s1\<rparr>"
          by simp
        ultimately show ?thesis by metis
      qed
      then obtain k' where "getTeam_refreshMedian fp knobs now s1 =
              (s1\<lparr>lastMedianAvailableSpaceUpdate := now, medianAvailableSpace := medianOf knobs R,
                  printDetailedTeamsInfo := k'\<rparr>, None)"
        by blast
      then show ?thesis
        using g by (simp add: sameSelectionData_def getStartIndex_def)
    qed
  qed
qed

text \<open>
  Claim C7.  For a request with \<open>wantsTrueBest\<close>, two consecutive evaluations of \<open>getTeam\<close>
  give the same reply.  First, once the request is answered from a collection, it has the
  same answer from every collection that holds the same selection data and the start
  index that the first evaluation left.  Second, \<open>getTeam\<close> evaluated again at the same
  time on the collection that the first evaluation left gives the same reply.
\<close>

theorem getTeam_wantsTrueBest_repeatable:
  assumes "wantsTrueBest req"
  shows "(getTeam_select fp knobs rnd self req = (self1, Inr reply) \<longrightarrow>
            sameSelectionData self2 self1 \<longrightarrow> getStartIndex req self2 = getStartIndex req self1 \<longrightarrow>
            snd (getTeam_select fp knobs rnd' self2 req) = Inr reply) \<and>
         (getTeam fp knobs rnd now self req = (self1, Inr reply) \<longrightarrow>
            snd (getTeam fp knobs rnd' now self1 req) = Inr reply)"
proof (intro conjI impI)
  assume first: "getTeam_select fp knobs rnd self req = (self1, Inr reply)"
    and sd: "sameSelectionData self2 self1"
    and st: "getStartIndex req self2 = getStartIndex req self1"
  have "getTeam_select fp knobs rnd' self1 req = (self1, Inr reply)"
    by (rule getTeam_select_again(1) [OF assms first])
  then show "snd (getTeam_select fp knobs rnd' self2 req) = Inr reply"
    using getTeam_select_cong [OF assms sd st, of fp knobs rnd' rnd'] by simp
next
  assume first: "getTeam fp knobs rnd now self req = (self1, Inr reply)"
  obtain sA eo where ref: "getTeam_refreshMedian fp knobs now self = (sA, eo)"
    by (cases "getTeam_refreshMedian fp knobs now self")
  have eo: "eo = None" and sel: "getTeam_select fp knobs rnd sA req = (self1, Inr reply)"
    using first ref by (auto simp add: getTeam_def split: option.splits)
  have again: "getTeam_select fp knobs rnd' self1 req = (self1, Inr reply)"
    and sd: "sameSelectionData self1 sA"
    using getTeam_select_again [OF assms sel] by simp_all
  obtain sB where refB: "getTeam_refreshMedian fp knobs now self1 = (sB, None)"
    and sdB: "sameSelectionData sB self1"
    and stB: "getStartIndex req sB = getStartIndex req self1"
    using getTeam_refreshMedian_again [OF ref [unfolded eo] sd, of req] by blast
  have "snd (getTeam_select fp knobs rnd' sB req) = Inr reply"
    using getTeam_select_cong [OF assms sdB stB, of fp knobs rnd' rnd'] again by simp
  then show "snd (getTeam fp knobs rnd' now self1 req) = Inr reply"
    using refB by (simp add: getTeam_def)
qed

theorem getTeam_wantsTrueBest_repeatable_witness:
  "\<exists>self1. getTeam fp_members knobs0 (\<lambda>k. 0) 10 collection_three_teams request_trueBest =
             (self1, Inr (Some 2, False)) \<and>
           lowestUtilizationTeam self1 = 2 \<and>
           snd (getTeam fp_members knobs0 (\<lambda>k. 0) 10 self1 request_trueBest) = Inr (Some 2, False)"
proof -
  define c where "c = collection_three_teams\<lparr>lastMedianAvailableSpaceUpdate := 10,
                        medianAvailableSpace := 2 / 10, printDetailedTeamsInfo := 1\<rparr>"
  define order :: "nat list" where "order = [0, 1, 2]"
  define c2 where "c2 = c\<lparr>lowestUtilizationTeam := 2\<rparr>"
  have tb: "wantsTrueBest request_trueBest"
    by (simp add: request_trueBest_def)
  have r: "getTeam_refreshMedian fp_members knobs0 10 collection_three_teams = (c, None)"
    by (simp add: getTeam_refreshMedian_def medianOf_def Let_def fp_members_def knobs0_def
        collection_three_teams_def collection0_def team0_def c_def)
  have e: "getTeam_eligible fp_members knobs0 c request_trueBest 0 = Inr True"
    "getTeam_eligible fp_members knobs0 c request_trueBest (Suc 0) = Inr False"
    "getTeam_eligible fp_members knobs0 c request_trueBest 2 = Inr True"
    by (simp_all add: getTeam_eligible_def hasHealthyAvailableSpace_def getMinAvailableSpace_def
        fp_members_def knobs0_def request_trueBest_def collection_three_teams_def collection0_def
        team0_def server0_def c_def)
  have o: "scanOrder 0 3 = order"
    by (simp add: scanOrder_def upt_rec order_def)
  have t: "teams c = [0, 1, 2]"
    by (simp add: collection_three_teams_def c_def)
  have len: "length (teams c) = 3"
    by (simp add: t)
  have i: "teams c ! 0 = 0" "teams c ! Suc 0 = Suc 0" "teams c ! 2 = 2"
    by (simp_all add: t)
  have l: "getLoadBytes fp_members (serverObj c) (teamObj c 0) (inflightPenalty request_trueBest) = Inr 5"
    "getLoadBytes fp_members (serverObj c) (teamObj c 2) (inflightPenalty request_trueBest) = Inr 2"
    by (simp_all add: fp_members_def collection_three_teams_def collection0_def team0_def c_def)
  have h: "\<And>x. getTeam_hasShards c request_trueBest x"
    by (simp add: getTeam_hasShards_def request_trueBest_def)
  have p: "preferLowerUtilization request_trueBest"
    by (simp add: request_trueBest_def)
  have s: "getTeam_scan fp_members knobs0 c request_trueBest order (None, 0, 0) = Inr (Some 2, 2, 2)"
    by (simp add: order_def i e l h p getTeam_better_def)
  have g: "getStartIndex request_trueBest c = 0"
    by (simp add: getStartIndex_def request_trueBest_def collection_three_teams_def collection0_def c_def)
  have sc: "setStartIndex request_trueBest 0 c = c"
    using g by (rule setStartIndex_same)
  have s2: "setStartIndex request_trueBest 2 c = c2"
    by (simp add: setStartIndex_def p c2_def)
  have b: "getTeam_trueBest fp_members knobs0 c request_trueBest = (c2, Inr (Some 2))"
    unfolding getTeam_trueBest_def Let_def g len by (simp add: o sc s s2)
  have first: "getTeam fp_members knobs0 (\<lambda>k. 0) 10 collection_three_teams request_trueBest =
           (c2, Inr (Some 2, False))"
    by (simp add: getTeam_def r getTeam_select_def getTeam_choose_def getTeam_fallback_def t Let_def
        b tb)
       (simp add: request_trueBest_def)
  have low: "lowestUtilizationTeam c2 = 2"
    by (simp add: c2_def)
  show ?thesis
    using getTeam_wantsTrueBest_repeatable [OF tb, of fp_members knobs0 "\<lambda>k. 0" collection_three_teams
        c2 "(Some 2, False)" c2 "\<lambda>k. 0" 10]
      first low
    by blast
qed

end
